(* ===== verification/Prelude.thy ===== *)
theory Prelude
  imports Complex_Main "HOL-Library.Word" "HOL-Library.Sublist" "HOL-Library.AList"
begin

text \<open>
  The shared vocabulary of the development: Go's machine integers and \<open>float64\<close>, Go strings as
  byte lists with the functions of the packages \<open>strings\<close> and \<open>slices\<close> that the program
  calls, Go maps as association lists, and the collections of hints the component theories
  extend. A Go \<open>string\<close> is a sequence of bytes, so it is a \<open>char list\<close>; the Unicode-aware
  functions \<open>ToLower\<close> and \<open>TrimSpace\<close> are modelled on ASCII (bytes from 128 on are left
  alone), which covers every host name, mode and policy word the program compares.
\<close>

named_theorems go_defs "definitions of small accessors and guards, unfolded on demand"
named_theorems step_defs "definitions of atomic steps of the concurrent components"

section \<open>Integers, durations, times\<close>

type_synonym int64 = "64 word"

text \<open>\<open>time.Duration\<close> is an \<open>int64\<close> count of nanoseconds; a \<open>time.Time\<close> is modelled by
  its nanoseconds since the epoch, of which \<open>Unix()\<close> is the floor to seconds.\<close>

type_synonym duration = "64 word"
type_synonym gotime = int

definition second_ns :: int where
  "second_ns = 1000000000"

definition unix :: "gotime \<Rightarrow> int" where
  "unix t = t div second_ns"

definition of_unix :: "int \<Rightarrow> gotime" where
  "of_unix s = s * second_ns"

definition pos64 :: "int64 \<Rightarrow> bool" where
  "pos64 x \<longleftrightarrow> 0 < sint x"

lemma pos64_0 [simp]: "\<not> pos64 0"
  by (simp add: pos64_def)

lemma second_ns_pos [simp]: "0 < second_ns"
  by (simp add: second_ns_def)

lemma unix_of_unix [simp]: "unix (of_unix s) = s"
  by (simp add: unix_def of_unix_def second_ns_def)

lemma of_unix_unix_le: "of_unix (unix t) \<le> t"
  unfolding unix_def of_unix_def second_ns_def by presburger

lemma unix_less_imp_less: "unix s < unix t \<Longrightarrow> s < t"
  by (metis unix_def linorder_not_le second_ns_pos zdiv_mono1)

lemma unix_mono: "s \<le> t \<Longrightarrow> unix s \<le> unix t"
  by (simp add: unix_def second_ns_def zdiv_mono1)

section \<open>float64\<close>

text \<open>A finite \<open>float64\<close> is a rational number (both zeros are \<open>Fin 0\<close>: no comparison of the
  program tells them apart); NaN is equal to nothing and not above zero.\<close>

datatype f64 = Fin rat | PosInf | NegInf | NaN

fun f64_pos :: "f64 \<Rightarrow> bool" where
  "f64_pos (Fin q) = (0 < q)"
| "f64_pos PosInf = True"
| "f64_pos NegInf = False"
| "f64_pos NaN = False"

fun f64_eq :: "f64 \<Rightarrow> f64 \<Rightarrow> bool" where
  "f64_eq (Fin p) (Fin q) = (p = q)"
| "f64_eq PosInf PosInf = True"
| "f64_eq NegInf NegInf = True"
| "f64_eq _ _ = False"

text \<open>\<open>cmp.Or\<close> returns its first argument that is not the zero value.\<close>

definition f64_or :: "f64 \<Rightarrow> f64 \<Rightarrow> f64" where
  "f64_or a b = (if a = Fin 0 then b else a)"

definition int64_or :: "int64 \<Rightarrow> int64 \<Rightarrow> int64" where
  "int64_or a b = (if a = 0 then b else a)"

lemma f64_eq_imp_eq: "f64_eq a b \<Longrightarrow> a = b"
  by (cases a; cases b) auto

lemma f64_eq_iff: "f64_eq a b \<longleftrightarrow> a = b \<and> a \<noteq> NaN"
  by (cases a; cases b) auto

lemma f64_pos_not_zero: "f64_pos a \<Longrightarrow> f64_or a b = a"
  by (auto simp: f64_or_def)

section \<open>Strings\<close>

definition is_space :: "char \<Rightarrow> bool" where
  "is_space c \<longleftrightarrow> c \<in> {CHR 0x09, CHR 0x0A, CHR 0x0B, CHR 0x0C, CHR 0x0D, CHR '' ''}"

definition lower_char :: "char \<Rightarrow> char" where
  "lower_char c = (let n = of_char c :: nat in if 65 \<le> n \<and> n \<le> 90 then char_of (n + 32) else c)"

definition to_lower :: "string \<Rightarrow> string" where
  "to_lower s = map lower_char s"

definition trim_space :: "string \<Rightarrow> string" where
  "trim_space s = rev (dropWhile is_space (rev (dropWhile is_space s)))"

text \<open>\<open>strings.TrimRight(s, cutset)\<close>.\<close>

definition trim_right :: "string \<Rightarrow> char set \<Rightarrow> string" where
  "trim_right s cs = rev (dropWhile (\<lambda>c. c \<in> cs) (rev s))"

definition has_prefix :: "string \<Rightarrow> string \<Rightarrow> bool" where
  "has_prefix s p \<longleftrightarrow> take (length p) s = p"

definition trim_prefix :: "string \<Rightarrow> string \<Rightarrow> string" where
  "trim_prefix s p = (if has_prefix s p then drop (length p) s else s)"

text \<open>\<open>strings.Split(s, sep)\<close> for a one-byte separator: always at least one piece.\<close>

fun split_on :: "char \<Rightarrow> string \<Rightarrow> string list" where
  "split_on c [] = [[]]"
| "split_on c (x # xs) =
     (if x = c then [] # split_on c xs
      else case split_on c xs of [] \<Rightarrow> [[x]] | p # ps \<Rightarrow> (x # p) # ps)"

fun join_with :: "string \<Rightarrow> string list \<Rightarrow> string" where
  "join_with sep [] = []"
| "join_with sep [p] = p"
| "join_with sep (p # ps) = p @ sep @ join_with sep ps"

text \<open>\<open>strings.Contains(s, sub)\<close>.\<close>

fun str_contains :: "string \<Rightarrow> string \<Rightarrow> bool" where
  "str_contains [] sub = (sub = [])"
| "str_contains (x # xs) sub = (has_prefix (x # xs) sub \<or> str_contains xs sub)"

subsection \<open>Facts about the string functions\<close>

lemma lower_char_idem [simp]: "lower_char (lower_char c) = lower_char c"
  by (auto simp: lower_char_def Let_def)

lemma to_lower_idem [simp]: "to_lower (to_lower s) = to_lower s"
  by (simp add: to_lower_def)

lemma split_on_not_Nil [simp]: "split_on c s \<noteq> []"
  by (induction s) (auto split: list.splits)

lemma split_on_single: "c \<notin> set s \<Longrightarrow> split_on c s = [s]"
  by (induction s) auto

lemma split_on_append_sep:
  "c \<notin> set p \<Longrightarrow> split_on c (p @ c # s) = p # split_on c s"
  by (induction p) (auto split: list.splits)

text \<open>Joining pieces that do not contain the separator and splitting again gives them back.\<close>

lemma split_on_join:
  "ps \<noteq> [] \<Longrightarrow> \<forall>p \<in> set ps. c \<notin> set p \<Longrightarrow> split_on c (join_with [c] ps) = ps"
proof (induction ps)
  case (Cons p ps)
  then show ?case
    by (cases ps) (simp_all add: split_on_single split_on_append_sep)
qed simp

lemma join_split_on [simp]: "join_with [c] (split_on c s) = s"
proof (induction s)
  case (Cons x xs)
  obtain p ps where "split_on c xs = p # ps"
    by (cases "split_on c xs") auto
  then show ?case using Cons by (cases ps) auto
qed simp

lemma split_on_no_sep: "p \<in> set (split_on c s) \<Longrightarrow> c \<notin> set p"
  by (induction s arbitrary: p) (auto split: if_splits list.splits)

lemma has_prefix_append [simp]: "has_prefix (p @ s) p"
  by (simp add: has_prefix_def)

lemma trim_prefix_append [simp]: "trim_prefix (p @ s) p = s"
  by (simp add: trim_prefix_def)

lemma has_prefix_iff: "has_prefix s p \<longleftrightarrow> (\<exists>t. s = p @ t)"
  by (metis append_take_drop_id has_prefix_def has_prefix_append)

lemma trim_right_last:
  "(s = [] \<or> last s \<notin> cs) \<Longrightarrow> trim_right s cs = s"
  by (cases s rule: rev_cases) (auto simp: trim_right_def)

lemma trim_right_snoc:
  "trim_right (s @ [c]) cs = (if c \<in> cs then trim_right s cs else s @ [c])"
  by (simp add: trim_right_def)

section \<open>Maps as association lists\<close>

text \<open>A Go map is an association list with distinct keys, in the order in which \<open>range\<close> visits
  it; lookups go through \<open>map_of\<close>. Statements about loops over maps hold for every order,
  because the list is arbitrary.\<close>

type_synonym smap = "(string \<times> string) list"

definition map_eq :: "('k \<times> 'v) list \<Rightarrow> ('k \<times> 'v) list \<Rightarrow> bool" where
  "map_eq xs ys \<longleftrightarrow> (\<forall>k \<in> set (map fst xs @ map fst ys). map_of xs k = map_of ys k)"

lemma map_eq_iff: "map_eq xs ys \<longleftrightarrow> map_of xs = map_of ys"
proof
  assume "map_eq xs ys"
  then have "map_of xs k = map_of ys k" for k
    by (cases "k \<in> set (map fst xs @ map fst ys)")
      (auto simp: map_eq_def map_of_eq_None_iff [THEN iffD2])
  then show "map_of xs = map_of ys" by blast
qed (simp add: map_eq_def)

lemma map_eq_refl [simp]: "map_eq xs xs"
  by (simp add: map_eq_iff)

text \<open>\<open>maps.Copy(dst, src)\<close>.\<close>

definition maps_copy :: "('k \<times> 'v) list \<Rightarrow> ('k \<times> 'v) list \<Rightarrow> ('k \<times> 'v) list" where
  "maps_copy dst src = fold (\<lambda>(k, v) m. AList.update k v m) src dst"

lemma map_of_AList_update [simp]: "map_of (AList.update k v m) = (map_of m)(k \<mapsto> v)"
  by (rule update_conv')

lemma map_of_AList_delete [simp]: "map_of (AList.delete k m) = (map_of m)(k := None)"
  by (rule delete_conv')

lemma map_of_maps_copy:
  "distinct (map fst src) \<Longrightarrow> map_of (maps_copy dst src) = map_of dst ++ map_of src"
proof (induction src arbitrary: dst)
  case (Cons kv src)
  obtain k v where kv: "kv = (k, v)" by (cases kv)
  have "map_of (maps_copy dst (kv # src)) = (map_of dst)(k \<mapsto> v) ++ map_of src"
    using Cons by (simp add: maps_copy_def kv)
  moreover have "k \<notin> dom (map_of src)"
    using Cons.prems by (auto simp: kv dom_map_of_conv_image_fst)
  ultimately show ?case
    by (auto simp: kv map_add_def fun_eq_iff split: option.splits)
qed (simp add: maps_copy_def)

lemma distinct_AList_update [simp]:
  "distinct (map fst m) \<Longrightarrow> distinct (map fst (AList.update k v m))"
  by (rule distinct_update)

section \<open>Lists\<close>

lemma filter_subseq [simp, intro]: "subseq (filter P xs) xs"
  by (rule subseq_filter_left)

lemma suffix_dropI: "suffix (drop n xs) xs"
  by (rule suffix_drop)

end
