(* ===== verification/Json.thy ===== *)
theory Json
  imports Prelude "HOL-Library.Char_ord" "HOL-Library.List_Lexorder"
begin

text \<open>
  What the program uses of \<open>encoding/json\<close> for a \<open>map[string]string\<close> (the columns
  \<open>env_json\<close> and \<open>labels_json\<close> of the store) and for a single string. \<open>json_marshal\<close> writes the
  keys in ascending byte order and escapes as Go does: quote and backslash, the control
  characters, and \<open><\<close>, \<open>>\<close>, \<open>&\<close>. Bytes from 128 on are copied, which is what Go does for
  valid UTF-8 other than the two line separators it escapes. \<open>json_unmarshal\<close> reads compact
  documents of this form, the only ones the store writes.
\<close>

section \<open>Strings\<close>

definition hex_digit :: "nat \<Rightarrow> char" where
  "hex_digit n = char_of (if n < 10 then 48 + n else 87 + n)"

definition hex_val :: "char \<Rightarrow> nat option" where
  "hex_val c = (let n = of_char c :: nat in
     if 48 \<le> n \<and> n \<le> 57 then Some (n - 48)
     else if 97 \<le> n \<and> n \<le> 102 then Some (n - 87)
     else if 65 \<le> n \<and> n \<le> 70 then Some (n - 55) else None)"

definition quote :: char where "quote = CHR 0x22"
definition backslash :: char where "backslash = CHR 0x5C"

definition escape_char :: "char \<Rightarrow> string" where
  "escape_char c = (let n = of_char c :: nat in
     if n = 34 \<or> n = 92 then [backslash, c]
     else if n = 8 then [backslash, CHR ''b'']
     else if n = 9 then [backslash, CHR ''t'']
     else if n = 10 then [backslash, CHR ''n'']
     else if n = 12 then [backslash, CHR ''f'']
     else if n = 13 then [backslash, CHR ''r'']
     else if n < 32 \<or> n = 60 \<or> n = 62 \<or> n = 38
       then [backslash, CHR ''u'', CHR ''0'', CHR ''0'', hex_digit (n div 16), hex_digit (n mod 16)]
     else [c])"

definition json_string :: "string \<Rightarrow> string" where
  "json_string s = quote # concat (map escape_char s) @ [quote]"

definition unescape :: "char \<Rightarrow> char option" where
  "unescape c = map_of [(CHR 0x22, CHR 0x22), (CHR 0x5C, CHR 0x5C), (CHR ''/'', CHR ''/''),
     (CHR ''b'', CHR 0x08), (CHR ''t'', CHR 0x09), (CHR ''n'', CHR 0x0A),
     (CHR ''f'', CHR 0x0C), (CHR ''r'', CHR 0x0D)] c"

definition hex4 :: "char \<Rightarrow> char \<Rightarrow> char \<Rightarrow> char \<Rightarrow> nat option" where
  "hex4 a b c d = (case (hex_val a, hex_val b, hex_val c, hex_val d) of
     (Some w, Some x, Some y, Some z) \<Rightarrow> Some (((w * 16 + x) * 16 + y) * 16 + z) | _ \<Rightarrow> None)"

text \<open>The UTF-8 bytes of a code point; a surrogate half that stands alone becomes U+FFFD.\<close>

definition utf8 :: "nat \<Rightarrow> string" where
  "utf8 n =
     (if n < 0x80 then [char_of n]
      else if n < 0x800 then [char_of (0xC0 + n div 64), char_of (0x80 + n mod 64)]
      else if n < 0x10000 then
        [char_of (0xE0 + n div 4096), char_of (0x80 + n div 64 mod 64), char_of (0x80 + n mod 64)]
      else
        [char_of (0xF0 + n div 262144), char_of (0x80 + n div 4096 mod 64),
         char_of (0x80 + n div 64 mod 64), char_of (0x80 + n mod 64)])"

definition high_surrogate :: "nat \<Rightarrow> bool" where
  "high_surrogate n \<longleftrightarrow> 0xD800 \<le> n \<and> n < 0xDC00"

definition low_surrogate :: "nat \<Rightarrow> bool" where
  "low_surrogate n \<longleftrightarrow> 0xDC00 \<le> n \<and> n < 0xE000"

definition utf8_unit :: "nat \<Rightarrow> string" where
  "utf8_unit n = utf8 (if high_surrogate n \<or> low_surrogate n then 0xFFFD else n)"

text \<open>The low half of a surrogate pair, when an escape with one comes next.\<close>

definition low_half :: "string \<Rightarrow> nat option" where
  "low_half cs =
     (case cs of
        x # u # a # b # c # d # rest \<Rightarrow>
          (if x = backslash \<and> u = CHR ''u'' then
             (case hex4 a b c d of
                Some n \<Rightarrow> if low_surrogate n then Some n else None
              | None \<Rightarrow> None)
           else None)
      | _ \<Rightarrow> None)"

text \<open>The rest of a string literal, up to its closing quote, and what follows it.\<close>

function json_chars :: "string \<Rightarrow> (string \<times> string) option" where
  "json_chars [] = None"
| "json_chars (c # cs) =
     (if c = quote then Some ([], cs)
      else if c = backslash then
        (case cs of
           [] \<Rightarrow> None
         | d # ds \<Rightarrow>
             if d = CHR ''u'' then
               (case ds of
                  a # b # a' # b' # rest \<Rightarrow>
                    (case hex4 a b a' b' of
                       None \<Rightarrow> None
                     | Some n \<Rightarrow>
                         (case (if high_surrogate n then low_half rest else None) of
                            Some l \<Rightarrow>
                              map_option (map_prod ((@) (utf8 (0x10000 + (n - 0xD800) * 1024 + (l - 0xDC00)))) id)
                                (json_chars (drop 6 rest))
                          | None \<Rightarrow> map_option (map_prod ((@) (utf8_unit n)) id) (json_chars rest)))
                | _ \<Rightarrow> None)
             else (case unescape d of
                     None \<Rightarrow> None
                   | Some x \<Rightarrow> map_option (map_prod ((#) x) id) (json_chars ds)))
      else if (of_char c :: nat) < 32 then None
      else map_option (map_prod ((#) c) id) (json_chars cs))"
  by pat_completeness auto
termination
  by (relation "measure length") auto

lemma json_chars_length: "json_chars cs = Some (s, r) \<Longrightarrow> length r < length cs"
proof (induction cs arbitrary: s r rule: length_induct)
  case (1 cs)
  show ?case
  proof (cases cs)
    case (Cons c cs')
    have tail: "length r' < length xs" if "json_chars xs = Some (s', r')" "length xs < length cs" for xs s' r'
      using 1(1) that by blast
    show ?thesis
      using 1(2) unfolding Cons
      by (auto split: if_splits list.splits option.splits dest!: tail simp: Cons)
  qed (use 1(2) in simp)
qed

definition parse_string :: "string \<Rightarrow> (string \<times> string) option" where
  "parse_string cs = (case cs of [] \<Rightarrow> None | c # cs' \<Rightarrow> if c = quote then json_chars cs' else None)"

lemma parse_string_length: "parse_string cs = Some (s, r) \<Longrightarrow> length r < length cs"
  by (auto simp: parse_string_def split: list.splits if_splits dest!: json_chars_length)

section \<open>String maps\<close>

definition json_member :: "string \<times> string \<Rightarrow> string" where
  "json_member kv = json_string (fst kv) @ CHR '':'' # json_string (snd kv)"

text \<open>A nil map is written as \<open>null\<close>. The model has one empty map, the nil one.\<close>

definition json_marshal :: "smap \<Rightarrow> string" where
  "json_marshal m =
     (if m = [] then ''null''
      else CHR ''{'' # join_with '','' (map json_member (sort_key fst m)) @ ''}'')"

definition parse_member :: "string \<Rightarrow> ((string \<times> string) \<times> string) option" where
  "parse_member cs = (case parse_string cs of
     Some (k, c # cs') \<Rightarrow>
       (if c = CHR '':'' then map_option (\<lambda>(v, r). ((k, v), r)) (parse_string cs') else None)
   | _ \<Rightarrow> None)"

lemma parse_member_length: "parse_member cs = Some (kv, r) \<Longrightarrow> length r < length cs"
  by (fastforce simp: parse_member_def split: option.splits list.splits if_splits
      dest!: parse_string_length)

function parse_members :: "string \<Rightarrow> (smap \<times> string) option" where
  "parse_members cs =
     (case parse_member cs of
        None \<Rightarrow> None
      | Some (kv, r) \<Rightarrow>
          (case r of
             [] \<Rightarrow> None
           | c # r' \<Rightarrow>
               if c = CHR ''}'' then Some ([kv], r')
               else if c = CHR '','' then map_option (\<lambda>(m, r). (kv # m, r)) (parse_members r')
               else None))"
  by pat_completeness auto
termination
  by (relation "measure length") (auto dest: sym dest!: parse_member_length [OF sym])

declare parse_members.simps [simp del]

definition json_unmarshal :: "string \<Rightarrow> smap option" where
  "json_unmarshal cs =
     (if cs = ''null'' then Some []
      else case cs of
        c # cs' \<Rightarrow>
          (if c \<noteq> CHR ''{'' then None
           else if cs' = ''}'' then Some []
           else case parse_members cs' of Some (m, []) \<Rightarrow> Some (maps_copy [] m) | _ \<Rightarrow> None)
      | [] \<Rightarrow> None)"

section \<open>Round trips\<close>

lemma hex_digit_val: "n < 16 \<Longrightarrow> hex_val (hex_digit n) = Some n"
  by (auto simp: hex_val_def hex_digit_def Let_def)

lemma hex4_digits:
  "n < 256 \<Longrightarrow> hex4 (CHR ''0'') (CHR ''0'') (hex_digit (n div 16)) (hex_digit (n mod 16)) = Some n"
proof -
  assume "n < 256"
  moreover have "hex_val (CHR ''0'') = Some 0" by (simp add: hex_val_def)
  ultimately show ?thesis by (simp add: hex4_def hex_digit_val less_mult_imp_div_less)
qed

lemma utf8_unit_ascii: "n < 128 \<Longrightarrow> utf8_unit n = [char_of n] \<and> \<not> high_surrogate n"
  by (simp add: utf8_unit_def utf8_def high_surrogate_def low_surrogate_def)

lemma of_char_inj: "(of_char c :: nat) = of_char d \<longleftrightarrow> c = d"
  by simp

text \<open>A character written by the encoder is read back as itself.\<close>

lemma json_chars_escape:
  "json_chars (escape_char c @ cs) = map_option (map_prod ((#) c) id) (json_chars cs)"
proof -
  define n where "n = (of_char c :: nat)"
  have c: "c = char_of n" by (simp add: n_def)
  consider (special) "n = 34 \<or> n = 92 \<or> n = 8 \<or> n = 9 \<or> n = 10 \<or> n = 12 \<or> n = 13"
    | (hex) "n < 32 \<or> n = 60 \<or> n = 62 \<or> n = 38" "n \<notin> {8, 9, 10, 12, 13}"
    | (plain) "32 \<le> n" "n \<notin> {34, 92, 60, 62, 38}"
    by fastforce
  then show ?thesis
  proof cases
    case special
    then have "c \<in> {CHR 0x22, CHR 0x5C, CHR 0x08, CHR 0x09, CHR 0x0A, CHR 0x0C, CHR 0x0D}"
      using special unfolding insert_iff empty_iff of_char_inj [symmetric] by (simp flip: n_def)
    then show ?thesis
      by (elim insertE emptyE) (simp_all add: escape_char_def quote_def backslash_def unescape_def)
  next
    case hex
    then have n: "n < 128" by auto
    from hex have "escape_char c = [backslash, CHR ''u'', CHR ''0'', CHR ''0'', hex_digit (n div 16), hex_digit (n mod 16)]"
      by (auto simp: escape_char_def n_def [symmetric])
    moreover have "backslash \<noteq> quote" by (simp add: quote_def backslash_def)
    moreover have "(@) [c] = (#) c" by (rule ext) simp
    ultimately show ?thesis using n by (simp add: hex4_digits utf8_unit_ascii c)
  next
    case plain
    then have "c \<noteq> quote" "c \<noteq> backslash"
      by (auto simp: n_def quote_def backslash_def)
    with plain show ?thesis by (auto simp: escape_char_def n_def [symmetric])
  qed
qed

lemma json_chars_body: "json_chars (concat (map escape_char s) @ quote # r) = Some (s, r)"
  by (induction s) (simp_all add: json_chars_escape)

lemma parse_json_string: "parse_string (json_string s @ r) = Some (s, r)"
  using json_chars_body [of s r] by (simp add: parse_string_def json_string_def)

lemma parse_json_member: "parse_member (json_member kv @ r) = Some (kv, r)"
  by (cases kv) (simp add: parse_member_def json_member_def parse_json_string)

lemma parse_json_members:
  "m \<noteq> [] \<Longrightarrow> parse_members (join_with '','' (map json_member m) @ CHR ''}'' # r) = Some (m, r)"
proof (induction m)
  case (Cons kv m)
  show ?case
  proof (cases m)
    case Nil
    then show ?thesis by (simp add: parse_members.simps [of "json_member kv @ _"] parse_json_member)
  next
    case (Cons kv' m')
    with Cons.IH have "parse_members (join_with '','' (map json_member m) @ CHR ''}'' # r) = Some (m, r)"
      by simp
    then show ?thesis
      using parse_members.simps [of "json_member kv @ CHR '','' # join_with '','' (map json_member m) @ CHR ''}'' # r"]
      by (simp add: Cons parse_json_member)
  qed
qed simp

lemma json_member_not_brace: "join_with '','' (map json_member (kv # m)) @ ''}'' \<noteq> ''}''"
  by (cases m) (simp_all add: json_member_def json_string_def)

lemma map_of_sort_key: "distinct (map fst m) \<Longrightarrow> map_of (sort_key fst m) = map_of m"
  by (rule map_of_inject_set [THEN iffD2]) (simp_all add: distinct_map)

lemma json_roundtrip:
  assumes "distinct (map fst m)"
  shows "\<exists>m'. json_unmarshal (json_marshal m) = Some m' \<and> map_of m' = map_of m"
proof (cases "m = []")
  case True
  then show ?thesis by (simp add: json_marshal_def json_unmarshal_def)
next
  case False
  let ?ms = "sort_key fst m"
  from False have ne: "?ms \<noteq> []" by (metis set_empty set_sort)
  then have "join_with '','' (map json_member ?ms) @ ''}'' \<noteq> ''}''"
    by (metis json_member_not_brace list.exhaust)
  then have "json_unmarshal (json_marshal m) = Some (maps_copy [] ?ms)"
    using False parse_json_members [OF ne, of "[]"]
    by (simp add: json_marshal_def json_unmarshal_def)
  moreover have "map_of (maps_copy [] ?ms) = map_of m"
    using assms by (simp add: map_of_maps_copy map_of_sort_key distinct_map)
  ultimately show ?thesis by blast
qed

end
