(* ===== verification/Strconv.thy ===== *)
theory Strconv
  imports Json
begin

text \<open>
  What the program uses of \<open>strconv\<close> and of the verbs of \<open>fmt\<close>: \<open>Itoa\<close> (and \<open>%d\<close>), \<open>Atoi\<close>, which
  accepts an optional sign and digits and refuses what does not fit a 64-bit \<open>int\<close>, and \<open>Quote\<close>
  (and \<open>%q\<close>), which escapes control characters in Go's syntax and leaves printable text alone
  (bytes from 128 on are copied, which is what Go does for printable UTF-8).
\<close>

definition digit :: "nat \<Rightarrow> char" where
  "digit n = char_of (48 + n)"

definition digit_val :: "char \<Rightarrow> nat option" where
  "digit_val c = (let n = of_char c :: nat in if 48 \<le> n \<and> n \<le> 57 then Some (n - 48) else None)"

fun digits :: "nat \<Rightarrow> string" where
  "digits n = (if n < 10 then [digit n] else digits (n div 10) @ [digit (n mod 10)])"

declare digits.simps [simp del]

definition itoa :: "int \<Rightarrow> string" where
  "itoa i = (if i < 0 then CHR ''-'' # digits (nat (- i)) else digits (nat i))"

fun digits_val :: "nat \<Rightarrow> string \<Rightarrow> nat option" where
  "digits_val acc [] = Some acc"
| "digits_val acc (c # cs) =
     (case digit_val c of None \<Rightarrow> None | Some d \<Rightarrow> digits_val (10 * acc + d) cs)"

definition int_range :: "int \<Rightarrow> bool" where
  "int_range i \<longleftrightarrow> - (2 ^ 63) \<le> i \<and> i < 2 ^ 63"

definition atoi_unsigned :: "string \<Rightarrow> nat option" where
  "atoi_unsigned s = (if s = [] then None else digits_val 0 s)"

definition atoi :: "string \<Rightarrow> int option" where
  "atoi s =
     (let value =
        (case s of
           [] \<Rightarrow> None
         | c # cs \<Rightarrow>
             (if c = CHR ''-'' then map_option (\<lambda>n. - int n) (atoi_unsigned cs)
              else if c = CHR ''+'' then map_option int (atoi_unsigned cs)
              else map_option int (atoi_unsigned s)))
      in case value of None \<Rightarrow> None | Some i \<Rightarrow> if int_range i then Some i else None)"

definition quote_char :: "char \<Rightarrow> string" where
  "quote_char c = (let n = of_char c :: nat in
     if n = 34 \<or> n = 92 then [backslash, c]
     else if 32 \<le> n \<and> n \<noteq> 127 then [c]
     else if n = 7 then [backslash, CHR ''a'']
     else if n = 8 then [backslash, CHR ''b'']
     else if n = 12 then [backslash, CHR ''f'']
     else if n = 10 then [backslash, CHR ''n'']
     else if n = 13 then [backslash, CHR ''r'']
     else if n = 9 then [backslash, CHR ''t'']
     else if n = 11 then [backslash, CHR ''v'']
     else [backslash, CHR ''x'', hex_digit (n div 16), hex_digit (n mod 16)])"

definition go_quote :: "string \<Rightarrow> string" where
  "go_quote s = quote # concat (map quote_char s) @ [quote]"

section \<open>Facts\<close>

lemma of_char_digit: "n < 10 \<Longrightarrow> (of_char (digit n) :: nat) = 48 + n"
  by (simp add: digit_def)

lemma digit_val_digit [simp]: "n < 10 \<Longrightarrow> digit_val (digit n) = Some n"
  by (simp add: digit_val_def of_char_digit Let_def)

lemma digit_inv: "digit_val c = Some d \<Longrightarrow> c = digit d \<and> d < 10"
  by (auto simp: digit_val_def digit_def Let_def split: if_splits)

lemma digits_not_Nil [simp]: "digits n \<noteq> []"
  by (subst digits.simps) simp

lemma digits_val_append:
  "digits_val acc (xs @ ys) = (case digits_val acc xs of None \<Rightarrow> None | Some v \<Rightarrow> digits_val v ys)"
  by (induction xs arbitrary: acc) (auto split: option.splits)

lemma digits_val_digits: "digits_val 0 (digits n) = Some n"
proof (induction n rule: digits.induct)
  case (1 n)
  then show ?case
    by (cases "n < 10") (subst digits.simps; simp add: digits_val_append)+
qed

lemma digits_chars: "c \<in> set (digits n) \<Longrightarrow> \<exists>d < 10. c = digit d"
proof (induction n rule: digits.induct)
  case (1 n)
  then show ?case
    by (cases "n < 10") (subst (asm) (2) digits.simps; force)+
qed

lemma digit_not_special:
  assumes "d < 10"
  shows "digit d \<noteq> CHR ''-''" "digit d \<noteq> CHR ''+''" "\<not> is_space (digit d)"
proof -
  have "of_char (digit d) \<noteq> (45 :: nat)" "of_char (digit d) \<noteq> (43 :: nat)"
    "of_char (digit d) \<notin> {9, 10, 11, 12, 13, 32 :: nat}"
    using assms by (auto simp: of_char_digit)
  then show "digit d \<noteq> CHR ''-''" "digit d \<noteq> CHR ''+''" "\<not> is_space (digit d)"
    by (auto simp: is_space_def simp del: of_char_of)
qed

text \<open>Every 64-bit integer survives being printed and read.\<close>

lemma atoi_itoa [simp]: "int_range i \<Longrightarrow> atoi (itoa i) = Some i"
proof -
  assume i: "int_range i"
  have unsigned: "atoi_unsigned (digits n) = Some n" for n
    by (simp add: atoi_unsigned_def digits_val_digits)
  show ?thesis
  proof (cases "i < 0")
    case True
    with i show ?thesis by (simp add: atoi_def itoa_def unsigned)
  next
    case False
    obtain c cs where ds: "digits (nat i) = c # cs" by (cases "digits (nat i)") auto
    then have "c \<noteq> CHR ''-''" "c \<noteq> CHR ''+''"
      using digits_chars [of c "nat i"] digit_not_special by auto
    with i False ds unsigned [of "nat i"] show ?thesis by (simp add: atoi_def itoa_def)
  qed
qed

lemma atoi_range: "atoi s = Some i \<Longrightarrow> int_range i"
  by (auto simp: atoi_def Let_def split: option.splits if_splits)

lemma atoi_Nil [simp]: "atoi [] = None"
  by (simp add: atoi_def)

lemma itoa_not_Nil [simp]: "itoa i \<noteq> []"
  by (simp add: itoa_def)

lemma int_range_sint [simp]: "int_range (sint (x :: int64))"
  using sint_ge [of x] sint_lt [of x] by (simp add: int_range_def)

end
