(* ===== verification/Policy.thy ===== *)
theory Policy
  imports Prelude
begin

text \<open>
  The package \<open>internal/policy\<close>: the policy document, its validation (\<open>Validate\<close>), loading
  (\<open>Load\<close>, with the YAML decoder and the file system as arguments) and the merge of defaults,
  profile, image entry and request into one effective spec (\<open>Resolve\<close>). The lemmas
  characterise validation by a declarative predicate, the merge by a precedence order, and the
  egress rules a caller can obtain.
\<close>

section \<open>The policy document\<close>

record egress =
  eg_mode :: string
  eg_hosts :: "string list"

record defaults =
  d_cpus :: f64
  d_memory_mb :: int64
  d_pids_limit :: int64
  d_user :: string
  d_read_only :: bool
  d_network_mode :: string
  d_ttl :: duration
  d_runtime :: string

record image_entry =
  im_name :: string
  im_description :: string
  im_cpus :: f64
  im_memory_mb :: int64
  im_ttl :: duration
  im_egress :: "egress option"
  im_pool :: int

record profile =
  pr_image :: string
  pr_cpus :: f64
  pr_memory_mb :: int64
  pr_ttl :: duration
  pr_egress :: "egress option"

record global_egress =
  ge_default :: egress
  ge_global_deny :: "string list"

record policy =
  po_version :: int
  po_defaults :: defaults
  po_images :: "image_entry list"
  po_profiles :: "(string \<times> profile) list"
  po_egress :: global_egress

definition current_version :: int where
  "current_version = 1"

definition egress_none :: string where
  "egress_none = ''none''"

definition egress_allowlist :: string where
  "egress_allowlist = ''allowlist''"

definition default_policy :: policy where
  "default_policy =
    \<lparr> po_version = current_version,
      po_defaults = \<lparr> d_cpus = Fin 1, d_memory_mb = 512, d_pids_limit = 256,
        d_user = ''1000:1000'', d_read_only = True, d_network_mode = ''none'',
        d_ttl = 0, d_runtime = [] \<rparr>,
      po_images = [],
      po_profiles = [],
      po_egress = \<lparr> ge_default = \<lparr> eg_mode = egress_none, eg_hosts = [] \<rparr>,
        ge_global_deny = [] \<rparr> \<rparr>"

section \<open>Validation\<close>

text \<open>Each constructor is one error return of \<open>Validate\<close>; the bad egress mode is carried.\<close>

datatype validate_error =
    UnsupportedVersion int
  | ImageNameRequired nat
  | DuplicateImage nat string
  | ImageEgressInvalid string string
  | PoolNegative string
  | PoolWithEgress string string
  | ProfileImageRequired string
  | ProfileImageNotListed string string
  | ProfileEgressInvalid string string
  | DefaultEgressInvalid string
  | NetworkModeInvalid string

text \<open>\<open>Egress.Validate\<close>: \<open>None\<close> is nil, \<open>Some m\<close> the error for mode \<open>m\<close>.\<close>

definition egress_validate :: "egress \<Rightarrow> string option" where
  "egress_validate e =
     (if eg_mode e \<in> {[], egress_none, egress_allowlist} then None else Some (eg_mode e))"

definition egress_mode_none :: "string \<Rightarrow> bool" where
  "egress_mode_none m \<longleftrightarrow> m = [] \<or> m = egress_none"

text \<open>The body of the loop over \<open>Images\<close>, with the set \<open>imageNames\<close> collected so far.\<close>

definition validate_image :: "nat \<Rightarrow> string list \<Rightarrow> image_entry \<Rightarrow> validate_error option" where
  "validate_image i seen im =
     (if im_name im = [] then Some (ImageNameRequired i)
      else if im_name im \<in> set seen then Some (DuplicateImage i (im_name im))
      else case (case im_egress im of None \<Rightarrow> None | Some e \<Rightarrow> egress_validate e) of
        Some m \<Rightarrow> Some (ImageEgressInvalid (im_name im) m)
      | None \<Rightarrow>
          (if im_pool im < 0 then Some (PoolNegative (im_name im))
           else case im_egress im of
             Some e \<Rightarrow>
               (if im_pool im > 0 \<and> eg_mode e \<noteq> [] \<and> eg_mode e \<noteq> egress_none
                then Some (PoolWithEgress (im_name im) (eg_mode e)) else None)
           | None \<Rightarrow> None))"

fun validate_images :: "nat \<Rightarrow> string list \<Rightarrow> image_entry list \<Rightarrow> validate_error + string list" where
  "validate_images i seen [] = Inr seen"
| "validate_images i seen (im # ims) =
     (case validate_image i seen im of
        Some e \<Rightarrow> Inl e
      | None \<Rightarrow> validate_images (Suc i) (im_name im # seen) ims)"

definition validate_profile ::
    "bool \<Rightarrow> string list \<Rightarrow> string \<Rightarrow> profile \<Rightarrow> validate_error option" where
  "validate_profile has_images names name prof =
     (if pr_image prof = [] then Some (ProfileImageRequired name)
      else if has_images \<and> pr_image prof \<notin> set names
        then Some (ProfileImageNotListed name (pr_image prof))
      else case pr_egress prof of
        None \<Rightarrow> None
      | Some e \<Rightarrow> map_option (ProfileEgressInvalid name) (egress_validate e))"

fun validate_profiles ::
    "bool \<Rightarrow> string list \<Rightarrow> (string \<times> profile) list \<Rightarrow> validate_error option" where
  "validate_profiles h names [] = None"
| "validate_profiles h names ((name, prof) # ps) =
     (case validate_profile h names name prof of
        Some e \<Rightarrow> Some e
      | None \<Rightarrow> validate_profiles h names ps)"

definition validate :: "policy \<Rightarrow> validate_error option" where
  "validate p =
     (if po_version p \<noteq> current_version then Some (UnsupportedVersion (po_version p))
      else case validate_images 0 [] (po_images p) of
        Inl e \<Rightarrow> Some e
      | Inr names \<Rightarrow>
          (case validate_profiles (po_images p \<noteq> []) names (po_profiles p) of
             Some e \<Rightarrow> Some e
           | None \<Rightarrow>
               (case egress_validate (ge_default (po_egress p)) of
                  Some m \<Rightarrow> Some (DefaultEgressInvalid m)
                | None \<Rightarrow>
                    (let nm = d_network_mode (po_defaults p) in
                     if nm \<noteq> [] \<and> nm \<noteq> ''none'' \<and> nm \<noteq> ''bridge''
                     then Some (NetworkModeInvalid nm) else None))))"

subsection \<open>What validation accepts\<close>

definition egress_ok :: "egress \<Rightarrow> bool" where
  "egress_ok e \<longleftrightarrow> eg_mode e \<in> {[], egress_none, egress_allowlist}"

definition image_ok :: "image_entry \<Rightarrow> bool" where
  "image_ok im \<longleftrightarrow> im_name im \<noteq> [] \<and> 0 \<le> im_pool im
     \<and> (case im_egress im of None \<Rightarrow> True
        | Some e \<Rightarrow> egress_ok e \<and> (0 < im_pool im \<longrightarrow> egress_mode_none (eg_mode e)))"

definition profile_ok :: "bool \<Rightarrow> string set \<Rightarrow> profile \<Rightarrow> bool" where
  "profile_ok has_images names pr \<longleftrightarrow> pr_image pr \<noteq> []
     \<and> (has_images \<longrightarrow> pr_image pr \<in> names)
     \<and> (case pr_egress pr of None \<Rightarrow> True | Some e \<Rightarrow> egress_ok e)"

definition valid_policy :: "policy \<Rightarrow> bool" where
  "valid_policy p \<longleftrightarrow>
     po_version p = current_version
   \<and> (\<forall>im \<in> set (po_images p). image_ok im)
   \<and> distinct (map im_name (po_images p))
   \<and> (\<forall>pr \<in> snd ` set (po_profiles p).
        profile_ok (po_images p \<noteq> []) (im_name ` set (po_images p)) pr)
   \<and> egress_ok (ge_default (po_egress p))
   \<and> d_network_mode (po_defaults p) \<in> {[], ''none'', ''bridge''}"

lemma egress_validate_None [simp]: "egress_validate e = None \<longleftrightarrow> egress_ok e"
  by (simp add: egress_validate_def egress_ok_def)

lemma validate_image_None:
  "validate_image i seen im = None \<longleftrightarrow> image_ok im \<and> im_name im \<notin> set seen"
  by (auto simp: validate_image_def image_ok_def egress_mode_none_def
      split: option.splits if_splits simp flip: egress_validate_None)

lemma validate_images_Inr:
  "validate_images i seen ims = Inr names \<longleftrightarrow>
     names = rev (map im_name ims) @ seen
   \<and> (\<forall>im \<in> set ims. image_ok im) \<and> distinct (map im_name ims)
   \<and> set (map im_name ims) \<inter> set seen = {}"
proof (induction ims arbitrary: i seen)
  case (Cons im ims)
  show ?case
  proof (cases "validate_image i seen im")
    case None
    with validate_image_None [of i seen im] have "image_ok im" "im_name im \<notin> set seen"
      by simp_all
    with None show ?thesis by (auto simp: Cons.IH)
  next
    case (Some e)
    with validate_image_None [of i seen im]
    have "\<not> (image_ok im \<and> im_name im \<notin> set seen)" by simp
    with Some show ?thesis by auto
  qed
qed auto

lemma validate_profile_None:
  "validate_profile h names n pr = None \<longleftrightarrow> profile_ok h (set names) pr"
  by (auto simp: validate_profile_def profile_ok_def split: option.splits)

lemma validate_profiles_None:
  "validate_profiles h names ps = None \<longleftrightarrow> (\<forall>pr \<in> snd ` set ps. profile_ok h (set names) pr)"
proof (induction h names ps rule: validate_profiles.induct)
  case (2 h names n pr ps)
  then show ?case
    using validate_profile_None [of h names n pr]
    by (cases "validate_profile h names n pr") auto
qed simp

lemma validate_None_iff: "validate p = None \<longleftrightarrow> valid_policy p"
proof (cases "validate_images 0 [] (po_images p)")
  case (Inl e)
  then have "\<not> ((\<forall>im \<in> set (po_images p). image_ok im) \<and> distinct (map im_name (po_images p)))"
    by (metis validate_images_Inr Int_empty_right list.set(1) sum.distinct(1))
  with Inl show ?thesis by (auto simp: validate_def valid_policy_def)
next
  case (Inr names)
  then have names: "names = rev (map im_name (po_images p))"
    and "\<forall>im \<in> set (po_images p). image_ok im" and "distinct (map im_name (po_images p))"
    by (simp_all add: validate_images_Inr)
  have "validate_profiles (po_images p \<noteq> []) names (po_profiles p) = None \<longleftrightarrow>
      (\<forall>pr \<in> snd ` set (po_profiles p).
        profile_ok (po_images p \<noteq> []) (im_name ` set (po_images p)) pr)"
    by (simp add: validate_profiles_None names)
  with Inr \<open>\<forall>im \<in> set (po_images p). image_ok im\<close> \<open>distinct (map im_name (po_images p))\<close>
  show ?thesis
    by (auto simp: validate_def valid_policy_def Let_def split: option.splits
        simp flip: egress_validate_None)
qed

section \<open>Loading\<close>

text \<open>The outcome of \<open>os.ReadFile\<close>, and the YAML decoder \<open>unmarshal\<close> (the package
  \<open>gopkg.in/yaml.v3\<close>) as an argument.\<close>

datatype file_read = FileMissing | FileError string | FileData string

datatype load_error =
    ReadPolicy string string
  | ParsePolicy string string
  | InvalidPolicy string validate_error

definition load_policy ::
    "(string \<Rightarrow> file_read) \<Rightarrow> (string \<Rightarrow> string + policy) \<Rightarrow> string \<Rightarrow> load_error + policy" where
  "load_policy fs unmarshal path =
     (if path = [] then Inr default_policy
      else case fs path of
        FileMissing \<Rightarrow> Inr default_policy
      | FileError e \<Rightarrow> Inl (ReadPolicy path e)
      | FileData data \<Rightarrow>
          (case unmarshal data of
             Inl e \<Rightarrow> Inl (ParsePolicy path e)
           | Inr p \<Rightarrow>
               (case validate p of
                  Some e \<Rightarrow> Inl (InvalidPolicy path e)
                | None \<Rightarrow> Inr p)))"

lemma default_policy_valid: "valid_policy default_policy"
  by (simp add: valid_policy_def default_policy_def egress_ok_def egress_none_def)

lemma load_policy_valid: "load_policy fs unmarshal path = Inr p \<Longrightarrow> valid_policy p"
  by (auto simp: load_policy_def default_policy_valid validate_None_iff
      split: if_splits file_read.splits sum.splits option.splits)

section \<open>Resolution\<close>

record request =
  rq_profile :: string
  rq_image :: string
  rq_cmd :: "string list"
  rq_env :: smap
  rq_cpus :: f64
  rq_memory_mb :: int64
  rq_ttl :: duration
  rq_name :: string
  rq_labels :: smap

record resolved =
  rs_image :: string
  rs_cmd :: "string list"
  rs_env :: smap
  rs_cpus :: f64
  rs_memory_mb :: int64
  rs_pids_limit :: int64
  rs_user :: string
  rs_read_only :: bool
  rs_network_mode :: string
  rs_ttl :: duration
  rs_runtime_name :: string
  rs_egress :: egress
  rs_name :: string
  rs_labels :: smap

text \<open>Every error of \<open>Resolve\<close> wraps \<open>ErrPolicyViolation\<close>.\<close>

datatype policy_violation =
    ProfileNotFound string
  | ImageRequired
  | ImageNotAllowed string

fun find_image :: "image_entry list \<Rightarrow> string \<Rightarrow> image_entry option" where
  "find_image [] n = None"
| "find_image (im # ims) n = (if im_name im = n then Some im else find_image ims n)"

definition apply_global_deny :: "string list \<Rightarrow> string list \<Rightarrow> string list" where
  "apply_global_deny hosts deny =
     (if hosts = [] \<or> deny = [] then hosts else filter (\<lambda>h. h \<notin> set deny) hosts)"

definition resolve_base :: "policy \<Rightarrow> resolved" where
  "resolve_base p = (let d = po_defaults p in
     \<lparr> rs_image = [], rs_cmd = [], rs_env = [], rs_cpus = d_cpus d,
       rs_memory_mb = d_memory_mb d, rs_pids_limit = d_pids_limit d, rs_user = d_user d,
       rs_read_only = d_read_only d, rs_network_mode = d_network_mode d, rs_ttl = d_ttl d,
       rs_runtime_name = d_runtime d, rs_egress = ge_default (po_egress p),
       rs_name = [], rs_labels = [] \<rparr>)"

definition apply_profile :: "profile \<Rightarrow> resolved \<Rightarrow> resolved" where
  "apply_profile prof out =
     out\<lparr> rs_image := pr_image prof,
       rs_cpus := (if f64_pos (pr_cpus prof) then pr_cpus prof else rs_cpus out),
       rs_memory_mb := (if pos64 (pr_memory_mb prof) then pr_memory_mb prof else rs_memory_mb out),
       rs_ttl := (if pos64 (pr_ttl prof) then pr_ttl prof else rs_ttl out),
       rs_egress := (case pr_egress prof of Some e \<Rightarrow> e | None \<Rightarrow> rs_egress out) \<rparr>"

definition apply_image :: "image_entry \<Rightarrow> resolved \<Rightarrow> resolved" where
  "apply_image im out =
     out\<lparr> rs_cpus := (if f64_pos (im_cpus im) then im_cpus im else rs_cpus out),
       rs_memory_mb := (if pos64 (im_memory_mb im) then im_memory_mb im else rs_memory_mb out),
       rs_ttl := (if pos64 (im_ttl im) then im_ttl im else rs_ttl out),
       rs_egress := (case im_egress im of Some e \<Rightarrow> e | None \<Rightarrow> rs_egress out) \<rparr>"

definition apply_request :: "request \<Rightarrow> resolved \<Rightarrow> resolved" where
  "apply_request req out =
     out\<lparr> rs_cpus := (if f64_pos (rq_cpus req) then rq_cpus req else rs_cpus out),
       rs_memory_mb := (if pos64 (rq_memory_mb req) then rq_memory_mb req else rs_memory_mb out),
       rs_ttl := (if pos64 (rq_ttl req) then rq_ttl req else rs_ttl out),
       rs_cmd := rq_cmd req, rs_env := rq_env req, rs_name := rq_name req,
       rs_labels := rq_labels req \<rparr>"

definition deny_hosts :: "string list \<Rightarrow> resolved \<Rightarrow> resolved" where
  "deny_hosts deny out =
     out\<lparr> rs_egress := (rs_egress out)\<lparr> eg_hosts := apply_global_deny (eg_hosts (rs_egress out)) deny \<rparr> \<rparr>"

text \<open>\<open>Resolve\<close>, its early returns in the source's order.\<close>

definition resolve :: "policy \<Rightarrow> request \<Rightarrow> policy_violation + resolved" where
  "resolve p req =
     (case (if rq_profile req = [] then Inr (resolve_base p)
            else case map_of (po_profiles p) (rq_profile req) of
              None \<Rightarrow> Inl (ProfileNotFound (rq_profile req))
            | Some prof \<Rightarrow> Inr (apply_profile prof (resolve_base p))) of
        Inl e \<Rightarrow> Inl e
      | Inr out0 \<Rightarrow>
          (let out1 = (if rq_image req \<noteq> [] then out0\<lparr> rs_image := rq_image req \<rparr> else out0) in
           if rs_image out1 = [] then Inl ImageRequired
           else case find_image (po_images p) (rs_image out1) of
             Some im \<Rightarrow> Inr (deny_hosts (ge_global_deny (po_egress p))
                               (apply_request req (apply_image im out1)))
           | None \<Rightarrow>
               (if po_images p \<noteq> [] then Inl (ImageNotAllowed (rs_image out1))
                else Inr (deny_hosts (ge_global_deny (po_egress p)) (apply_request req out1)))))"

subsection \<open>The precedence order, as a specification\<close>

text \<open>The layers a value may come from, most specific first: request, image entry, profile; a
  layer counts when its value is positive, and the defaults come last.\<close>

definition first_such :: "('a \<Rightarrow> bool) \<Rightarrow> 'a list \<Rightarrow> 'a \<Rightarrow> 'a" where
  "first_such P xs d = (case List.find P xs of Some x \<Rightarrow> x | None \<Rightarrow> d)"

definition profile_layer :: "policy \<Rightarrow> request \<Rightarrow> profile list" where
  "profile_layer p req =
     (if rq_profile req = [] then []
      else case map_of (po_profiles p) (rq_profile req) of None \<Rightarrow> [] | Some prof \<Rightarrow> [prof])"

definition chosen_image :: "policy \<Rightarrow> request \<Rightarrow> string" where
  "chosen_image p req =
     (if rq_image req \<noteq> [] then rq_image req
      else case profile_layer p req of [] \<Rightarrow> [] | prof # _ \<Rightarrow> pr_image prof)"

definition image_layer :: "policy \<Rightarrow> request \<Rightarrow> image_entry list" where
  "image_layer p req =
     (case find_image (po_images p) (chosen_image p req) of None \<Rightarrow> [] | Some im \<Rightarrow> [im])"

definition chosen_egress :: "policy \<Rightarrow> request \<Rightarrow> egress" where
  "chosen_egress p req =
     the (first_such (\<lambda>e. e \<noteq> None)
       (map im_egress (image_layer p req) @ map pr_egress (profile_layer p req))
       (Some (ge_default (po_egress p))))"

definition resolve_spec :: "policy \<Rightarrow> request \<Rightarrow> resolved" where
  "resolve_spec p req =
     \<lparr> rs_image = chosen_image p req, rs_cmd = rq_cmd req, rs_env = rq_env req,
       rs_cpus = first_such f64_pos
         (rq_cpus req # map im_cpus (image_layer p req) @ map pr_cpus (profile_layer p req))
         (d_cpus (po_defaults p)),
       rs_memory_mb = first_such pos64
         (rq_memory_mb req # map im_memory_mb (image_layer p req)
            @ map pr_memory_mb (profile_layer p req))
         (d_memory_mb (po_defaults p)),
       rs_pids_limit = d_pids_limit (po_defaults p), rs_user = d_user (po_defaults p),
       rs_read_only = d_read_only (po_defaults p),
       rs_network_mode = d_network_mode (po_defaults p),
       rs_ttl = first_such pos64
         (rq_ttl req # map im_ttl (image_layer p req) @ map pr_ttl (profile_layer p req))
         (d_ttl (po_defaults p)),
       rs_runtime_name = d_runtime (po_defaults p),
       rs_egress = \<lparr> eg_mode = eg_mode (chosen_egress p req),
         eg_hosts = filter (\<lambda>h. h \<notin> set (ge_global_deny (po_egress p)))
           (eg_hosts (chosen_egress p req)) \<rparr>,
       rs_name = rq_name req, rs_labels = rq_labels req \<rparr>"

definition resolve_denied :: "policy \<Rightarrow> request \<Rightarrow> policy_violation option" where
  "resolve_denied p req =
     (if rq_profile req \<noteq> [] \<and> rq_profile req \<notin> fst ` set (po_profiles p)
        then Some (ProfileNotFound (rq_profile req))
      else if chosen_image p req = [] then Some ImageRequired
      else if po_images p \<noteq> [] \<and> chosen_image p req \<notin> im_name ` set (po_images p)
        then Some (ImageNotAllowed (chosen_image p req))
      else None)"

lemma find_image_Some: "find_image ims n = Some im \<Longrightarrow> im \<in> set ims \<and> im_name im = n"
  by (induction ims) (auto split: if_splits)

lemma find_image_None: "find_image ims n = None \<longleftrightarrow> n \<notin> im_name ` set ims"
  by (induction ims) auto

lemma apply_global_deny_filter:
  "apply_global_deny hosts deny = filter (\<lambda>h. h \<notin> set deny) hosts"
  by (auto simp: apply_global_deny_def)

lemmas resolve_steps = resolve_base_def apply_profile_def apply_image_def apply_request_def
  deny_hosts_def apply_global_deny_filter

lemma first_such_Nil [simp]: "first_such P [] d = d"
  by (simp add: first_such_def)

lemma first_such_Cons [simp]: "first_such P (x # xs) d = (if P x then x else first_such P xs d)"
  by (simp add: first_such_def)

lemma the_first_such_Some [simp]:
  "the (if \<exists>y. x = Some y then x else z) = (case x of Some e \<Rightarrow> e | None \<Rightarrow> the z)"
  by (cases x) auto

lemma find_image_mem: "find_image ims n = Some im \<Longrightarrow> n \<in> im_name ` set ims"
  by (auto dest!: find_image_Some)

lemma profile_layer_cases:
  "(if rq_profile req = [] then Inr (resolve_base p)
    else case map_of (po_profiles p) (rq_profile req) of
      None \<Rightarrow> Inl (ProfileNotFound (rq_profile req))
    | Some prof \<Rightarrow> Inr (apply_profile prof (resolve_base p))) =
   (if rq_profile req \<noteq> [] \<and> rq_profile req \<notin> fst ` set (po_profiles p)
    then Inl (ProfileNotFound (rq_profile req))
    else Inr (case profile_layer p req of [] \<Rightarrow> resolve_base p
              | prof # _ \<Rightarrow> apply_profile prof (resolve_base p)))"
proof (cases "rq_profile req \<in> fst ` set (po_profiles p)")
  case True
  then obtain prof where "map_of (po_profiles p) (rq_profile req) = Some prof"
    by (metis map_of_eq_None_iff not_None_eq)
  with True show ?thesis by (simp add: profile_layer_def)
next
  case False
  then have "map_of (po_profiles p) (rq_profile req) = None" by (simp add: map_of_eq_None_iff)
  with False show ?thesis by (simp add: profile_layer_def)
qed

text \<open>The value just before the image lookup, and the effective spec once the image entry (if
  any) is known.\<close>

definition profiled :: "policy \<Rightarrow> request \<Rightarrow> resolved" where
  "profiled p req =
     (let out0 = (case profile_layer p req of [] \<Rightarrow> resolve_base p
                  | prof # _ \<Rightarrow> apply_profile prof (resolve_base p))
      in if rq_image req \<noteq> [] then out0\<lparr> rs_image := rq_image req \<rparr> else out0)"

lemma profile_layer_shape: "profile_layer p req = [] \<or> (\<exists>prof. profile_layer p req = [prof])"
  by (auto simp: profile_layer_def split: option.splits)

lemma profiled_image [simp]: "rs_image (profiled p req) = chosen_image p req"
  using profile_layer_shape [of p req]
  by (auto simp: profiled_def chosen_image_def resolve_base_def apply_profile_def Let_def)

lemma egress_set_hosts: "(e :: egress)\<lparr> eg_hosts := hs \<rparr> = \<lparr> eg_mode = eg_mode e, eg_hosts = hs \<rparr>"
  by simp

lemmas spec_defs = profiled_def resolve_spec_def chosen_egress_def chosen_image_def resolve_steps
  egress_set_hosts

lemma profiled_spec_no_image:
  assumes "image_layer p req = []"
  shows "deny_hosts (ge_global_deny (po_egress p)) (apply_request req (profiled p req))
    = resolve_spec p req"
  using profile_layer_shape [of p req]
  by (cases "rq_image req = []") (elim disjE exE; simp add: spec_defs assms Let_def cong: if_cong option.case_cong split del: if_split)+

lemma profiled_spec_image:
  assumes "image_layer p req = [im]"
  shows "deny_hosts (ge_global_deny (po_egress p))
      (apply_request req (apply_image im (profiled p req))) = resolve_spec p req"
  using profile_layer_shape [of p req]
  by (cases "rq_image req = []") (elim disjE exE; simp add: spec_defs assms Let_def cong: if_cong option.case_cong split del: if_split)+

lemma resolve_eq:
  "resolve p req = (case resolve_denied p req of Some e \<Rightarrow> Inl e | None \<Rightarrow> Inr (resolve_spec p req))"
proof (cases "rq_profile req \<noteq> [] \<and> rq_profile req \<notin> fst ` set (po_profiles p)")
  case True
  then show ?thesis
    unfolding resolve_def profile_layer_cases by (simp add: resolve_denied_def)
next
  case False
  have 1: "resolve p req =
     (if chosen_image p req = [] then Inl ImageRequired
      else case find_image (po_images p) (chosen_image p req) of
        Some im \<Rightarrow> Inr (deny_hosts (ge_global_deny (po_egress p))
                     (apply_request req (apply_image im (profiled p req))))
      | None \<Rightarrow> (if po_images p \<noteq> [] then Inl (ImageNotAllowed (chosen_image p req))
                 else Inr (deny_hosts (ge_global_deny (po_egress p))
                        (apply_request req (profiled p req)))))"
    using False unfolding resolve_def profile_layer_cases profiled_image [symmetric]
    by (simp only: profiled_def Let_def if_False sum.case)
  show ?thesis
  proof (cases "find_image (po_images p) (chosen_image p req)")
    case None
    then have "image_layer p req = []" by (simp add: image_layer_def)
    with None False show ?thesis
      using profiled_spec_no_image [of p req]
      by (auto simp: 1 resolve_denied_def find_image_None [symmetric])
  next
    case (Some im)
    then have "image_layer p req = [im]" by (simp add: image_layer_def)
    with Some False show ?thesis
      using profiled_spec_image [of p req im] find_image_mem [OF Some]
      by (auto simp: 1 resolve_denied_def)
  qed
qed


text \<open>C30. \<open>Validate\<close> returns nil exactly for the policies of the declarative predicate: the
  supported version, non-empty pairwise different image names with legal egress modes and
  non-negative pools that are never combined with an allowlist, profiles that name a listed
  image, a legal default egress and network mode.\<close>

theorem validate_decides_valid_policy: "validate p = None \<longleftrightarrow> valid_policy p"
  by (rule validate_None_iff)

subsection \<open>What a caller can obtain\<close>

definition policy_egresses :: "policy \<Rightarrow> egress set" where
  "policy_egresses p = insert (ge_default (po_egress p))
     ({e. \<exists>im \<in> set (po_images p). im_egress im = Some e}
      \<union> {e. \<exists>pr \<in> snd ` set (po_profiles p). pr_egress pr = Some e})"

lemma resolve_Inr:
  "resolve p req = Inr r \<longleftrightarrow> resolve_denied p req = None \<and> r = resolve_spec p req"
  by (auto simp: resolve_eq split: option.splits)

lemma first_such_Some_mem:
  "the (first_such (\<lambda>e. e \<noteq> None) xs (Some d)) \<in> insert d {e. Some e \<in> set xs}"
proof (induction xs)
  case (Cons x xs)
  then show ?case by (cases x) auto
qed simp

lemma image_layer_subset: "set (image_layer p req) \<subseteq> set (po_images p)"
  by (cases "find_image (po_images p) (chosen_image p req)")
    (auto simp: image_layer_def dest: find_image_Some)

lemma profile_layer_subset: "set (profile_layer p req) \<subseteq> snd ` set (po_profiles p)"
  by (cases "map_of (po_profiles p) (rq_profile req)")
    (auto simp: profile_layer_def dest: map_of_SomeD intro: rev_image_eqI)

lemma chosen_egress_in: "chosen_egress p req \<in> policy_egresses p"
proof -
  let ?es = "map im_egress (image_layer p req) @ map pr_egress (profile_layer p req)"
  have "chosen_egress p req = ge_default (po_egress p) \<or> Some (chosen_egress p req) \<in> set ?es"
    using first_such_Some_mem [of ?es "ge_default (po_egress p)"]
    unfolding chosen_egress_def by blast
  then show ?thesis
    using image_layer_subset [of p req] profile_layer_subset [of p req]
    unfolding policy_egresses_def by fastforce
qed

lemma resolve_egress:
  assumes "resolve p req = Inr r"
  shows "eg_mode (rs_egress r) = eg_mode (chosen_egress p req)"
    and "eg_hosts (rs_egress r) = filter (\<lambda>h. h \<notin> set (ge_global_deny (po_egress p)))
           (eg_hosts (chosen_egress p req))"
  using assms by (simp_all add: resolve_Inr resolve_spec_def)

lemma resolve_image: "resolve p req = Inr r \<Longrightarrow> rs_image r = chosen_image p req"
  by (simp add: resolve_Inr resolve_spec_def)

text \<open>The policy of the package's own tests, used by the witnesses.\<close>

definition sample_policy :: policy where
  "sample_policy =
    \<lparr> po_version = 1,
      po_defaults = \<lparr> d_cpus = Fin 1, d_memory_mb = 512, d_pids_limit = 256,
        d_user = ''1000:1000'', d_read_only = True, d_network_mode = ''none'',
        d_ttl = 0, d_runtime = [] \<rparr>,
      po_images =
        [\<lparr> im_name = ''alpine:latest'', im_description = [], im_cpus = Fin 0, im_memory_mb = 0,
           im_ttl = 0, im_egress = None, im_pool = 0 \<rparr>,
         \<lparr> im_name = ''python:3.12-slim'', im_description = [], im_cpus = Fin 2,
           im_memory_mb = 1024, im_ttl = 0,
           im_egress = Some \<lparr> eg_mode = egress_allowlist,
             eg_hosts = [''api.openai.com'', ''169.254.169.254''] \<rparr>, im_pool = 0 \<rparr>],
      po_profiles =
        [(''py-data'', \<lparr> pr_image = ''python:3.12-slim'', pr_cpus = Fin 4, pr_memory_mb = 0,
           pr_ttl = 600000000000,
           pr_egress = Some \<lparr> eg_mode = egress_allowlist, eg_hosts = [''api.anthropic.com''] \<rparr> \<rparr>)],
      po_egress = \<lparr> ge_default = \<lparr> eg_mode = egress_none, eg_hosts = [] \<rparr>,
        ge_global_deny = [''169.254.169.254''] \<rparr> \<rparr>"

definition plain_request :: "string \<Rightarrow> string \<Rightarrow> request" where
  "plain_request prof im =
    \<lparr> rq_profile = prof, rq_image = im, rq_cmd = [], rq_env = [], rq_cpus = Fin 0,
      rq_memory_mb = 0, rq_ttl = 0, rq_name = [], rq_labels = [] \<rparr>"

lemmas sample_defs = sample_policy_def plain_request_def egress_none_def egress_allowlist_def
  current_version_def

lemma sample_valid: "valid_policy sample_policy"
  by (simp add: valid_policy_def image_ok_def profile_ok_def egress_ok_def egress_mode_none_def
      sample_defs)

text \<open>With an image allowlist in the policy, no request resolves to an image outside it:
  whatever the caller sends, a resolved spec names a non-empty image of the list.\<close>

theorem resolve_image_allowed:
  assumes "resolve p req = Inr r" and "po_images p \<noteq> []"
  shows "rs_image r \<noteq> [] \<and> rs_image r \<in> im_name ` set (po_images p)"
  using assms by (auto simp: resolve_image) (auto simp: resolve_Inr resolve_denied_def split: if_splits)

theorem resolve_image_allowed_witness:
  "\<exists>r. resolve sample_policy (plain_request ''py-data'' []) = Inr r
     \<and> rs_image r \<in> im_name ` set (po_images sample_policy)"
proof -
  obtain r where r: "resolve sample_policy (plain_request ''py-data'' []) = Inr r"
    by (simp add: resolve_Inr resolve_denied_def chosen_image_def profile_layer_def sample_defs)
  moreover have "po_images sample_policy \<noteq> []" by (simp add: sample_policy_def)
  ultimately show ?thesis using resolve_image_allowed [OF r] by blast
qed

text \<open>A caller cannot choose its own egress. The resolved mode is that of an egress entry the
  operator wrote, the resolved hosts are some of that entry's hosts and none of them is globally
  denied, and two requests for the same profile and image get the same egress, whatever else they
  ask for.\<close>

theorem resolve_egress_from_policy:
  assumes "resolve p req = Inr r" and "resolve p req' = Inr r'"
    and "rq_profile req' = rq_profile req" and "rq_image req' = rq_image req"
  shows "(\<exists>e \<in> policy_egresses p. eg_mode (rs_egress r) = eg_mode e
            \<and> subseq (eg_hosts (rs_egress r)) (eg_hosts e))
       \<and> set (eg_hosts (rs_egress r)) \<inter> set (ge_global_deny (po_egress p)) = {}
       \<and> rs_egress r' = rs_egress r"
proof -
  have "chosen_image p req' = chosen_image p req" "profile_layer p req' = profile_layer p req"
    using assms(3,4) by (simp_all add: chosen_image_def profile_layer_def)
  then have "chosen_egress p req' = chosen_egress p req"
    by (simp add: chosen_egress_def image_layer_def)
  then have "rs_egress r' = rs_egress r"
    using assms(1,2) by (auto simp: resolve_Inr resolve_spec_def)
  then show ?thesis
    using resolve_egress [OF assms(1)] chosen_egress_in [of p req]
    by (auto simp: intro!: bexI [of _ "chosen_egress p req"])
qed

theorem resolve_egress_from_policy_witness:
  "\<exists>r. resolve sample_policy (plain_request [] ''python:3.12-slim'') = Inr r
     \<and> eg_hosts (rs_egress r) = [''api.openai.com'']
     \<and> set (eg_hosts (rs_egress r)) \<inter> set (ge_global_deny (po_egress sample_policy)) = {}"
proof -
  let ?req = "plain_request [] ''python:3.12-slim''"
  have r: "resolve sample_policy ?req = Inr (resolve_spec sample_policy ?req)"
    by (simp add: resolve_Inr resolve_denied_def chosen_image_def profile_layer_def sample_defs)
  have "eg_hosts (rs_egress (resolve_spec sample_policy ?req)) = [''api.openai.com'']"
    by (simp add: resolve_spec_def chosen_egress_def image_layer_def chosen_image_def
        profile_layer_def sample_defs)
  then show ?thesis
    using r resolve_egress_from_policy [OF r r] by blast
qed

lemma resolve_mode_ok:
  assumes "valid_policy p" and "resolve p req = Inr r"
  shows "egress_ok (rs_egress r)"
proof -
  have "egress_ok e" if "e \<in> policy_egresses p" for e
    using assms(1) that
    by (auto simp: policy_egresses_def valid_policy_def image_ok_def profile_ok_def
        split: option.splits)
  then have "egress_ok (chosen_egress p req)" using chosen_egress_in by blast
  then show ?thesis using resolve_egress(1) [OF assms(2)] by (simp add: egress_ok_def)
qed

text \<open>Loading never yields an invalid policy, and what it yields is either the built-in
  permissive default (no path, or no file there) or the decoded document itself; a document that
  fails validation, a decode error and a read error are reported as such.\<close>

theorem load_policy_sound:
  "(case load_policy fs unmarshal path of
      Inr p \<Rightarrow> valid_policy p \<and>
        (p = default_policy \<and> (path = [] \<or> fs path = FileMissing)
         \<or> (\<exists>d. fs path = FileData d \<and> unmarshal d = Inr p))
    | Inl (ReadPolicy q e) \<Rightarrow> q = path \<and> fs path = FileError e
    | Inl (ParsePolicy q e) \<Rightarrow> q = path \<and> (\<exists>d. fs path = FileData d \<and> unmarshal d = Inl e)
    | Inl (InvalidPolicy q e) \<Rightarrow> q = path \<and>
        (\<exists>d p. fs path = FileData d \<and> unmarshal d = Inr p \<and> validate p = Some e
           \<and> \<not> valid_policy p))"
  using default_policy_valid
  by (auto simp: load_policy_def simp flip: validate_None_iff
      split: file_read.splits sum.splits option.splits)

end
