(* ===== verification/Logbuf.thy ===== *)
theory Logbuf
  imports Prelude
begin

text \<open>
  The package \<open>internal/sandbox/logbuf\<close>: the bounded buffer of one sandbox's exec output with
  its lossy subscriptions. The mutex makes every method one atomic step, so a concurrent history
  is a list of operations. The buffer is shown to hold the longest recent part of everything
  written that fits the cap (\<open>keep\<close>), and a subscriber to see an in-order selection of the
  writes, complete as long as it lags by at most the channel's 64 entries.
\<close>

section \<open>State\<close>

datatype stream = Stdout | Stderr

record entry =
  e_stream :: stream
  e_data :: string
  e_when :: gotime

text \<open>A subscription's channel: the entries sent and not yet received, and whether it is closed.\<close>

record channel =
  ch_queue :: "entry list"
  ch_closed :: bool

text \<open>Channels are numbered in the order of their creation; \<open>subs\<close> holds the numbers of those
  still registered.\<close>

record buffer =
  b_entries :: "entry list"
  b_bytes :: int
  b_max :: int
  b_subs :: "nat list"
  b_chans :: "channel list"

definition chan_cap :: nat where
  "chan_cap = 64"

section \<open>Operations\<close>

definition new_buffer :: "int \<Rightarrow> buffer" where
  "new_buffer max_bytes =
     \<lparr> b_entries = [], b_bytes = 0, b_max = max_bytes, b_subs = [], b_chans = [] \<rparr>"

definition snapshot :: "buffer \<Rightarrow> entry list" where
  "snapshot b = b_entries b"

definition subscribe :: "buffer \<Rightarrow> nat \<times> buffer" where
  "subscribe b = (length (b_chans b),
     b\<lparr> b_chans := b_chans b @ [\<lparr> ch_queue = [], ch_closed = False \<rparr>],
       b_subs := b_subs b @ [length (b_chans b)] \<rparr>)"

definition cancel :: "nat \<Rightarrow> buffer \<Rightarrow> buffer" where
  "cancel ch b =
     (if ch \<in> set (b_subs b)
      then b\<lparr> b_subs := removeAll ch (b_subs b),
             b_chans := (b_chans b)[ch := (b_chans b ! ch)\<lparr> ch_closed := True \<rparr>] \<rparr>
      else b)"

text \<open>The consumer's receive: the head of the queue, or nothing.\<close>

definition receive :: "nat \<Rightarrow> buffer \<Rightarrow> entry option \<times> buffer" where
  "receive ch b =
     (if ch < length (b_chans b) then
        (case ch_queue (b_chans b ! ch) of
           [] \<Rightarrow> (None, b)
         | e # q \<Rightarrow> (Some e, b\<lparr> b_chans := (b_chans b)[ch := (b_chans b ! ch)\<lparr> ch_queue := q \<rparr>] \<rparr>))
      else (None, b))"

text \<open>The eviction loop of \<open>write\<close>.\<close>

fun evict :: "int \<Rightarrow> int \<Rightarrow> entry list \<Rightarrow> int \<times> entry list" where
  "evict m n [] = (n, [])"
| "evict m n (e # es) =
     (if n > m then evict m (n - int (length (e_data e))) es else (n, e # es))"

text \<open>A send that never blocks: the \<open>select\<close> with a \<open>default\<close>.\<close>

definition offer :: "entry \<Rightarrow> channel \<Rightarrow> channel" where
  "offer e ch = (if length (ch_queue ch) < chan_cap then ch\<lparr> ch_queue := ch_queue ch @ [e] \<rparr> else ch)"

definition broadcast :: "entry \<Rightarrow> nat list \<Rightarrow> channel list \<Rightarrow> channel list" where
  "broadcast e subs chans = fold (\<lambda>i cs. cs[i := offer e (cs ! i)]) subs chans"

definition buf_write :: "stream \<Rightarrow> string \<Rightarrow> gotime \<Rightarrow> buffer \<Rightarrow> buffer" where
  "buf_write s p now b =
     (if b_max b \<le> 0 \<or> p = [] then b
      else
        let e = \<lparr> e_stream = s, e_data = p, e_when = now \<rparr>;
            (n, es) = evict (b_max b) (b_bytes b + int (length p)) (b_entries b @ [e])
        in b\<lparr> b_entries := es, b_bytes := n,
             b_chans := broadcast e (b_subs b) (b_chans b) \<rparr>)"

definition append_stdout :: "string \<Rightarrow> gotime \<Rightarrow> buffer \<Rightarrow> buffer" where
  "append_stdout p now b = buf_write Stdout p now b"

definition append_stderr :: "string \<Rightarrow> gotime \<Rightarrow> buffer \<Rightarrow> buffer" where
  "append_stderr p now b = buf_write Stderr p now b"

text \<open>\<open>streamWriter.Write\<close>: reports the whole chunk as written.\<close>

definition stream_writer_write :: "stream \<Rightarrow> string \<Rightarrow> gotime \<Rightarrow> buffer \<Rightarrow> int \<times> buffer" where
  "stream_writer_write s p now b = (int (length p), buf_write s p now b)"

section \<open>The abstract log: the longest recent part that fits\<close>

definition bytes_of :: "entry list \<Rightarrow> int" where
  "bytes_of es = sum_list (map (\<lambda>e. int (length (e_data e))) es)"

fun keep :: "int \<Rightarrow> entry list \<Rightarrow> entry list" where
  "keep m [] = []"
| "keep m (e # es) = (if bytes_of (e # es) \<le> m then e # es else keep m es)"

lemma bytes_of_simps [simp]:
  "bytes_of [] = 0" "bytes_of (e # es) = int (length (e_data e)) + bytes_of es"
  "bytes_of (xs @ ys) = bytes_of xs + bytes_of ys"
  by (simp_all add: bytes_of_def)

lemma bytes_of_nonneg [simp]: "0 \<le> bytes_of es"
  by (induction es) auto

lemma keep_fits [simp]: "bytes_of es \<le> m \<Longrightarrow> keep m es = es"
  by (cases es) auto

lemma bytes_of_keep: "0 \<le> m \<Longrightarrow> bytes_of (keep m es) \<le> m"
  by (induction es) auto

lemma keep_suffix: "suffix (keep m es) es"
  by (induction es) (auto intro: suffix_ConsI)

lemma keep_longest:
  "suffix ys es \<Longrightarrow> bytes_of ys \<le> m \<Longrightarrow> length ys \<le> length (keep m es)"
proof (induction es)
  case (Cons e es)
  then show ?case by (cases "ys = e # es") (auto simp: suffix_Cons)
qed simp

text \<open>Evicting now and later is evicting once at the end.\<close>

lemma keep_keep_append: "keep m (keep m xs @ ys) = keep m (xs @ ys)"
proof (induction xs)
  case (Cons x xs)
  show ?case
  proof (cases "bytes_of (x # xs) \<le> m")
    case False
    then have "\<not> bytes_of (x # xs) + bytes_of ys \<le> m"
      using bytes_of_nonneg [of ys] by linarith
    then have "\<not> bytes_of (x # xs @ ys) \<le> m" by simp
    with False Cons show ?thesis by simp
  qed simp
qed simp

lemma evict_keep: "evict m (bytes_of es) es = (bytes_of (keep m es), keep m es)"
  by (induction es) auto

text \<open>The interface the manager uses: a log that takes entries and shows the recent ones. Its
  laws give the contents after any run of writes.\<close>

locale recent_log =
  fixes log_write :: "entry \<Rightarrow> 'b \<Rightarrow> 'b"
    and contents :: "'b \<Rightarrow> entry list"
    and cap :: "'b \<Rightarrow> int"
    and invar :: "'b \<Rightarrow> bool"
  assumes contents_write:
      "invar b \<Longrightarrow> e_data e \<noteq> [] \<Longrightarrow> contents (log_write e b) = keep (cap b) (contents b @ [e])"
    and write_empty: "invar b \<Longrightarrow> e_data e = [] \<Longrightarrow> log_write e b = b"
    and cap_write [simp]: "cap (log_write e b) = cap b"
    and invar_write [simp]: "invar b \<Longrightarrow> invar (log_write e b)"
    and contents_fit: "invar b \<Longrightarrow> bytes_of (contents b) \<le> cap b"
begin

lemma keep_contents [simp]: "invar b \<Longrightarrow> keep (cap b) (contents b) = contents b"
  by (simp add: contents_fit)

lemma contents_run:
  "invar b \<Longrightarrow> contents (fold log_write es b)
     = keep (cap b) (contents b @ filter (\<lambda>e. e_data e \<noteq> []) es)"
proof (induction es arbitrary: b)
  case (Cons e es)
  show ?case
  proof (cases "e_data e = []")
    case True
    with Cons show ?thesis by (simp add: write_empty)
  next
    case False
    with Cons have "contents (fold log_write (e # es) b)
        = keep (cap b) (keep (cap b) (contents b @ [e]) @ filter (\<lambda>e. e_data e \<noteq> []) es)"
      by (simp add: contents_write)
    with False show ?thesis by (simp add: keep_keep_append)
  qed
qed simp

lemma contents_run_suffix:
  "invar b \<Longrightarrow> suffix (contents (fold log_write es b)) (contents b @ filter (\<lambda>e. e_data e \<noteq> []) es)"
  by (simp add: contents_run keep_suffix)

end

section \<open>The buffer implements the log\<close>

definition chans_ok :: "buffer \<Rightarrow> bool" where
  "chans_ok b \<longleftrightarrow> distinct (b_subs b)
     \<and> (\<forall>i \<in> set (b_subs b). i < length (b_chans b) \<and> \<not> ch_closed (b_chans b ! i))
     \<and> (\<forall>ch \<in> set (b_chans b). length (ch_queue ch) \<le> chan_cap)"

definition buffer_ok :: "buffer \<Rightarrow> bool" where
  "buffer_ok b \<longleftrightarrow> b_bytes b = bytes_of (b_entries b) \<and> bytes_of (b_entries b) \<le> max 0 (b_max b)
     \<and> (\<forall>e \<in> set (b_entries b). e_data e \<noteq> []) \<and> chans_ok b"

definition write_entry :: "entry \<Rightarrow> buffer \<Rightarrow> buffer" where
  "write_entry e b = buf_write (e_stream e) (e_data e) (e_when e) b"

lemma broadcast_length [simp]: "length (broadcast e subs chans) = length chans"
  unfolding broadcast_def by (induction subs arbitrary: chans) auto

lemma broadcast_nth:
  "distinct subs \<Longrightarrow> i < length chans \<Longrightarrow>
   broadcast e subs chans ! i = (if i \<in> set subs then offer e (chans ! i) else chans ! i)"
  unfolding broadcast_def
proof (induction subs arbitrary: chans)
  case (Cons a subs)
  then show ?case by (cases "i = a") auto
qed simp

lemma offer_simps [simp]:
  "ch_closed (offer e ch) = ch_closed ch"
  "length (ch_queue ch) \<le> chan_cap \<Longrightarrow> length (ch_queue (offer e ch)) \<le> chan_cap"
  by (auto simp: offer_def)

lemma chans_ok_broadcast:
  assumes "chans_ok b"
  shows "chans_ok (b\<lparr> b_chans := broadcast e (b_subs b) (b_chans b) \<rparr>)"
proof -
  have "length (ch_queue (broadcast e (b_subs b) (b_chans b) ! i)) \<le> chan_cap"
    if "i < length (b_chans b)" for i
  proof -
    have "length (ch_queue (b_chans b ! i)) \<le> chan_cap"
      using assms that by (simp add: chans_ok_def)
    then show ?thesis
      using assms that by (simp add: chans_ok_def broadcast_nth)
  qed
  then show ?thesis
    using assms by (auto simp: chans_ok_def broadcast_nth all_set_conv_all_nth)
qed

lemma write_live:
  assumes "b_bytes b = bytes_of (b_entries b)" and "0 < b_max b" and "p \<noteq> []"
  shows "buf_write s p now b =
    (let e = \<lparr> e_stream = s, e_data = p, e_when = now \<rparr>; es = keep (b_max b) (b_entries b @ [e])
     in b\<lparr> b_entries := es, b_bytes := bytes_of es, b_chans := broadcast e (b_subs b) (b_chans b) \<rparr>)"
proof -
  let ?e = "\<lparr> e_stream = s, e_data = p, e_when = now \<rparr>"
  have "evict (b_max b) (b_bytes b + int (length p)) (b_entries b @ [?e])
      = (bytes_of (keep (b_max b) (b_entries b @ [?e])), keep (b_max b) (b_entries b @ [?e]))"
    using assms(1) evict_keep [of "b_max b" "b_entries b @ [?e]"] by simp
  with assms(2,3) show ?thesis by (simp add: buf_write_def Let_def)
qed

lemma set_keep: "set (keep m es) \<subseteq> set es"
  by (rule set_mono_suffix [OF keep_suffix])

lemma write_ok:
  assumes "buffer_ok b" shows "buffer_ok (buf_write s p now b)"
proof (cases "0 < b_max b \<and> p \<noteq> []")
  case True
  let ?e = "\<lparr> e_stream = s, e_data = p, e_when = now \<rparr>"
  have "chans_ok (b\<lparr> b_chans := broadcast ?e (b_subs b) (b_chans b) \<rparr>)"
    using assms by (auto simp: buffer_ok_def intro: chans_ok_broadcast)
  moreover have "bytes_of (keep (b_max b) (b_entries b @ [?e])) \<le> b_max b"
    using True by (simp add: bytes_of_keep)
  moreover have "\<forall>e \<in> set (keep (b_max b) (b_entries b @ [?e])). e_data e \<noteq> []"
    using assms True set_keep [of "b_max b" "b_entries b @ [?e]"] by (auto simp: buffer_ok_def)
  ultimately show ?thesis
    using assms True by (simp add: buffer_ok_def write_live Let_def chans_ok_def max_def)
next
  case False
  with assms show ?thesis by (auto simp: buf_write_def)
qed

lemma write_max [simp]: "b_max (buf_write s p now b) = b_max b"
  by (simp add: buf_write_def Let_def split: prod.split)

lemma write_subs [simp]: "b_subs (buf_write s p now b) = b_subs b"
  by (simp add: buf_write_def Let_def split: prod.split)

lemma new_buffer_ok: "buffer_ok (new_buffer m)"
  by (simp add: buffer_ok_def new_buffer_def chans_ok_def)

interpretation logbuf: recent_log write_entry snapshot b_max "\<lambda>b. buffer_ok b \<and> 0 < b_max b"
proof unfold_locales
  fix b :: buffer and e :: entry
  assume "buffer_ok b \<and> 0 < b_max b" and "e_data e \<noteq> []"
  then show "snapshot (write_entry e b) = keep (b_max b) (snapshot b @ [e])"
    by (cases e) (simp add: write_entry_def snapshot_def write_live buffer_ok_def Let_def)
next
  fix b :: buffer and e :: entry
  assume "e_data e = []"
  then show "write_entry e b = b" by (simp add: write_entry_def buf_write_def)
next
  fix b :: buffer and e :: entry
  assume "buffer_ok b \<and> 0 < b_max b"
  then show "bytes_of (snapshot b) \<le> b_max b" by (auto simp: buffer_ok_def snapshot_def)
qed (simp_all add: write_entry_def write_ok)

section \<open>Histories\<close>

text \<open>A concurrent history: every method body runs under the mutex, so it is a sequence of
  whole operations of the writers and of any number of consumers.\<close>

datatype log_op =
    Write stream string gotime
  | Subscribe
  | Cancel nat
  | Receive nat

fun log_step :: "log_op \<Rightarrow> buffer \<Rightarrow> buffer" where
  "log_step (Write s p now) b = buf_write s p now b"
| "log_step Subscribe b = snd (subscribe b)"
| "log_step (Cancel ch) b = cancel ch b"
| "log_step (Receive ch) b = snd (receive ch b)"

definition log_run :: "log_op list \<Rightarrow> buffer \<Rightarrow> buffer" where
  "log_run ops b = fold log_step ops b"

text \<open>The entries the history writes (empty chunks write none), and those channel \<open>ch\<close>
  delivers to its consumer.\<close>

fun written :: "log_op list \<Rightarrow> entry list" where
  "written [] = []"
| "written (Write s p now # ops) =
     (if p = [] then [] else [\<lparr> e_stream = s, e_data = p, e_when = now \<rparr>]) @ written ops"
| "written (_ # ops) = written ops"

fun delivered :: "nat \<Rightarrow> log_op list \<Rightarrow> buffer \<Rightarrow> entry list" where
  "delivered ch [] b = []"
| "delivered ch (oper # ops) b =
     (if oper = Receive ch
      then (case fst (receive ch b) of None \<Rightarrow> [] | Some e \<Rightarrow> [e])
      else []) @ delivered ch ops (log_step oper b)"

lemma log_run_simps [simp]:
  "log_run [] b = b" "log_run (oper # ops) b = log_run ops (log_step oper b)"
  by (simp_all add: log_run_def)

lemma log_step_frame [simp]:
  "b_entries (snd (subscribe b)) = b_entries b" "b_entries (cancel ch b) = b_entries b"
  "b_entries (snd (receive ch b)) = b_entries b"
  "b_max (log_step oper b) = b_max b"
  by (cases oper; simp add: subscribe_def cancel_def receive_def split: list.split)+

lemma subscribe_ok: "buffer_ok b \<Longrightarrow> buffer_ok (snd (subscribe b))"
  by (auto simp: buffer_ok_def chans_ok_def subscribe_def nth_append)

lemma cancel_ok: "buffer_ok b \<Longrightarrow> buffer_ok (cancel ch b)"
  by (auto simp: buffer_ok_def chans_ok_def cancel_def distinct_removeAll
      dest!: set_update_subset_insert [THEN subsetD])

lemma receive_ok:
  assumes "buffer_ok b" shows "buffer_ok (snd (receive ch b))"
proof (cases "ch < length (b_chans b) \<and> ch_queue (b_chans b ! ch) \<noteq> []")
  case True
  then have "length (ch_queue (b_chans b ! ch)) \<le> chan_cap"
    using assms by (simp add: buffer_ok_def chans_ok_def)
  with True assms show ?thesis
    by (cases "ch_queue (b_chans b ! ch)")
      (auto simp: buffer_ok_def chans_ok_def receive_def nth_list_update
        dest!: set_update_subset_insert [THEN subsetD])
qed (use assms in \<open>auto simp: receive_def split: list.split\<close>)

lemma log_step_ok: "buffer_ok b \<Longrightarrow> buffer_ok (log_step oper b)"
  by (cases oper) (simp_all add: write_ok subscribe_ok cancel_ok receive_ok)

lemma log_run_ok: "buffer_ok b \<Longrightarrow> buffer_ok (log_run ops b)"
  by (induction ops arbitrary: b) (simp_all add: log_step_ok)

lemma log_run_keep:
  "buffer_ok b \<Longrightarrow> 0 < b_max b \<Longrightarrow>
   b_entries (log_run ops b) = keep (b_max b) (b_entries b @ written ops)"
proof (induction ops arbitrary: b)
  case Nil
  then show ?case using logbuf.keep_contents [of b] by (simp add: snapshot_def)
next
  case (Cons oper ops)
  from Cons.IH [of "log_step oper b"] Cons.prems
  have IH: "b_entries (log_run ops (log_step oper b))
      = keep (b_max b) (b_entries (log_step oper b) @ written ops)"
    by (simp add: log_step_ok)
  show ?case
  proof (cases oper)
    case (Write s p now)
    let ?e = "\<lparr> e_stream = s, e_data = p, e_when = now \<rparr>"
    show ?thesis
    proof (cases "p = []")
      case True
      with IH Write show ?thesis by (simp add: buf_write_def)
    next
      case False
      then have "b_entries (log_step oper b) = keep (b_max b) (b_entries b @ [?e])"
        using logbuf.contents_write [of b ?e] Cons.prems Write
        by (simp add: snapshot_def write_entry_def)
      then have "b_entries (log_run ops (log_step oper b))
          = keep (b_max b) ((b_entries b @ [?e]) @ written ops)"
        using IH by (simp only: keep_keep_append)
      with Write False show ?thesis by simp
    qed
  qed (use IH in simp_all)
qed

text \<open>C19. The buffer refines the abstract log. After any history of writes, subscriptions,
  cancellations and receives on a new buffer with a positive cap, the snapshot is the longest
  suffix of everything written whose bytes fit the cap: oldest entries go first, whole, and never
  more of them than needed.\<close>

theorem logbuf_snapshot_is_recent_history:
  assumes "0 < m"
  shows "let shown = snapshot (log_run ops (new_buffer m)) in
     shown = keep m (written ops) \<and> suffix shown (written ops) \<and> bytes_of shown \<le> m
     \<and> (\<forall>ys. suffix ys (written ops) \<and> bytes_of ys \<le> m \<longrightarrow> length ys \<le> length shown)"
proof -
  let ?shown = "snapshot (log_run ops (new_buffer m))"
  have "b_max (new_buffer m) = m" "b_entries (new_buffer m) = []"
    by (simp_all add: new_buffer_def)
  then have "?shown = keep m (written ops)"
    using log_run_keep [of "new_buffer m" ops] assms by (simp add: snapshot_def new_buffer_ok)
  then show ?thesis
    using assms by (simp add: keep_suffix bytes_of_keep keep_longest)
qed

theorem logbuf_snapshot_is_recent_history_witness:
  "snapshot (log_run [Write Stdout ''aaaa'' 1, Write Stdout ''bbbb'' 2, Write Stdout ''cccc'' 3]
     (new_buffer 10))
   = [\<lparr> e_stream = Stdout, e_data = ''bbbb'', e_when = 2 \<rparr>,
      \<lparr> e_stream = Stdout, e_data = ''cccc'', e_when = 3 \<rparr>]"
proof -
  have "(0::int) < 10" by simp
  from logbuf_snapshot_is_recent_history [OF this,
      of "[Write Stdout ''aaaa'' 1, Write Stdout ''bbbb'' 2, Write Stdout ''cccc'' 3]"]
  show ?thesis by (simp add: Let_def)
qed

subsection \<open>What a subscriber receives\<close>

definition pending :: "nat \<Rightarrow> buffer \<Rightarrow> entry list" where
  "pending ch b = ch_queue (b_chans b ! ch)"

definition opened :: "nat \<Rightarrow> buffer \<Rightarrow> bool" where
  "opened ch b \<longleftrightarrow> ch < length (b_chans b)"

lemma buf_write_chans:
  "b_chans (buf_write s p now b) =
     (if 0 < b_max b \<and> p \<noteq> []
      then broadcast \<lparr> e_stream = s, e_data = p, e_when = now \<rparr> (b_subs b) (b_chans b)
      else b_chans b)"
  by (auto simp: buf_write_def Let_def split: prod.split)

lemma opened_step [simp]: "opened ch b \<Longrightarrow> opened ch (log_step oper b)"
  by (cases oper)
    (auto simp: opened_def buf_write_chans subscribe_def cancel_def receive_def split: list.split)

lemma pending_write:
  assumes "buffer_ok b" and "opened ch b"
  shows "pending ch (buf_write s p now b) =
    (if 0 < b_max b \<and> p \<noteq> [] \<and> ch \<in> set (b_subs b) \<and> length (pending ch b) < chan_cap
     then pending ch b @ [\<lparr> e_stream = s, e_data = p, e_when = now \<rparr>] else pending ch b)"
  using assms
  by (auto simp: pending_def buf_write_chans buffer_ok_def chans_ok_def broadcast_nth offer_def
      opened_def)

lemma pending_other:
  assumes "opened ch b"
  shows "pending ch (snd (subscribe b)) = pending ch b" "pending ch (cancel i b) = pending ch b"
    "pending ch (snd (receive i b)) = (if i = ch then tl (pending ch b) else pending ch b)"
    "fst (receive ch b) = (case pending ch b of [] \<Rightarrow> None | e # _ \<Rightarrow> Some e)"
  using assms
  by (cases "i = ch"; auto simp: pending_def opened_def subscribe_def cancel_def receive_def
      nth_append split: list.split)+

lemma subs_step:
  "b_subs (log_step oper b) =
     (case oper of Subscribe \<Rightarrow> b_subs b @ [length (b_chans b)] | Cancel i \<Rightarrow> removeAll i (b_subs b)
      | _ \<Rightarrow> b_subs b)"
  by (cases oper) (auto simp: subscribe_def cancel_def receive_def split: list.split)

lemma subseq_skip: "subseq (xs @ ys) (xs @ y # ys)"
  by (rule list_emb_append_mono) auto

lemma delivered_subseq:
  "buffer_ok b \<Longrightarrow> opened ch b \<Longrightarrow>
   subseq (delivered ch ops b @ pending ch (log_run ops b)) (pending ch b @ written ops)"
proof (induction ops arbitrary: b)
  case (Cons oper ops)
  then have IH: "subseq (delivered ch ops (log_step oper b) @ pending ch (log_run ops (log_step oper b)))
      (pending ch (log_step oper b) @ written ops)"
    by (simp add: log_step_ok)
  show ?case
  proof (cases oper)
    case (Write s p now)
    let ?e = "\<lparr> e_stream = s, e_data = p, e_when = now \<rparr>"
    have "subseq (pending ch (log_step oper b) @ written ops) (pending ch b @ written (oper # ops))"
      using pending_write [OF Cons.prems, of s p now] Write by (auto intro: subseq_skip)
    with IH Write show ?thesis by (auto intro: subseq_order.trans)
  next
    case (Receive i)
    with IH Cons.prems show ?thesis
      by (cases "pending ch b") (auto simp: pending_other)
  qed (use IH Cons.prems in \<open>simp_all add: pending_other\<close>)
qed simp

lemma delivered_complete:
  "buffer_ok b \<Longrightarrow> opened ch b \<Longrightarrow> 0 < b_max b \<Longrightarrow> ch \<in> set (b_subs b) \<Longrightarrow>
   Cancel ch \<notin> set ops \<Longrightarrow> length (pending ch b) + length (written ops) \<le> chan_cap \<Longrightarrow>
   delivered ch ops b @ pending ch (log_run ops b) = pending ch b @ written ops"
proof (induction ops arbitrary: b)
  case (Cons oper ops)
  have len: "length (pending ch (log_step oper b)) + length (written ops) \<le> chan_cap"
    using Cons.prems by (cases oper) (auto simp: pending_write pending_other)
  have "ch \<in> set (b_subs (log_step oper b))"
    using Cons.prems by (auto simp: subs_step split: log_op.split)
  with Cons len have IH:
    "delivered ch ops (log_step oper b) @ pending ch (log_run ops (log_step oper b))
      = pending ch (log_step oper b) @ written ops"
    by (simp add: log_step_ok)
  show ?case
  proof (cases oper)
    case (Write s p now)
    with IH Cons.prems show ?thesis by (auto simp: pending_write)
  next
    case (Receive i)
    with IH Cons.prems show ?thesis
      by (cases "pending ch b") (auto simp: pending_other)
  qed (use IH Cons.prems in \<open>simp_all add: pending_other\<close>)
qed simp

text \<open>C33. A subscriber is never shown entries out of order, twice or from before its
  subscription: what its channel delivers, followed by what is still queued, is an in-order
  selection of the writes since the subscription, with at most 64 entries queued. Unless it
  cancels, it misses nothing while no more than 64 entries are written.\<close>

theorem logbuf_subscriber_in_order:
  assumes "buffer_ok b" and "0 < b_max b" and "subscribe b = (ch, b0)"
  shows "let got = delivered ch ops b0 @ pending ch (log_run ops b0) in
     subseq got (written ops) \<and> length (pending ch (log_run ops b0)) \<le> 64
     \<and> (Cancel ch \<notin> set ops \<and> length (written ops) \<le> 64 \<longrightarrow> got = written ops)"
proof -
  have b0: "buffer_ok b0" "opened ch b0" "pending ch b0 = []" "ch \<in> set (b_subs b0)"
    "0 < b_max b0"
    using subscribe_ok [OF assms(1)] assms(2,3)
    by (auto simp: subscribe_def opened_def pending_def)
  have "opened ch (log_run ops b0)"
    using b0(2) by (induction ops arbitrary: b0) simp_all
  then have "length (pending ch (log_run ops b0)) \<le> chan_cap"
    using log_run_ok [OF b0(1), of ops]
    by (auto simp: buffer_ok_def chans_ok_def opened_def pending_def)
  then show ?thesis
    using delivered_subseq [OF b0(1,2), of ops] delivered_complete [OF b0(1,2,5,4), of ops] b0(3)
    by (simp add: chan_cap_def)
qed

theorem logbuf_subscriber_in_order_witness:
  "\<exists>ch b0. subscribe (new_buffer 8) = (ch, b0)
     \<and> delivered ch [Write Stderr ''oversized'' 1, Receive 0] b0
        = [\<lparr> e_stream = Stderr, e_data = ''oversized'', e_when = 1 \<rparr>]"
proof -
  let ?ops = "[Write Stderr ''oversized'' 1, Receive 0]"
  obtain ch b0 where s: "subscribe (new_buffer 8) = (ch, b0)" by fastforce
  have "buffer_ok (new_buffer 8)" by (rule new_buffer_ok)
  moreover have "0 < b_max (new_buffer 8)" by (simp add: new_buffer_def)
  ultimately have "delivered ch ?ops b0 @ pending ch (log_run ?ops b0) = written ?ops \<and> ch = 0"
    using logbuf_subscriber_in_order [OF _ _ s, of ?ops] s
    by (simp add: subscribe_def new_buffer_def Let_def)
  moreover have "pending ch (log_run ?ops b0) = []"
    using s by (auto simp: subscribe_def new_buffer_def pending_def receive_def buf_write_def
        broadcast_def offer_def chan_cap_def Let_def)
  ultimately show ?thesis using s by auto
qed

text \<open>A single chunk larger than the cap empties the buffer: it evicts everything before it
  and then itself, so the snapshot is empty right after the write, whatever was logged before.\<close>

theorem logbuf_oversized_chunk_clears:
  assumes "0 < m" and "m < int (length p)"
  shows "snapshot (log_run (ops @ [Write s p now]) (new_buffer m)) = []"
proof -
  let ?e = "\<lparr> e_stream = s, e_data = p, e_when = now \<rparr>"
  have "written (ops @ [Write s p now]) = written ops @ [?e]"
    using assms by (induction ops rule: written.induct) auto
  moreover have "keep m (es @ [?e]) = []" for es
  proof (induction es)
    case (Cons x es)
    have "\<not> bytes_of ((x # es) @ [?e]) \<le> m"
      using assms bytes_of_nonneg [of es] of_nat_0_le_iff [of "length (e_data x)"]
      unfolding bytes_of_simps entry.simps append_Cons by linarith
    with Cons show ?case by simp
  qed (use assms in simp)
  moreover have "b_max (new_buffer m) = m" "b_entries (new_buffer m) = []"
    by (simp_all add: new_buffer_def)
  ultimately show ?thesis
    using log_run_keep [of "new_buffer m" "ops @ [Write s p now]"] assms(1)
    by (simp add: snapshot_def new_buffer_ok)
qed

theorem logbuf_oversized_chunk_clears_witness:
  "snapshot (log_run [Write Stdout ''ok'' 1, Write Stdout ''too long'' 2] (new_buffer 4)) = []"
  using logbuf_oversized_chunk_clears [of 4 "''too long''" "[Write Stdout ''ok'' 1]" Stdout 2]
  by simp

end
