(* ===== verification/Runtime.thy ===== *)
theory Runtime
  imports Prelude Logbuf
begin

text \<open>
  The package \<open>internal/runtime\<close>: the data passed to a container backend, the backend interface
  itself as a record of functions over the backend's state (the optional capabilities the manager
  probes for by type assertion are options), and the contract of container creation and removal
  that the pool and the manager rely on. The in-memory backend of the manager's tests
  (\<open>fakeRuntime\<close>) is modelled here and shown to meet the contract.
\<close>

record rt_egress =
  re_mode :: string
  re_hosts :: "string list"

record spec =
  sp_name :: string
  sp_image :: string
  sp_cmd :: "string list"
  sp_env :: smap
  sp_cpus :: f64
  sp_memory_mb :: int64
  sp_pids_limit :: int64
  sp_user :: string
  sp_read_only :: bool
  sp_network_mode :: string
  sp_runtime_name :: string
  sp_egress :: rt_egress
  sp_labels :: smap
  sp_ttl :: duration

record handle =
  h_id :: string
  h_name :: string

text \<open>A writer of an \<open>ExecSpec\<close> is only ever nil or not nil to the backend; what it is given
  comes back as the chunks of the exec, in order, each with its stream and time.\<close>

record exec_spec =
  xs_cmd :: "string list"
  xs_env :: smap
  xs_work_dir :: string
  xs_stdin :: "string option"
  xs_stdout :: bool
  xs_stderr :: bool

record exec_result =
  xr_exit_code :: int
  xr_stdout :: string
  xr_stderr :: string
  xr_duration :: duration

datatype rt_error = ErrNoProxy | RtError string

record 'r runtime_ops =
  rt_create :: "spec \<Rightarrow> 'r \<Rightarrow> (rt_error + handle) \<times> 'r"
  rt_exec :: "string \<Rightarrow> exec_spec \<Rightarrow> 'r \<Rightarrow> entry list \<times> (rt_error + exec_result) \<times> 'r"
  rt_stop :: "string \<Rightarrow> 'r \<Rightarrow> rt_error option \<times> 'r"
  rt_remove :: "string \<Rightarrow> 'r \<Rightarrow> rt_error option \<times> 'r"
  rt_ping :: "('r \<Rightarrow> rt_error option) option"
  rt_clean_orphans :: "('r \<Rightarrow> rt_error option \<times> 'r) option"
  rt_ensure_image :: "(string \<Rightarrow> 'r \<Rightarrow> (rt_error + bool) \<times> 'r) option"
  rt_proxy_addr :: "(string \<Rightarrow> 'r \<Rightarrow> rt_error + string) option"

section \<open>The contract of containers\<close>

text \<open>A spec that carries a sandbox label carries the identifier of the sandbox as its name as well;
  the specs of the manager and of the pools do. A backend that groups containers by this label
  (an egress proxy with its sandbox) tells the sandboxes apart by it.\<close>

definition named_spec :: "spec \<Rightarrow> bool" where
  "named_spec sp \<longleftrightarrow>
     (case map_of (sp_labels sp) ''kotakpasir.sandbox-id'' of None \<Rightarrow> True | Some s \<Rightarrow> sp_name sp = s)"

text \<open>\<open>live\<close> are the containers of sandboxes and pools that exist, \<open>issued\<close> all identifiers they ever
  had: an identifier is never handed out twice, a failed creation leaves no container behind, and a
  removal that reports success has removed its container and touched no other.\<close>

locale container_runtime =
  fixes create :: "spec \<Rightarrow> 'r \<Rightarrow> (rt_error + handle) \<times> 'r"
    and remove :: "string \<Rightarrow> 'r \<Rightarrow> rt_error option \<times> 'r"
    and live :: "'r \<Rightarrow> string set"
    and issued :: "'r \<Rightarrow> string set"
    and invar :: "'r \<Rightarrow> bool"
  assumes create_ok: "invar r \<Longrightarrow> named_spec sp \<Longrightarrow> create sp r = (Inr h, r') \<Longrightarrow>
      invar r' \<and> h_id h \<notin> issued r \<and> insert (h_id h) (issued r) \<subseteq> issued r'
      \<and> live r' = insert (h_id h) (live r)"
    and create_err: "invar r \<Longrightarrow> named_spec sp \<Longrightarrow> create sp r = (Inl e, r') \<Longrightarrow>
      invar r' \<and> live r' = live r \<and> issued r \<subseteq> issued r'"
    and remove: "invar r \<Longrightarrow> i \<in> issued r \<Longrightarrow> remove i r = (res, r') \<Longrightarrow>
      invar r' \<and> issued r' = issued r \<and> live r' \<subseteq> live r \<and> live r - {i} \<subseteq> live r'
      \<and> (res = None \<longrightarrow> i \<notin> live r')"
    and live_issued: "invar r \<Longrightarrow> live r \<subseteq> issued r"
begin

lemma remove_ok_live:
  "invar r \<Longrightarrow> i \<in> issued r \<Longrightarrow> remove i r = (None, r') \<Longrightarrow> live r' = live r - {i}"
  using remove [of r i None r'] by blast

text \<open>Removing a list of containers one after the other, whatever each removal reports.\<close>

lemma remove_fold:
  "invar r \<Longrightarrow> set ids \<subseteq> issued r \<Longrightarrow>
   invar (fold (\<lambda>i r. snd (remove i r)) ids r)
   \<and> issued (fold (\<lambda>i r. snd (remove i r)) ids r) = issued r
   \<and> live (fold (\<lambda>i r. snd (remove i r)) ids r) \<subseteq> live r
   \<and> live r - set ids \<subseteq> live (fold (\<lambda>i r. snd (remove i r)) ids r)"
proof (induction ids arbitrary: r)
  case (Cons i ids)
  obtain res r' where r': "remove i r = (res, r')" by fastforce
  with Cons.prems remove [OF _ _ r'] have
    "invar r'" "issued r' = issued r" "live r' \<subseteq> live r" "live r - {i} \<subseteq> live r'" by auto
  with Cons.IH [of r'] Cons.prems r' show ?case by auto
qed simp

lemma remove_fold_ok:
  "invar r \<Longrightarrow> set ids \<subseteq> issued r \<Longrightarrow> (\<And>i r. fst (remove i r) = None) \<Longrightarrow>
   invar (fold (\<lambda>i r. snd (remove i r)) ids r)
   \<and> issued (fold (\<lambda>i r. snd (remove i r)) ids r) = issued r
   \<and> live (fold (\<lambda>i r. snd (remove i r)) ids r) = live r - set ids"
proof (induction ids arbitrary: r)
  case (Cons i ids)
  obtain r' where r': "remove i r = (None, r')" using Cons.prems(3) by (metis prod.collapse)
  with Cons.prems remove [OF _ _ r'] remove_ok_live [OF _ _ r'] have
    "invar r'" "issued r' = issued r" "live r' = live r - {i}" by auto
  with Cons.IH [of r'] Cons.prems r' show ?case by auto
qed simp

end

text \<open>The same contract for a whole backend: what else the manager calls on it neither creates
  containers nor breaks its state.\<close>

locale managed_runtime = container_runtime "rt_create rt" "rt_remove rt" live issued invar
  for rt :: "'r runtime_ops" and live issued invar +
  assumes exec_keeps: "invar r \<Longrightarrow> rt_exec rt i x r = (chunks, xres, r') \<Longrightarrow>
      invar r' \<and> issued r' = issued r"
    and stop_keeps: "invar r \<Longrightarrow> rt_stop rt i r = (sres, r') \<Longrightarrow> invar r' \<and> issued r' = issued r"
    and clean_keeps: "invar r \<Longrightarrow> rt_clean_orphans rt = Some clean \<Longrightarrow> clean r = (sres, r') \<Longrightarrow>
      invar r' \<and> issued r' = issued r"
    and ensure_keeps: "invar r \<Longrightarrow> rt_ensure_image rt = Some ensure \<Longrightarrow> ensure ref r = (eres, r') \<Longrightarrow>
      invar r' \<and> issued r' = issued r"

section \<open>The in-memory backend of the tests\<close>

text \<open>\<open>fakeRuntime\<close> records the specs it creates and the identifiers it removes and never fails.
  Its random identifiers (\<open>"rt-" + uuid.NewString()\<close>) are replaced by numbered ones.\<close>

record fake_runtime =
  fk_created :: "spec list"
  fk_removed :: "string list"

definition fake_id :: "nat \<Rightarrow> string" where
  "fake_id n = ''rt-'' @ replicate n CHR ''i''"

definition fake_create :: "spec \<Rightarrow> fake_runtime \<Rightarrow> (rt_error + handle) \<times> fake_runtime" where
  "fake_create sp r =
     (Inr \<lparr> h_id = fake_id (length (fk_created r)), h_name = sp_name sp \<rparr>,
      r\<lparr> fk_created := fk_created r @ [sp] \<rparr>)"

definition fake_exec ::
    "string \<Rightarrow> exec_spec \<Rightarrow> fake_runtime \<Rightarrow> entry list \<times> (rt_error + exec_result) \<times> fake_runtime" where
  "fake_exec i x r =
     ([], Inr \<lparr> xr_exit_code = 0, xr_stdout = [], xr_stderr = [], xr_duration = 0 \<rparr>, r)"

definition fake_stop :: "string \<Rightarrow> fake_runtime \<Rightarrow> rt_error option \<times> fake_runtime" where
  "fake_stop i r = (None, r)"

definition fake_remove :: "string \<Rightarrow> fake_runtime \<Rightarrow> rt_error option \<times> fake_runtime" where
  "fake_remove i r = (None, r\<lparr> fk_removed := fk_removed r @ [i] \<rparr>)"

definition fake_ops :: "fake_runtime runtime_ops" where
  "fake_ops = \<lparr> rt_create = fake_create, rt_exec = fake_exec, rt_stop = fake_stop,
     rt_remove = fake_remove, rt_ping = None, rt_clean_orphans = None, rt_ensure_image = None,
     rt_proxy_addr = None \<rparr>"

definition fake_empty :: fake_runtime where
  "fake_empty = \<lparr> fk_created = [], fk_removed = [] \<rparr>"

definition fake_issued :: "fake_runtime \<Rightarrow> string set" where
  "fake_issued r = fake_id ` {..<length (fk_created r)}"

definition fake_live :: "fake_runtime \<Rightarrow> string set" where
  "fake_live r = fake_issued r - set (fk_removed r)"

lemma fake_id_inj [simp]: "fake_id m = fake_id n \<longleftrightarrow> m = n"
  by (auto simp: fake_id_def dest: arg_cong [where f = length])

definition fake_invar :: "fake_runtime \<Rightarrow> bool" where
  "fake_invar r \<longleftrightarrow> set (fk_removed r) \<subseteq> fake_issued r"

lemma fake_issued_create:
  "fake_issued (r\<lparr> fk_created := fk_created r @ [sp] \<rparr>)
     = insert (fake_id (length (fk_created r))) (fake_issued r)"
  by (auto simp: fake_issued_def lessThan_Suc)

lemma fake_fresh [simp]: "fake_id (length (fk_created r)) \<notin> fake_issued r"
  by (auto simp: fake_issued_def)

interpretation fake: container_runtime fake_create fake_remove fake_live fake_issued fake_invar
proof unfold_locales
  fix r r' :: fake_runtime and sp h
  assume "fake_invar r" and "fake_create sp r = (Inr h, r')"
  then show "fake_invar r' \<and> h_id h \<notin> fake_issued r
      \<and> insert (h_id h) (fake_issued r) \<subseteq> fake_issued r'
      \<and> fake_live r' = insert (h_id h) (fake_live r)"
    using fake_fresh [of r]
    by (auto simp: fake_create_def fake_invar_def fake_live_def fake_issued_create)
qed (auto simp: fake_create_def fake_remove_def fake_invar_def fake_live_def fake_issued_def)

interpretation fake_managed: managed_runtime fake_ops fake_live fake_issued fake_invar
  by unfold_locales
    (auto simp: fake_ops_def fake_exec_def fake_stop_def
      dest: fake.create_ok fake.create_err fake.remove fake.live_issued)

end
