(* ===== verification/Pool.thy ===== *)
theory Pool
  imports Runtime "HOL-Library.Multiset"
begin

text \<open>
  The package \<open>internal/pool\<close>: a queue of pre-started containers of one image. The first part
  models each method as it runs alone. The second part cuts the methods into the regions between
  which the Go scheduler may switch (a backend call, a region under the mutex, a receive from the
  refill channel) and proves invariants of every interleaving of the initial fill, the refill
  goroutine, claims and shutdown.
\<close>

section \<open>State and methods\<close>

text \<open>\<open>p_signal\<close> is the refill channel, whose buffer has one slot.\<close>

record pool =
  p_image :: string
  p_target :: int
  p_spec :: spec
  p_avail :: "string list"
  p_closed :: bool
  p_signal :: bool

definition label_role :: string where "label_role = ''kotakpasir.role''"
definition label_pool_image :: string where "label_pool_image = ''kotakpasir.pool-image''"
definition label_managed :: string where "label_managed = ''kotakpasir.managed''"
definition role_pool_warm :: string where "role_pool_warm = ''pool-warm''"

definition new_pool :: "string \<Rightarrow> int \<Rightarrow> spec \<Rightarrow> pool" where
  "new_pool img target sp =
     \<lparr> p_image = img, p_target = target,
       p_spec = sp\<lparr> sp_labels := AList.update label_managed ''true''
                 (AList.update label_pool_image img
                   (AList.update label_role role_pool_warm (sp_labels sp))) \<rparr>,
       p_avail = [], p_closed = False, p_signal = False \<rparr>"

definition pool_get :: "pool \<Rightarrow> string option \<times> pool" where
  "pool_get p =
     (if p_closed p \<or> p_avail p = [] then (None, p)
      else (Some (last (p_avail p)), p\<lparr> p_avail := butlast (p_avail p), p_signal := True \<rparr>))"

definition pool_available :: "pool \<Rightarrow> int" where
  "pool_available p = int (length (p_avail p))"

text \<open>The region of \<open>Shutdown\<close> under the mutex, and its loop of removals, whose errors are
  joined.\<close>

definition pool_close :: "pool \<Rightarrow> string list option \<times> pool" where
  "pool_close p =
     (if p_closed p then (None, p)
      else (Some (p_avail p), p\<lparr> p_closed := True, p_avail := [] \<rparr>))"

fun remove_all :: "'r runtime_ops \<Rightarrow> string list \<Rightarrow> 'r \<Rightarrow> rt_error list \<times> 'r" where
  "remove_all rt [] r = ([], r)"
| "remove_all rt (i # ids) r =
     (let (res, r1) = rt_remove rt i r; (errs, r2) = remove_all rt ids r1
      in (case res of None \<Rightarrow> errs | Some e \<Rightarrow> e # errs, r2))"

definition pool_shutdown :: "'r runtime_ops \<Rightarrow> pool \<Rightarrow> 'r \<Rightarrow> rt_error list \<times> pool \<times> 'r" where
  "pool_shutdown rt p r =
     (case pool_close p of
        (None, p') \<Rightarrow> ([], p', r)
      | (Some ids, p') \<Rightarrow> (let (errs, r') = remove_all rt ids r in (errs, p', r')))"

text \<open>\<open>spawn\<close>: the backend call, then the region under the mutex (\<open>spawn_commit\<close>), and the
  removal when the pool was closed in between.\<close>

definition spawn_commit :: "string \<Rightarrow> pool \<Rightarrow> pool option" where
  "spawn_commit i p = (if p_closed p then None else Some (p\<lparr> p_avail := p_avail p @ [i] \<rparr>))"

definition closed_during_spawn :: rt_error where
  "closed_during_spawn = RtError ''pool closed during spawn''"

definition spawn :: "'r runtime_ops \<Rightarrow> pool \<Rightarrow> 'r \<Rightarrow> rt_error option \<times> pool \<times> 'r" where
  "spawn rt p r =
     (case rt_create rt (p_spec p) r of
        (Inl e, r') \<Rightarrow> (Some e, p, r')
      | (Inr h, r') \<Rightarrow>
          (case spawn_commit (h_id h) p of
             None \<Rightarrow> (Some closed_during_spawn, p, snd (rt_remove rt (h_id h) r'))
           | Some p' \<Rightarrow> (None, p', r')))"

fun fill :: "nat \<Rightarrow> 'r runtime_ops \<Rightarrow> pool \<Rightarrow> 'r \<Rightarrow> rt_error option \<times> pool \<times> 'r" where
  "fill 0 rt p r = (None, p, r)"
| "fill (Suc n) rt p r =
     (case spawn rt p r of
        (Some e, p', r') \<Rightarrow> (Some e, p', r')
      | (None, p', r') \<Rightarrow> fill n rt p' r')"

text \<open>\<open>Start\<close>: the eager fill; the launch of \<open>refillLoop\<close> is a step of the second part.\<close>

definition pool_start :: "'r runtime_ops \<Rightarrow> pool \<Rightarrow> 'r \<Rightarrow> rt_error option \<times> pool \<times> 'r" where
  "pool_start rt p r = fill (nat (p_target p)) rt p r"

text \<open>The body of \<open>refillLoop\<close> after a receive: the inner loop, which stops when the pool is
  closed or full and gives up (until the next signal) when a creation fails. The result tells
  whether it gave up.\<close>

definition need :: "pool \<Rightarrow> int" where
  "need p = p_target p - int (length (p_avail p))"

lemma spawn_None_need:
  "spawn rt p r = (None, p', r') \<Longrightarrow> need p' = need p - 1 \<and> p_closed p' = p_closed p"
  by (auto simp: spawn_def spawn_commit_def need_def split: prod.splits sum.splits if_splits)

function refill :: "'r runtime_ops \<Rightarrow> pool \<Rightarrow> 'r \<Rightarrow> rt_error option \<times> pool \<times> 'r" where
  "refill rt p r =
     (if p_closed p \<or> need p \<le> 0 then (None, p, r)
      else case spawn rt p r of
        (Some e, p', r') \<Rightarrow> (Some e, p', r')
      | (None, p', r') \<Rightarrow> refill rt p' r')"
  by pat_completeness auto
termination
  by (relation "measure (\<lambda>(rt, p, r). nat (need p))") (auto dest!: spawn_None_need [OF sym])

declare refill.simps [simp del]

subsection \<open>Facts about the methods\<close>

lemma new_pool_simps [simp]:
  "p_image (new_pool i n sp) = i" "p_target (new_pool i n sp) = n"
  "p_avail (new_pool i n sp) = []" "\<not> p_closed (new_pool i n sp)"
  "\<not> p_signal (new_pool i n sp)"
  "named_spec (p_spec (new_pool i n sp)) = named_spec sp"
  by (simp_all add: new_pool_def named_spec_def label_role_def label_pool_image_def label_managed_def
      cong: option.case_cong)

lemma pool_get_Some:
  "pool_get p = (Some i, p') \<longleftrightarrow>
     \<not> p_closed p \<and> (\<exists>ids. p_avail p = ids @ [i] \<and> p' = p\<lparr> p_avail := ids, p_signal := True \<rparr>)"
  by (cases "p_avail p" rule: rev_cases) (auto simp: pool_get_def)

lemma pool_get_None: "pool_get p = (None, p') \<longleftrightarrow> (p_closed p \<or> p_avail p = []) \<and> p' = p"
  by (auto simp: pool_get_def)

lemma spawn_Some: "spawn rt p r = (Some e, p', r') \<Longrightarrow> p' = p"
  by (auto simp: spawn_def spawn_commit_def split: prod.splits sum.splits if_splits)

lemma spawn_None:
  "spawn rt p r = (None, p', r') \<Longrightarrow>
   \<exists>h. rt_create rt (p_spec p) r = (Inr h, r') \<and> p' = p\<lparr> p_avail := p_avail p @ [h_id h] \<rparr>
     \<and> \<not> p_closed p"
  by (auto simp: spawn_def spawn_commit_def split: prod.splits sum.splits if_splits)

lemma remove_all_state: "snd (remove_all rt ids r) = fold (\<lambda>i r. snd (rt_remove rt i r)) ids r"
  by (induction ids arbitrary: r) (simp_all add: Let_def case_prod_unfold)

lemma remove_all_errs:
  "(\<And>i r. fst (rt_remove rt i r) = None) \<Longrightarrow> fst (remove_all rt ids r) = []"
  by (induction ids arbitrary: r) (simp_all add: Let_def case_prod_unfold)

section \<open>Interleavings\<close>

text \<open>Where the goroutine running \<open>Start\<close> is: \<open>n\<close> spawns to go; holding a created container
  that is not yet in the queue; about to remove one because the pool was closed; finished. And
  where the refill goroutine is: not launched; blocked in the \<open>select\<close>; about to read
  \<open>closed\<close> and \<open>need\<close>; about to spawn; holding; removing; returned on cancellation.\<close>

datatype start_pc = SRun nat | SHold nat string | SReject string | SEnd

datatype refill_pc = ROff | RWait | RCheck | RSpawn | RHold string | RReject string | RStop

text \<open>Besides the pool and the backend, the state records where every container went:
  \<open>y_claimed\<close> were handed out by \<open>Get\<close>, \<open>y_drain\<close> were taken by \<open>Shutdown\<close> and wait for their
  removal, \<open>y_gone\<close> had \<open>Remove\<close> called on them. The fields \<open>y_created\<close> (all containers the pool
  created) and \<open>y_failed\<close> (the last refill gave up) are only written, never read, by the steps.\<close>

record 'r psys =
  y_pool :: pool
  y_rt :: 'r
  y_start :: start_pc
  y_refill :: refill_pc
  y_claimed :: "string list"
  y_drain :: "string list"
  y_gone :: "string list"
  y_created :: "string list"
  y_failed :: bool

definition psys_init :: "string \<Rightarrow> int \<Rightarrow> spec \<Rightarrow> 'r \<Rightarrow> 'r psys" where
  "psys_init img target sp r =
     \<lparr> y_pool = new_pool img target sp, y_rt = r, y_start = SRun (nat target), y_refill = ROff,
       y_claimed = [], y_drain = [], y_gone = [], y_created = [], y_failed = False \<rparr>"

text \<open>The steps; \<open>issued\<close> is only used to say that other users of the backend never take an
  identifier back.\<close>

inductive pool_step :: "'r runtime_ops \<Rightarrow> ('r \<Rightarrow> string set) \<Rightarrow> ('r \<Rightarrow> bool) \<Rightarrow> 'r psys \<Rightarrow> 'r psys \<Rightarrow> bool"
  for rt :: "'r runtime_ops" and issued :: "'r \<Rightarrow> string set" and invar :: "'r \<Rightarrow> bool" where
  start_create:
    "y_start y = SRun (Suc n) \<Longrightarrow> rt_create rt (p_spec (y_pool y)) (y_rt y) = (Inr h, r') \<Longrightarrow>
     pool_step rt issued invar y (y\<lparr> y_rt := r', y_start := SHold n (h_id h),
                        y_created := h_id h # y_created y \<rparr>)"
| start_fail:
    "y_start y = SRun (Suc n) \<Longrightarrow> rt_create rt (p_spec (y_pool y)) (y_rt y) = (Inl e, r') \<Longrightarrow>
     pool_step rt issued invar y (y\<lparr> y_rt := r', y_start := SEnd \<rparr>)"
| start_commit:
    "y_start y = SHold n i \<Longrightarrow> spawn_commit i (y_pool y) = Some p' \<Longrightarrow>
     pool_step rt issued invar y (y\<lparr> y_pool := p', y_start := SRun n \<rparr>)"
| start_closed:
    "y_start y = SHold n i \<Longrightarrow> spawn_commit i (y_pool y) = None \<Longrightarrow>
     pool_step rt issued invar y (y\<lparr> y_start := SReject i \<rparr>)"
| start_drop:
    "y_start y = SReject i \<Longrightarrow> rt_remove rt i (y_rt y) = (res, r') \<Longrightarrow>
     pool_step rt issued invar y (y\<lparr> y_rt := r', y_start := SEnd, y_gone := i # y_gone y \<rparr>)"
| start_launch:
    "y_start y = SRun 0 \<Longrightarrow>
     pool_step rt issued invar y (y\<lparr> y_start := SEnd, y_refill := RWait \<rparr>)"
| refill_wake:
    "y_refill y = RWait \<Longrightarrow> p_signal (y_pool y) \<Longrightarrow>
     pool_step rt issued invar y (y\<lparr> y_pool := (y_pool y)\<lparr> p_signal := False \<rparr>, y_refill := RCheck,
                        y_failed := False \<rparr>)"
| refill_stop:
    "y_refill y = RWait \<Longrightarrow> pool_step rt issued invar y (y\<lparr> y_refill := RStop \<rparr>)"
| refill_more:
    "y_refill y = RCheck \<Longrightarrow> \<not> p_closed (y_pool y) \<Longrightarrow> 0 < need (y_pool y) \<Longrightarrow>
     pool_step rt issued invar y (y\<lparr> y_refill := RSpawn \<rparr>)"
| refill_done:
    "y_refill y = RCheck \<Longrightarrow> p_closed (y_pool y) \<or> need (y_pool y) \<le> 0 \<Longrightarrow>
     pool_step rt issued invar y (y\<lparr> y_refill := RWait \<rparr>)"
| refill_create:
    "y_refill y = RSpawn \<Longrightarrow> rt_create rt (p_spec (y_pool y)) (y_rt y) = (Inr h, r') \<Longrightarrow>
     pool_step rt issued invar y (y\<lparr> y_rt := r', y_refill := RHold (h_id h),
                        y_created := h_id h # y_created y \<rparr>)"
| refill_fail:
    "y_refill y = RSpawn \<Longrightarrow> rt_create rt (p_spec (y_pool y)) (y_rt y) = (Inl e, r') \<Longrightarrow>
     pool_step rt issued invar y (y\<lparr> y_rt := r', y_refill := RWait, y_failed := True \<rparr>)"
| refill_commit:
    "y_refill y = RHold i \<Longrightarrow> spawn_commit i (y_pool y) = Some p' \<Longrightarrow>
     pool_step rt issued invar y (y\<lparr> y_pool := p', y_refill := RCheck \<rparr>)"
| refill_closed:
    "y_refill y = RHold i \<Longrightarrow> spawn_commit i (y_pool y) = None \<Longrightarrow>
     pool_step rt issued invar y (y\<lparr> y_refill := RReject i \<rparr>)"
| refill_drop:
    "y_refill y = RReject i \<Longrightarrow> rt_remove rt i (y_rt y) = (res, r') \<Longrightarrow>
     pool_step rt issued invar y (y\<lparr> y_rt := r', y_refill := RWait, y_gone := i # y_gone y \<rparr>)"
| get:
    "pool_get (y_pool y) = (Some i, p') \<Longrightarrow>
     pool_step rt issued invar y (y\<lparr> y_pool := p', y_claimed := i # y_claimed y \<rparr>)"
| close:
    "pool_close (y_pool y) = (Some ids, p') \<Longrightarrow>
     pool_step rt issued invar y (y\<lparr> y_pool := p', y_drain := ids @ y_drain y \<rparr>)"
| drain:
    "y_drain y = i # ids \<Longrightarrow> rt_remove rt i (y_rt y) = (res, r') \<Longrightarrow>
     pool_step rt issued invar y (y\<lparr> y_rt := r', y_drain := ids, y_gone := i # y_gone y \<rparr>)"
| other:
    "issued (y_rt y) \<subseteq> issued r' \<Longrightarrow> invar r' \<Longrightarrow>
     pool_step rt issued invar y (y\<lparr> y_rt := r' \<rparr>)"

definition pool_reaches ::
    "'r runtime_ops \<Rightarrow> ('r \<Rightarrow> string set) \<Rightarrow> ('r \<Rightarrow> bool) \<Rightarrow> 'r psys \<Rightarrow> 'r psys \<Rightarrow> bool" where
  "pool_reaches rt issued invar = (pool_step rt issued invar)\<^sup>*\<^sup>*"

lemma spawn_commit_Some [simp]:
  "spawn_commit i p = Some p' \<longleftrightarrow> \<not> p_closed p \<and> p' = p\<lparr> p_avail := p_avail p @ [i] \<rparr>"
  "spawn_commit i p = None \<longleftrightarrow> p_closed p"
  by (auto simp: spawn_commit_def)

lemma pool_close_Some:
  "pool_close p = (Some ids, p') \<longleftrightarrow>
     \<not> p_closed p \<and> ids = p_avail p \<and> p' = p\<lparr> p_closed := True, p_avail := [] \<rparr>"
  by (auto simp: pool_close_def)

lemmas pool_region_simps = pool_get_Some pool_close_Some need_def

text \<open>An invariant of every step is one of every run.\<close>

lemma pool_reaches_invariant:
  assumes "pool_reaches rt issued invar y z" and "I y"
    and "\<And>y z. pool_step rt issued invar y z \<Longrightarrow> I y \<Longrightarrow> I z"
  shows "I z"
  using assms(1) unfolding pool_reaches_def
  by (induction rule: rtranclp_induct) (auto intro: assms(2,3))

subsection \<open>The queue never exceeds its target, and no wake-up is lost\<close>

fun spawns_left :: "start_pc \<Rightarrow> nat" where
  "spawns_left (SRun n) = n"
| "spawns_left (SHold n i) = Suc n"
| "spawns_left _ = 0"

definition size_inv :: "'r psys \<Rightarrow> bool" where
  "size_inv y \<longleftrightarrow>
     int (length (p_avail (y_pool y)) + spawns_left (y_start y)) \<le> max 0 (p_target (y_pool y))
   \<and> (y_refill y \<noteq> ROff \<longrightarrow> y_start y = SEnd)
   \<and> (case y_refill y of RSpawn \<Rightarrow> 0 < need (y_pool y) | RHold _ \<Rightarrow> 0 < need (y_pool y) | _ \<Rightarrow> True)"

definition wake_inv :: "'r psys \<Rightarrow> bool" where
  "wake_inv y \<longleftrightarrow> (case (y_refill y, y_start y) of
       (RWait, _) \<Rightarrow> p_closed (y_pool y) \<or> need (y_pool y) \<le> 0 \<or> p_signal (y_pool y) \<or> y_failed y
     | (RReject _, _) \<Rightarrow> p_closed (y_pool y)
     | (ROff, SEnd) \<Rightarrow> True
     | (ROff, SReject _) \<Rightarrow> True
     | (ROff, s) \<Rightarrow> p_closed (y_pool y) \<or> p_signal (y_pool y)
          \<or> need (y_pool y) \<le> int (spawns_left s)
     | _ \<Rightarrow> True)"

lemma size_inv_init: "size_inv (psys_init img n sp r)"
  by (simp add: size_inv_def psys_init_def)

lemma size_inv_step: "pool_step rt issued invar y z \<Longrightarrow> size_inv y \<Longrightarrow> size_inv z"
  by (induction rule: pool_step.induct)
    (auto simp: size_inv_def pool_region_simps split: refill_pc.splits)

lemma wake_inv_init: "wake_inv (psys_init img n sp r)"
  by (simp add: wake_inv_def psys_init_def need_def)

lemma wake_inv_step:
  "pool_step rt issued invar y z \<Longrightarrow> size_inv y \<Longrightarrow> wake_inv y \<Longrightarrow> wake_inv z"
  by (induction rule: pool_step.induct)
    (auto simp: size_inv_def wake_inv_def pool_region_simps split: refill_pc.splits start_pc.splits)

lemma pool_target_step: "pool_step rt issued invar y z \<Longrightarrow> p_target (y_pool z) = p_target (y_pool y)"
  by (induction rule: pool_step.induct) (auto simp: pool_region_simps)

subsection \<open>Where the containers are\<close>

fun held_start :: "start_pc \<Rightarrow> string list" where
  "held_start (SHold n i) = [i]"
| "held_start (SReject i) = [i]"
| "held_start _ = []"

fun held_refill :: "refill_pc \<Rightarrow> string list" where
  "held_refill (RHold i) = [i]"
| "held_refill (RReject i) = [i]"
| "held_refill _ = []"

definition owned :: "'r psys \<Rightarrow> string list" where
  "owned y = p_avail (y_pool y) @ y_claimed y @ y_drain y @ y_gone y
     @ held_start (y_start y) @ held_refill (y_refill y)"

definition closed_inv :: "'r psys \<Rightarrow> bool" where
  "closed_inv y \<longleftrightarrow> (p_closed (y_pool y) \<longrightarrow> p_avail (y_pool y) = [])"

lemma closed_inv_init: "closed_inv (psys_init img n sp r)"
  by (simp add: closed_inv_def psys_init_def)

lemma pool_target_init: "p_target (y_pool (psys_init img n sp r)) = n"
  by (simp add: psys_init_def)

lemma closed_inv_step: "pool_step rt issued invar y z \<Longrightarrow> closed_inv y \<Longrightarrow> closed_inv z"
  by (induction rule: pool_step.induct) (auto simp: closed_inv_def pool_region_simps)

text \<open>The pool as a client of a backend that meets the container contract.\<close>

locale pool_backend = container_runtime "rt_create rt" "rt_remove rt" live issued invar
  for rt :: "'r runtime_ops" and live issued invar
begin

definition own_inv :: "'r psys \<Rightarrow> bool" where
  "own_inv y \<longleftrightarrow> mset (y_created y) = mset (owned y) \<and> distinct (y_created y)
     \<and> set (y_created y) \<subseteq> issued (y_rt y) \<and> invar (y_rt y) \<and> named_spec (p_spec (y_pool y))"

lemma own_inv_init: "invar r \<Longrightarrow> named_spec sp \<Longrightarrow> own_inv (psys_init img n sp r)"
  by (simp add: own_inv_def owned_def psys_init_def)

lemma own_inv_issued: "own_inv y \<Longrightarrow> i \<in> set (owned y) \<Longrightarrow> i \<in> issued (y_rt y)"
  by (auto simp: own_inv_def dest!: mset_eq_setD)

lemma own_inv_step: "pool_step rt issued invar y z \<Longrightarrow> size_inv y \<Longrightarrow> own_inv y \<Longrightarrow> own_inv z"
proof (induction rule: pool_step.induct)
  case (start_create y n h r')
  with create_ok [of "y_rt y"] show ?case by (fastforce simp: own_inv_def owned_def)
next
  case (refill_create y h r')
  with create_ok [of "y_rt y"] show ?case by (fastforce simp: own_inv_def owned_def)
next
  case (start_launch y)
  then have "y_refill y = ROff" by (auto simp: size_inv_def)
  with start_launch show ?case by (simp add: own_inv_def owned_def)
next
  case (start_drop y i res r')
  then have "i \<in> issued (y_rt y)" by (intro own_inv_issued) (auto simp: owned_def)
  with start_drop remove [of "y_rt y" i] show ?case by (auto simp: own_inv_def owned_def)
next
  case (refill_drop y i res r')
  then have "i \<in> issued (y_rt y)" by (intro own_inv_issued) (auto simp: owned_def)
  with refill_drop remove [of "y_rt y" i] show ?case by (auto simp: own_inv_def owned_def)
next
  case (drain y i ids res r')
  then have "i \<in> issued (y_rt y)" by (intro own_inv_issued) (auto simp: owned_def)
  with drain remove [of "y_rt y" i] show ?case by (auto simp: own_inv_def owned_def)
qed (auto simp: own_inv_def owned_def pool_region_simps dest: create_err)

lemma own_inv_reaches:
  assumes "pool_reaches rt issued invar (psys_init img n sp r) y" and "invar r" and "named_spec sp"
  shows "own_inv y"
proof -
  have "size_inv y \<and> own_inv y"
    by (rule pool_reaches_invariant [OF assms(1), where I = "\<lambda>y. size_inv y \<and> own_inv y"])
      (use assms(2,3) in \<open>auto intro: own_inv_init own_inv_step size_inv_init size_inv_step\<close>)
  then show ?thesis by simp
qed

lemma one_shot:
  assumes "pool_reaches rt issued invar (psys_init img n sp r) y" and "invar r" and "named_spec sp"
  shows "distinct (y_created y) \<and> mset (y_created y) = mset (owned y) \<and> distinct (owned y)"
  using own_inv_reaches [OF assms] by (auto simp: own_inv_def dest: mset_eq_imp_distinct_iff)

text \<open>What every method of a pool may do to the containers: the queue keeps only containers that
  were in it or that are new, and that of a pool that was shut down is empty.\<close>

definition pool_moves :: "pool \<Rightarrow> 'r \<Rightarrow> pool \<Rightarrow> 'r \<Rightarrow> bool" where
  "pool_moves p r p' r' \<longleftrightarrow> invar r' \<and> issued r \<subseteq> issued r' \<and> distinct (p_avail p')
     \<and> set (p_avail p') \<subseteq> set (p_avail p) \<union> (issued r' - issued r)
     \<and> p_image p' = p_image p \<and> p_target p' = p_target p \<and> p_spec p' = p_spec p
     \<and> (p_closed p' \<longrightarrow> p_avail p' = [])"

definition pool_ready :: "pool \<Rightarrow> 'r \<Rightarrow> bool" where
  "pool_ready p r \<longleftrightarrow> invar r \<and> distinct (p_avail p) \<and> set (p_avail p) \<subseteq> issued r \<and> named_spec (p_spec p)
     \<and> (p_closed p \<longrightarrow> p_avail p = [])"

lemma pool_moves_refl: "pool_ready p r \<Longrightarrow> pool_moves p r p r"
  by (auto simp: pool_moves_def pool_ready_def)

lemma pool_moves_ready: "pool_ready p r \<Longrightarrow> pool_moves p r p' r' \<Longrightarrow> pool_ready p' r'"
  by (auto simp: pool_moves_def pool_ready_def)

lemma pool_moves_trans:
  "pool_moves p r p1 r1 \<Longrightarrow> pool_moves p1 r1 p2 r2 \<Longrightarrow> pool_moves p r p2 r2"
  unfolding pool_moves_def by (elim conjE, intro conjI) (assumption | simp | blast)+

lemma remove_moves:
  assumes "pool_ready p r" and "c \<in> issued r" and "rt_remove rt c r = (res, r')"
  shows "pool_moves p r p r'"
  using assms remove [OF _ assms(2,3)] by (auto simp: pool_moves_def pool_ready_def)

lemma spawn_moves:
  assumes "pool_ready p r" and "spawn rt p r = (res, p', r')"
  shows "pool_moves p r p' r'"
proof (cases "rt_create rt (p_spec p) r")
  case (Pair cres r1)
  have inv: "invar r" "named_spec (p_spec p)" using assms(1) by (simp_all add: pool_ready_def)
  show ?thesis
  proof (cases cres)
    case (Inl e)
    with Pair create_err [OF inv] assms show ?thesis
      by (auto simp: spawn_def pool_moves_def pool_ready_def)
  next
    case (Inr h)
    with Pair create_ok [OF inv] have h: "invar r1" "h_id h \<notin> issued r"
      "insert (h_id h) (issued r) \<subseteq> issued r1" by auto
    show ?thesis
    proof (cases "p_closed p")
      case True
      obtain res2 r2 where r2: "rt_remove rt (h_id h) r1 = (res2, r2)" by fastforce
      moreover have "h_id h \<in> issued r1" using h(3) by simp
      ultimately have r2': "invar r2" "issued r2 = issued r1" using remove [OF h(1) _ r2] by auto
      with h have "invar r2" "issued r2 = issued r1" by auto
      with Pair Inr True r2 assms h show ?thesis
        by (auto simp: spawn_def spawn_commit_def pool_moves_def pool_ready_def)
    next
      case False
      with Pair Inr assms h show ?thesis
        by (auto simp: spawn_def spawn_commit_def pool_moves_def pool_ready_def)
    qed
  qed
qed

lemma fill_moves: "pool_ready p r \<Longrightarrow> fill n rt p r = (res, p', r') \<Longrightarrow> pool_moves p r p' r'"
proof (induction n arbitrary: p r)
  case 0
  then show ?case by (simp add: pool_moves_refl)
next
  case (Suc n)
  obtain e p1 r1 where sp: "spawn rt p r = (e, p1, r1)" by (cases "spawn rt p r")
  note m1 = spawn_moves [OF Suc.prems(1) sp]
  show ?case
  proof (cases e)
    case None
    with sp Suc.prems(2) have "fill n rt p1 r1 = (res, p', r')" by simp
    from Suc.IH [OF pool_moves_ready [OF Suc.prems(1) m1] this] m1 show ?thesis
      by (blast intro: pool_moves_trans)
  qed (use sp Suc.prems m1 in auto)
qed

lemma refill_moves: "refill rt p r = (res, p', r') \<Longrightarrow> pool_ready p r \<Longrightarrow> pool_moves p r p' r'"
proof (induction "nat (need p)" arbitrary: p r rule: less_induct)
  case less
  show ?case
  proof (cases "p_closed p \<or> need p \<le> 0")
    case True
    with less.prems show ?thesis by (auto simp: refill.simps [of rt p r] pool_moves_refl)
  next
    case False
    obtain e p1 r1 where sp: "spawn rt p r = (e, p1, r1)" by (cases "spawn rt p r")
    note m1 = spawn_moves [OF less.prems(2) sp]
    show ?thesis
    proof (cases e)
      case None
      then have "nat (need p1) < nat (need p)" using spawn_None_need [of rt p r p1 r1] sp False by auto
      moreover from False sp None less.prems(1) have "refill rt p1 r1 = (res, p', r')"
        by (simp add: refill.simps [of rt p r])
      ultimately have "pool_moves p1 r1 p' r'"
        using less.hyps pool_moves_ready [OF less.prems(2) m1] by blast
      with m1 show ?thesis by (rule pool_moves_trans)
    qed (use False sp less.prems(1) m1 in \<open>auto simp: refill.simps [of rt p r]\<close>)
  qed
qed

lemma shutdown_moves:
  assumes "pool_ready p r" and "pool_shutdown rt p r = (errs, p', r')"
  shows "pool_moves p r p' r' \<and> p_closed p' \<and> p_avail p' = []"
proof (cases "p_closed p")
  case True
  with assms show ?thesis by (auto simp: pool_shutdown_def pool_close_def pool_moves_refl) (simp add: pool_ready_def)
next
  case False
  with assms(2) have "p' = p\<lparr> p_closed := True, p_avail := [] \<rparr>" "r' = snd (remove_all rt (p_avail p) r)"
    by (auto simp: pool_shutdown_def pool_close_def split: prod.splits)
  with False assms(1) remove_fold [of r "p_avail p"] show ?thesis
    by (auto simp: pool_moves_def pool_ready_def remove_all_state)
qed

end

interpretation fake_pool: pool_backend fake_ops fake_live fake_issued fake_invar
  by unfold_locales
    (auto simp: fake_ops_def dest: fake.create_ok fake.create_err fake.remove fake.live_issued)

lemma wake_inv_reaches:
  assumes "pool_reaches rt issued invar (psys_init img n sp r) y"
  shows "size_inv y \<and> wake_inv y \<and> closed_inv y \<and> p_target (y_pool y) = n"
  by (rule pool_reaches_invariant [OF assms,
        where I = "\<lambda>y. size_inv y \<and> wake_inv y \<and> closed_inv y \<and> p_target (y_pool y) = n"])
    (auto intro: size_inv_init size_inv_step wake_inv_init wake_inv_step closed_inv_init
      closed_inv_step simp: pool_target_init pool_target_step)

section \<open>Properties\<close>

text \<open>A run used by the witnesses: a pool of one container over the in-memory backend is filled,
  its refill goroutine is launched and the container is claimed.\<close>

definition demo_spec :: spec where
  "demo_spec = \<lparr> sp_name = [], sp_image = ''alpine'', sp_cmd = [], sp_env = [], sp_cpus = Fin 1,
     sp_memory_mb = 512, sp_pids_limit = 0, sp_user = [], sp_read_only = True,
     sp_network_mode = ''none'', sp_runtime_name = [],
     sp_egress = \<lparr> re_mode = [], re_hosts = [] \<rparr>, sp_labels = [], sp_ttl = 0 \<rparr>"

definition demo_init :: "fake_runtime psys" where
  "demo_init = psys_init ''alpine'' 1 demo_spec fake_empty"

definition demo_filled :: "fake_runtime psys" where
  "demo_filled = demo_init\<lparr>
     y_pool := (y_pool demo_init)\<lparr> p_avail := [fake_id 0] \<rparr>,
     y_rt := snd (fake_create (p_spec (y_pool demo_init)) fake_empty),
     y_start := SEnd, y_refill := RWait, y_created := [fake_id 0] \<rparr>"

definition demo_claimed :: "fake_runtime psys" where
  "demo_claimed = demo_filled\<lparr>
     y_pool := (y_pool demo_filled)\<lparr> p_avail := [], p_signal := True \<rparr>,
     y_claimed := [fake_id 0] \<rparr>"

lemmas demo_defs = demo_init_def demo_filled_def demo_claimed_def psys_init_def new_pool_def
  fake_ops_def fake_create_def fake_empty_def

lemma demo_filled_reached: "pool_reaches fake_ops fake_issued fake_invar demo_init demo_filled"
proof -
  let ?step = "pool_step fake_ops fake_issued fake_invar"
  let ?r = "snd (fake_create (p_spec (y_pool demo_init)) fake_empty)"
  let ?a = "demo_init\<lparr> y_rt := ?r, y_start := SHold 0 (fake_id 0), y_created := [fake_id 0] \<rparr>"
  let ?b = "?a\<lparr> y_pool := (y_pool ?a)\<lparr> p_avail := [fake_id 0] \<rparr>, y_start := SRun 0 \<rparr>"
  have 1: "?step demo_init ?a"
    using pool_step.start_create [where y = demo_init and n = 0 and rt = fake_ops
        and h = "\<lparr> h_id = fake_id 0, h_name = [] \<rparr>" and r' = ?r
        and issued = fake_issued and invar = fake_invar]
    by (simp add: demo_defs demo_spec_def)
  have 2: "?step ?a ?b"
    using pool_step.start_commit [where y = ?a and n = 0 and i = "fake_id 0" and rt = fake_ops
        and issued = fake_issued and invar = fake_invar]
    by (simp add: demo_defs)
  have "?step ?b (?b\<lparr> y_start := SEnd, y_refill := RWait \<rparr>)"
    by (rule pool_step.start_launch) simp
  moreover have "?b\<lparr> y_start := SEnd, y_refill := RWait \<rparr> = demo_filled"
    by (simp add: demo_filled_def)
  ultimately have 3: "?step ?b demo_filled" by simp
  show ?thesis unfolding pool_reaches_def
    by (rule converse_rtranclp_into_rtranclp [of ?step, OF 1])
      (rule converse_rtranclp_into_rtranclp [of ?step, OF 2], rule r_into_rtranclp [of ?step, OF 3])
qed

lemma demo_claimed_reached: "pool_reaches fake_ops fake_issued fake_invar demo_init demo_claimed"
proof -
  have "pool_step fake_ops fake_issued fake_invar demo_filled demo_claimed"
    using pool_step.get [where y = demo_filled and i = "fake_id 0" and rt = fake_ops
        and issued = fake_issued and invar = fake_invar]
    by (simp add: demo_defs pool_get_def)
  then show ?thesis
    using demo_filled_reached unfolding pool_reaches_def by (rule rtranclp.rtrancl_into_rtrancl [rotated])
qed

text \<open>C28. In every interleaving of the initial fill, the refill goroutine, claims and a shutdown,
  the queue never holds more containers than its target, and it is empty once the pool is
  closed.\<close>

theorem pool_never_overfills:
  assumes "pool_reaches rt issued invar (psys_init img n sp r) y"
  shows "pool_available (y_pool y) \<le> max 0 n
    \<and> (p_closed (y_pool y) \<longrightarrow> pool_available (y_pool y) = 0)"
  using wake_inv_reaches [OF assms]
  by (auto simp: size_inv_def closed_inv_def pool_available_def)

theorem pool_never_overfills_witness:
  "pool_reaches fake_ops fake_issued fake_invar (psys_init ''alpine'' 1 demo_spec fake_empty) demo_filled
   \<and> pool_available (y_pool demo_filled) \<le> 1"
  using pool_never_overfills [OF demo_filled_reached [unfolded demo_init_def]]
    demo_filled_reached [unfolded demo_init_def] by simp

text \<open>C29. No wake-up is lost. Whenever the refill goroutine is blocked in its \<open>select\<close> while the
  pool is open and short of its target, either a refill signal is pending, so the goroutine will
  look again, or its last attempt ended with a failed creation.\<close>

theorem pool_no_lost_wakeup:
  assumes "pool_reaches rt issued invar (psys_init img n sp r) y"
    and "y_refill y = RWait" and "\<not> p_closed (y_pool y)" and "pool_available (y_pool y) < n"
  shows "p_signal (y_pool y) \<or> y_failed y"
  using wake_inv_reaches [OF assms(1)] assms(2-)
  by (auto simp: wake_inv_def need_def pool_available_def)

theorem pool_no_lost_wakeup_witness:
  "y_refill demo_claimed = RWait \<and> pool_available (y_pool demo_claimed) < 1
   \<and> p_signal (y_pool demo_claimed)"
  using pool_no_lost_wakeup [OF demo_claimed_reached [unfolded demo_init_def]]
  by (simp add: demo_defs pool_available_def)

text \<open>C34. Containers are neither lost nor handed out twice. Over any backend that meets the
  container contract, in every interleaving, each container the pool created is in exactly one
  place, exactly once: available, claimed, waiting for its removal, removed, or held by the
  goroutine that is spawning it. In particular, once the pool is closed and its goroutines and
  the drain are done, every container was either claimed or had its removal called.\<close>

theorem pool_containers_one_shot:
  assumes "container_runtime (rt_create rt) (rt_remove rt) live issued invar" and "invar r"
    and "named_spec sp" and "pool_reaches rt issued invar (psys_init img n sp r) y"
  shows "distinct (owned y) \<and> set (owned y) = set (y_created y)
    \<and> (p_closed (y_pool y) \<and> y_drain y = [] \<and> held_start (y_start y) = []
        \<and> held_refill (y_refill y) = []
       \<longrightarrow> set (y_created y) = set (y_claimed y) \<union> set (y_gone y))"
proof -
  have "distinct (owned y)" and same: "mset (y_created y) = mset (owned y)"
    using pool_backend.one_shot [OF pool_backend.intro [OF assms(1)] assms(4,2,3)] by simp_all
  moreover have "set (y_created y) = set (owned y)" using same by (rule mset_eq_setD)
  moreover have "closed_inv y" using wake_inv_reaches [OF assms(4)] by simp
  ultimately show ?thesis by (auto simp: owned_def closed_inv_def)
qed

theorem pool_containers_one_shot_witness:
  "y_claimed demo_claimed = [fake_id 0] \<and> distinct (owned demo_claimed)
   \<and> set (owned demo_claimed) = {fake_id 0}"
proof -
  have "fake_invar fake_empty" by (simp add: fake_invar_def fake_empty_def)
  moreover have "container_runtime (rt_create fake_ops) (rt_remove fake_ops) fake_live fake_issued
      fake_invar"
    using fake.container_runtime_axioms by (simp add: fake_ops_def)
  ultimately show ?thesis
    using pool_containers_one_shot [OF _ _ _ demo_claimed_reached [unfolded demo_init_def],
        of fake_live]
    by (simp add: demo_defs demo_spec_def named_spec_def)
qed

lemma refill_prefix:
  "refill rt p r = (res, p', r') \<Longrightarrow>
     prefix (p_avail p) (p_avail p')
   \<and> p_closed p' = p_closed p \<and> p_target p' = p_target p
   \<and> (res = None \<longrightarrow> p_closed p \<or> need p' \<le> 0 \<and> (p' = p \<or> need p' = 0))
   \<and> (res \<noteq> None \<longrightarrow> \<not> p_closed p \<and> 0 < need p')"
proof (induction rt p r arbitrary: res p' r' rule: refill.induct)
  case (1 rt p r)
  show ?case
  proof (cases "p_closed p \<or> need p \<le> 0")
    case True
    with "1.prems" show ?thesis by (auto simp: refill.simps [of rt p r])
  next
    case False
    obtain e p1 r1 where sp: "spawn rt p r = (e, p1, r1)" by (cases "spawn rt p r")
    show ?thesis
    proof (cases e)
      case (Some err)
      with sp False "1.prems" spawn_Some [of rt p r err p1 r1] show ?thesis
        by (auto simp: refill.simps [of rt p r])
    next
      case None
      with sp have "spawn rt p r = (None, p1, r1)" by simp
      from spawn_None [OF this] obtain h :: handle where p1: "p1 = p\<lparr> p_avail := p_avail p @ [h_id h] \<rparr>"
        by blast
      have rec: "refill rt p1 r1 = (res, p', r')"
        using "1.prems" False sp None by (simp add: refill.simps [of rt p r])
      from "1.IH" [OF False sp [symmetric] None refl rec] p1 False
      show ?thesis by (auto simp: need_def prefix_def)
    qed
  qed
qed

text \<open>C35. A round of the refill loop on an open pool ends, and it ends in exactly one of two
  ways: the pool holds its target (or what it held, when that was more), or a creation failed
  while the pool was still short. The containers already waiting stay where they are. On a closed
  pool it does nothing.\<close>

theorem refill_restores_target:
  "(case refill rt p r of (res, p', r') \<Rightarrow>
      prefix (p_avail p) (p_avail p') \<and> p_closed p' = p_closed p
    \<and> (p_closed p \<longrightarrow> (res, p', r') = (None, p, r))
    \<and> (\<not> p_closed p \<and> res = None \<longrightarrow>
         pool_available p' = max (pool_available p) (p_target p))
    \<and> (res \<noteq> None \<longrightarrow> pool_available p \<le> pool_available p' \<and> pool_available p' < p_target p))"
proof -
  obtain res p' r' where rf: "refill rt p r = (res, p', r')" by (cases "refill rt p r")
  note facts = refill_prefix [OF rf]
  have "p_closed p \<Longrightarrow> (res, p', r') = (None, p, r)" using rf by (simp add: refill.simps [of rt p r])
  moreover have "length (p_avail p) \<le> length (p_avail p')" using facts by (blast dest: prefix_length_le)
  ultimately show ?thesis using facts by (auto simp: rf need_def pool_available_def)
qed

theorem refill_restores_target_witness:
  "fst (refill fake_ops (new_pool ''alpine'' 2 demo_spec) fake_empty) = None
   \<and> pool_available (fst (snd (refill fake_ops (new_pool ''alpine'' 2 demo_spec) fake_empty))) = 2"
proof -
  have "fst (refill fake_ops (new_pool ''alpine'' 2 demo_spec) fake_empty) = None"
    by (simp add: refill.simps need_def spawn_def spawn_commit_def fake_ops_def fake_create_def
        new_pool_def)
  then show ?thesis
    using refill_restores_target [where rt = fake_ops and p = "new_pool ''alpine'' 2 demo_spec" and r = fake_empty]
    by (auto simp: case_prod_unfold pool_available_def)
qed

lemma fill_length:
  "fill n rt p r = (res, p', r') \<Longrightarrow>
     (res = None \<longrightarrow> length (p_avail p') = length (p_avail p) + n)
   \<and> (res \<noteq> None \<longrightarrow> length (p_avail p') < length (p_avail p) + n)"
  by (induction n arbitrary: p r)
    (fastforce split: prod.splits option.splits dest: spawn_Some spawn_None)+

text \<open>A shut-down pool stays shut down and holds nothing. \<open>Shutdown\<close> empties the queue and
  calls \<open>Remove\<close> once on each container that was in it, in order; afterwards \<open>Get\<close> finds
  nothing, a second \<open>Shutdown\<close> calls nothing, the refill loop starts nothing, and a creation
  that was in flight is removed again: over a backend that meets the contract and whose removal
  succeeds, the live containers are the same as before it.\<close>

theorem pool_shutdown_final:
  assumes "container_runtime (rt_create rt) (rt_remove rt) live issued invar" and "invar r"
    and "set (p_avail p) \<subseteq> issued r" and "\<not> p_closed p" and "named_spec (p_spec p)"
    and "\<And>i r. fst (rt_remove rt i r) = None"
  shows "(case pool_shutdown rt p r of (errs, p', r') \<Rightarrow>
       errs = [] \<and> live r' = live r - set (p_avail p) \<and> pool_available p' = 0
     \<and> pool_get p' = (None, p')
     \<and> pool_shutdown rt p' r' = ([], p', r')
     \<and> refill rt p' r' = (None, p', r')
     \<and> (case spawn rt p' r' of (res, p'', r'') \<Rightarrow>
          res \<noteq> None \<and> p'' = p' \<and> live r'' = live r'))"
proof -
  let ?p = "p\<lparr> p_closed := True, p_avail := [] \<rparr>"
  let ?r = "fold (\<lambda>i r. snd (rt_remove rt i r)) (p_avail p) r"
  note crt = assms(1)
  have sd: "pool_shutdown rt p r = ([], ?p, ?r)"
    using assms(4) remove_all_state [of rt "p_avail p" r] remove_all_errs [of rt "p_avail p" r, OF assms(6)]
    by (simp add: pool_shutdown_def pool_close_def case_prod_unfold Let_def)
  note drained = container_runtime.remove_fold_ok [OF crt assms(2,3,6)]
  have "case spawn rt ?p ?r of (res, p'', r'') \<Rightarrow> res \<noteq> None \<and> p'' = ?p \<and> live r'' = live ?r"
  proof (cases "rt_create rt (p_spec p) ?r")
    case (Pair res r1)
    show ?thesis
    proof (cases res)
      case (Inl e)
      with Pair have "rt_create rt (p_spec p) ?r = (Inl e, r1)" by simp
      then have "live r1 = live ?r" using container_runtime.create_err [OF crt _ assms(5)] drained by blast
      with Pair Inl show ?thesis by (simp add: spawn_def)
    next
      case (Inr h)
      with Pair container_runtime.create_ok [OF crt _ assms(5), of ?r] drained
      have h: "invar r1" "h_id h \<notin> issued ?r" "h_id h \<in> issued r1"
        "live r1 = insert (h_id h) (live ?r)" by auto
      obtain r2 where r2: "rt_remove rt (h_id h) r1 = (None, r2)"
        using assms(6) [of "h_id h" r1] by (metis prod.collapse)
      have "live r2 = live r1 - {h_id h}"
        by (rule container_runtime.remove_ok_live [OF crt h(1,3) r2])
      moreover have "h_id h \<notin> live ?r"
        using h(2) drained container_runtime.live_issued [OF crt, of ?r] by auto
      ultimately show ?thesis using Pair Inr r2 h by (simp add: spawn_def spawn_commit_def)
    qed
  qed
  moreover have "pool_get ?p = (None, ?p)" "pool_shutdown rt ?p ?r = ([], ?p, ?r)"
    "refill rt ?p ?r = (None, ?p, ?r)" "pool_available ?p = 0"
    by (simp_all add: pool_get_def pool_shutdown_def pool_close_def refill.simps pool_available_def)
  moreover have "live ?r = live r - set (p_avail p)" using drained by simp
  ultimately show ?thesis unfolding sd prod.case by blast
qed

theorem pool_shutdown_final_witness:
  "fake_live (y_rt demo_filled) = {fake_id 0}
   \<and> (case pool_shutdown fake_ops (y_pool demo_filled) (y_rt demo_filled) of (errs, p', r') \<Rightarrow>
        fake_live r' = {})"
proof -
  have live: "fake_live (y_rt demo_filled) = {fake_id 0}"
    by (auto simp: demo_defs fake_live_def fake_issued_def)
  have c: "container_runtime (rt_create fake_ops) (rt_remove fake_ops) fake_live fake_issued
      fake_invar"
    using fake.container_runtime_axioms by (simp add: fake_ops_def)
  have "fake_invar (y_rt demo_filled)" "set (p_avail (y_pool demo_filled)) \<subseteq> fake_issued (y_rt demo_filled)"
    "\<not> p_closed (y_pool demo_filled)" "\<And>i r. fst (rt_remove fake_ops i r) = None"
    "p_avail (y_pool demo_filled) = [fake_id 0]"
    "named_spec (p_spec (y_pool demo_filled))"
    by (simp_all add: demo_defs fake_invar_def fake_issued_def fake_remove_def demo_spec_def named_spec_def
        label_role_def label_pool_image_def label_managed_def)
  then show ?thesis
    using pool_shutdown_final [OF c, of "y_rt demo_filled" "y_pool demo_filled"]
    by (auto simp: live split: prod.splits)
qed

end
