(* ===== verification/Store.thy ===== *)
theory Store
  imports Json
begin

text \<open>
  The sandbox record of \<open>internal/sandbox/sandbox.go\<close>, the \<open>Store\<close> interface of
  \<open>internal/sandbox/store.go\<close> with its contract, and the SQLite store of
  \<open>internal/sandbox/store/sqlite\<close>: rows with the columns of its schema, the SQL statements
  written out on the list of rows (in rowid order), and the conversions of \<open>Put\<close> and \<open>scan\<close>.
  Statements may fail: the connection carries a plan that says which do. The in-memory store of
  the manager's tests is a second implementation of the contract.
\<close>

section \<open>Sandboxes\<close>

text \<open>A Go \<open>State\<close> is a string, with five constants.\<close>

type_synonym state = string

definition state_created :: state where "state_created = ''created''"
definition state_running :: state where "state_running = ''running''"
definition state_stopped :: state where "state_stopped = ''stopped''"
definition state_removed :: state where "state_removed = ''removed''"
definition state_error :: state where "state_error = ''error''"

record sandbox =
  sb_id :: string
  sb_name :: string
  sb_image :: string
  sb_runtime_id :: string
  sb_state :: state
  sb_cpus :: f64
  sb_memory_mb :: int64
  sb_env :: smap
  sb_labels :: smap
  sb_created_at :: gotime
  sb_expires_at :: "gotime option"

definition maps_ok :: "sandbox \<Rightarrow> bool" where
  "maps_ok sb \<longleftrightarrow> distinct (map fst (sb_env sb)) \<and> distinct (map fst (sb_labels sb))"

section \<open>The interface\<close>

datatype store_error = ErrNotFound | StoreError string

record 's store_ops =
  st_put :: "sandbox \<Rightarrow> 's \<Rightarrow> store_error option \<times> 's"
  st_get :: "string \<Rightarrow> 's \<Rightarrow> (store_error + sandbox) \<times> 's"
  st_list :: "'s \<Rightarrow> (store_error + sandbox list) \<times> 's"
  st_delete :: "string \<Rightarrow> 's \<Rightarrow> store_error option \<times> 's"
  st_expired :: "gotime \<Rightarrow> 's \<Rightarrow> (store_error + sandbox list) \<times> 's"
  st_ping :: "('s \<Rightarrow> store_error option) option"

text \<open>What a stored sandbox still agrees on with the one that was put: everything but the times,
  which may lose precision downwards, and the representation of its maps.\<close>

definition same_sandbox :: "sandbox \<Rightarrow> sandbox \<Rightarrow> bool" where
  "same_sandbox a b \<longleftrightarrow> sb_id a = sb_id b \<and> sb_name a = sb_name b \<and> sb_image a = sb_image b
     \<and> sb_runtime_id a = sb_runtime_id b \<and> sb_state a = sb_state b
     \<and> (sb_cpus b \<noteq> NaN \<longrightarrow> sb_cpus a = sb_cpus b)
     \<and> sb_memory_mb a = sb_memory_mb b
     \<and> map_of (sb_env a) = map_of (sb_env b) \<and> map_of (sb_labels a) = map_of (sb_labels b)
     \<and> rel_option (\<lambda>s t. s \<le> t \<and> t - second_ns < s) (sb_expires_at a) (sb_expires_at b)"

text \<open>The contract, over the map \<open>view\<close> from identifiers to stored sandboxes. Every operation
  may fail, and then changes nothing; \<open>ErrNotFound\<close> is only reported when there is no row.
  \<open>due\<close> says when a stored expiry counts as passed.\<close>

locale sandbox_store =
  fixes ops :: "'s store_ops"
    and view :: "'s \<Rightarrow> string \<Rightarrow> sandbox option"
    and invar :: "'s \<Rightarrow> bool"
    and due :: "gotime \<Rightarrow> gotime \<Rightarrow> bool"
  assumes put_ok: "invar s \<Longrightarrow> maps_ok sb \<Longrightarrow> st_put ops sb s = (None, s') \<Longrightarrow>
      invar s' \<and> (\<exists>sb'. same_sandbox sb' sb \<and> maps_ok sb' \<and> view s' = (view s)(sb_id sb \<mapsto> sb'))"
    and put_err: "invar s \<Longrightarrow> st_put ops sb s = (Some e, s') \<Longrightarrow>
      invar s' \<and> view s' = view s \<and> e \<noteq> ErrNotFound"
    and get: "invar s \<Longrightarrow> st_get ops i s = (res, s') \<Longrightarrow>
      invar s' \<and> view s' = view s
      \<and> (case res of Inr sb \<Rightarrow> view s i = Some sb | Inl e \<Rightarrow> e = ErrNotFound \<longrightarrow> view s i = None)"
    and list_all: "invar s \<Longrightarrow> st_list ops s = (lres, s') \<Longrightarrow>
      invar s' \<and> view s' = view s
      \<and> (\<forall>sbs. lres = Inr sbs \<longrightarrow> set sbs = ran (view s) \<and> distinct (map sb_id sbs))"
    and delete_ok: "invar s \<Longrightarrow> st_delete ops i s = (None, s') \<Longrightarrow>
      invar s' \<and> view s i \<noteq> None \<and> view s' = (view s)(i := None)"
    and delete_err: "invar s \<Longrightarrow> st_delete ops i s = (Some e, s') \<Longrightarrow>
      invar s' \<and> view s' = view s \<and> (e = ErrNotFound \<longrightarrow> view s i = None)"
    and expired: "invar s \<Longrightarrow> st_expired ops t s = (lres, s') \<Longrightarrow>
      invar s' \<and> view s' = view s
      \<and> (\<forall>sbs. lres = Inr sbs \<longrightarrow> distinct (map sb_id sbs)
           \<and> set sbs = {sb \<in> ran (view s). \<exists>x. sb_expires_at sb = Some x \<and> due x t})"
    and view_id: "invar s \<Longrightarrow> view s i = Some sb \<Longrightarrow> sb_id sb = i \<and> maps_ok sb"
    and due_past: "due x t \<Longrightarrow> x < t"
begin

lemma expired_ids:
  "invar s \<Longrightarrow> st_expired ops t s = (Inr sbs, s') \<Longrightarrow> sb \<in> set sbs \<Longrightarrow>
   view s (sb_id sb) = Some sb \<and> (\<exists>x. sb_expires_at sb = Some x \<and> due x t)"
  using expired [of s t "Inr sbs" s'] view_id [of s] by (fastforce simp: ran_def)

lemma put_view_other:
  "invar s \<Longrightarrow> maps_ok sb \<Longrightarrow> st_put ops sb s = (res, s') \<Longrightarrow> i \<noteq> sb_id sb \<Longrightarrow> view s' i = view s i"
  using put_ok [of s sb s'] put_err [of s sb _ s'] by (cases res) fastforce+

lemma put_invar: "invar s \<Longrightarrow> maps_ok sb \<Longrightarrow> st_put ops sb s = (res, s') \<Longrightarrow> invar s'"
  using put_ok [of s sb s'] put_err [of s sb _ s'] by (cases res) auto

lemma delete_invar: "invar s \<Longrightarrow> st_delete ops i s = (res, s') \<Longrightarrow> invar s'"
  using delete_ok [of s i s'] delete_err [of s i _ s'] by (cases res) auto

end

section \<open>The SQLite store\<close>

text \<open>A row; \<open>None\<close> is SQL NULL. SQLite stores NaN as NULL.\<close>

record row =
  c_id :: string
  c_name :: "string option"
  c_image :: string
  c_runtime_id :: "string option"
  c_state :: string
  c_cpus :: "f64 option"
  c_memory_mb :: "int64 option"
  c_env_json :: "string option"
  c_labels_json :: "string option"
  c_created_at :: int
  c_expires_at :: "int option"

text \<open>\<open>db_plan\<close>: the outcomes of the coming statements (an error message, or success); when it
  runs out, statements succeed.\<close>

record sqlite =
  db_rows :: "row list"
  db_plan :: "string option list"

definition db_next :: "sqlite \<Rightarrow> string option \<times> sqlite" where
  "db_next s = (case db_plan s of [] \<Rightarrow> (None, s) | x # xs \<Rightarrow> (x, s\<lparr> db_plan := xs \<rparr>))"

definition row_of :: "sandbox \<Rightarrow> row" where
  "row_of sb =
     \<lparr> c_id = sb_id sb, c_name = Some (sb_name sb), c_image = sb_image sb,
       c_runtime_id = Some (sb_runtime_id sb), c_state = sb_state sb,
       c_cpus = (if sb_cpus sb = NaN then None else Some (sb_cpus sb)),
       c_memory_mb = Some (sb_memory_mb sb),
       c_env_json = Some (json_marshal (sb_env sb)),
       c_labels_json = Some (json_marshal (sb_labels sb)),
       c_created_at = unix (sb_created_at sb),
       c_expires_at = map_option unix (sb_expires_at sb) \<rparr>"

text \<open>\<open>INSERT ... ON CONFLICT(id) DO UPDATE\<close>: the update leaves \<open>created_at\<close> alone.\<close>

definition upsert :: "row \<Rightarrow> row list \<Rightarrow> row list" where
  "upsert r rows =
     (if c_id r \<in> c_id ` set rows
      then map (\<lambda>r'. if c_id r' = c_id r then r\<lparr> c_created_at := c_created_at r' \<rparr> else r') rows
      else rows @ [r])"

definition sqlite_put :: "sandbox \<Rightarrow> sqlite \<Rightarrow> store_error option \<times> sqlite" where
  "sqlite_put sb s =
     (case db_next s of
        (Some e, s') \<Rightarrow> (Some (StoreError e), s')
      | (None, s') \<Rightarrow> (None, s'\<lparr> db_rows := upsert (row_of sb) (db_rows s') \<rparr>))"

definition null_string :: "string option \<Rightarrow> string" where
  "null_string c = (case c of None \<Rightarrow> [] | Some x \<Rightarrow> x)"

definition scan_map :: "string option \<Rightarrow> smap" where
  "scan_map c = (case c of None \<Rightarrow> []
     | Some x \<Rightarrow> (if x = [] then [] else case json_unmarshal x of None \<Rightarrow> [] | Some m \<Rightarrow> m))"

definition scan :: "row \<Rightarrow> sandbox" where
  "scan r =
     \<lparr> sb_id = c_id r, sb_name = null_string (c_name r), sb_image = c_image r,
       sb_runtime_id = null_string (c_runtime_id r), sb_state = c_state r,
       sb_cpus = (case c_cpus r of None \<Rightarrow> Fin 0 | Some x \<Rightarrow> x),
       sb_memory_mb = (case c_memory_mb r of None \<Rightarrow> 0 | Some x \<Rightarrow> x),
       sb_env = scan_map (c_env_json r), sb_labels = scan_map (c_labels_json r),
       sb_created_at = of_unix (c_created_at r),
       sb_expires_at = map_option of_unix (c_expires_at r) \<rparr>"

definition sqlite_get :: "string \<Rightarrow> sqlite \<Rightarrow> (store_error + sandbox) \<times> sqlite" where
  "sqlite_get i s =
     (case db_next s of
        (Some e, s') \<Rightarrow> (Inl (StoreError e), s')
      | (None, s') \<Rightarrow>
          (case filter (\<lambda>r. c_id r = i) (db_rows s') of
             [] \<Rightarrow> (Inl ErrNotFound, s')
           | r # _ \<Rightarrow> (Inr (scan r), s')))"

definition sqlite_list :: "sqlite \<Rightarrow> (store_error + sandbox list) \<times> sqlite" where
  "sqlite_list s =
     (case db_next s of
        (Some e, s') \<Rightarrow> (Inl (StoreError e), s')
      | (None, s') \<Rightarrow> (Inr (map scan (sort_key (\<lambda>r. - c_created_at r) (db_rows s'))), s'))"

definition sqlite_expired :: "gotime \<Rightarrow> sqlite \<Rightarrow> (store_error + sandbox list) \<times> sqlite" where
  "sqlite_expired t s =
     (case db_next s of
        (Some e, s') \<Rightarrow> (Inl (StoreError e), s')
      | (None, s') \<Rightarrow>
          (Inr (map scan (sort_key (\<lambda>r. the (c_expires_at r))
             (filter (\<lambda>r. case c_expires_at r of None \<Rightarrow> False | Some x \<Rightarrow> x < unix t)
               (db_rows s')))), s'))"

definition sqlite_delete :: "string \<Rightarrow> sqlite \<Rightarrow> store_error option \<times> sqlite" where
  "sqlite_delete i s =
     (case db_next s of
        (Some e, s') \<Rightarrow> (Some (StoreError e), s')
      | (None, s') \<Rightarrow>
          (let left = filter (\<lambda>r. c_id r \<noteq> i) (db_rows s');
               n = length (db_rows s') - length left
           in (if n = 0 then Some ErrNotFound else None, s'\<lparr> db_rows := left \<rparr>)))"

definition sqlite_ping :: "sqlite \<Rightarrow> store_error option" where
  "sqlite_ping s = map_option StoreError (fst (db_next s))"

definition sqlite_ops :: "sqlite store_ops" where
  "sqlite_ops = \<lparr> st_put = sqlite_put, st_get = sqlite_get, st_list = sqlite_list,
     st_delete = sqlite_delete, st_expired = sqlite_expired, st_ping = Some sqlite_ping \<rparr>"

definition sqlite_open :: sqlite where
  "sqlite_open = \<lparr> db_rows = [], db_plan = [] \<rparr>"

section \<open>The SQLite store meets the contract\<close>

definition sqlite_view :: "sqlite \<Rightarrow> string \<Rightarrow> sandbox option" where
  "sqlite_view s i = map_of (map (\<lambda>r. (c_id r, scan r)) (db_rows s)) i"

definition sqlite_ok :: "sqlite \<Rightarrow> bool" where
  "sqlite_ok s \<longleftrightarrow> distinct (map c_id (db_rows s))"

definition sqlite_due :: "gotime \<Rightarrow> gotime \<Rightarrow> bool" where
  "sqlite_due x t \<longleftrightarrow> unix x < unix t"

lemma distinct_maps_copy [simp]:
  "distinct (map fst dst) \<Longrightarrow> distinct (map fst (maps_copy dst src))"
  unfolding maps_copy_def by (induction src arbitrary: dst) auto

lemma distinct_scan_map: "distinct (map fst (scan_map c))"
  by (auto simp: scan_map_def json_unmarshal_def split: option.splits list.splits)

lemma maps_ok_scan [simp]: "maps_ok (scan r)"
  by (simp add: maps_ok_def scan_def distinct_scan_map)

lemma json_marshal_not_Nil [simp]: "json_marshal m \<noteq> []"
  by (simp add: json_marshal_def)

lemma scan_map_marshal:
  "distinct (map fst m) \<Longrightarrow> map_of (scan_map (Some (json_marshal m))) = map_of m"
  using json_roundtrip [of m] by (auto simp: scan_map_def)

lemma scan_simps [simp]:
  "sb_id (scan r) = c_id r" "sb_expires_at (scan r) = map_option of_unix (c_expires_at r)"
  by (simp_all add: scan_def)

lemma unix_lag: "of_unix (unix t) \<le> t \<and> t - second_ns < of_unix (unix t)"
  unfolding unix_def of_unix_def second_ns_def by presburger

lemma same_sandbox_scan:
  assumes "maps_ok sb"
  shows "same_sandbox (scan ((row_of sb)\<lparr> c_created_at := t \<rparr>)) sb"
  using assms unix_lag
  by (auto simp: same_sandbox_def maps_ok_def scan_def row_of_def null_string_def scan_map_marshal
      option.rel_map intro: option.rel_refl)

lemma same_sandbox_scan_fresh: "maps_ok sb \<Longrightarrow> same_sandbox (scan (row_of sb)) sb"
  using same_sandbox_scan [of sb "c_created_at (row_of sb)"] by simp

lemma upsert_ids: "map c_id (upsert r rows) =
    map c_id rows @ (if c_id r \<in> c_id ` set rows then [] else [c_id r])"
  by (auto simp: upsert_def)

lemma row_of_id [simp]: "c_id (row_of sb) = sb_id sb"
  by (simp add: row_of_def)

definition stored_row :: "row \<Rightarrow> row list \<Rightarrow> row" where
  "stored_row r rows = (case find (\<lambda>r'. c_id r' = c_id r) rows of
     None \<Rightarrow> r | Some r' \<Rightarrow> r\<lparr> c_created_at := c_created_at r' \<rparr>)"

lemma map_of_upd_rows:
  "map_of (map (\<lambda>r. (c_id r, scan r))
     (map (\<lambda>r'. if c_id r' = c_id r then r\<lparr> c_created_at := c_created_at r' \<rparr> else r') rows)) i =
   (if i = c_id r
    then map_option (\<lambda>r'. scan (r\<lparr> c_created_at := c_created_at r' \<rparr>))
           (find (\<lambda>r'. c_id r' = c_id r) rows)
    else map_of (map (\<lambda>r. (c_id r, scan r)) rows) i)"
  by (induction rows) auto

lemma map_of_upsert:
  "map_of (map (\<lambda>r. (c_id r, scan r)) (upsert r rows)) =
     (map_of (map (\<lambda>r. (c_id r, scan r)) rows))(c_id r \<mapsto> scan (stored_row r rows))"
proof (cases "find (\<lambda>r'. c_id r' = c_id r) rows")
  case None
  then have "c_id r \<notin> c_id ` set rows" by (auto simp: find_None_iff)
  moreover from this have "map_of (map (\<lambda>r. (c_id r, scan r)) rows) (c_id r) = None"
    by (force simp: map_of_eq_None_iff)
  ultimately show ?thesis
    by (simp add: upsert_def stored_row_def None map_add_def fun_eq_iff split: option.split)
next
  case (Some r')
  then have "c_id r \<in> c_id ` set rows" by (auto simp: find_Some_iff) (metis image_eqI nth_mem)
  then show ?thesis
    unfolding upsert_def if_P by (simp add: fun_eq_iff map_of_upd_rows stored_row_def Some del: map_map)
qed

lemma sqlite_view_None: "sqlite_view s i = None \<longleftrightarrow> i \<notin> c_id ` set (db_rows s)"
  by (force simp: sqlite_view_def map_of_eq_None_iff)

lemma sqlite_view_Some:
  "sqlite_ok s \<Longrightarrow> sqlite_view s i = Some sb \<longleftrightarrow> (\<exists>r \<in> set (db_rows s). c_id r = i \<and> scan r = sb)"
  unfolding sqlite_view_def sqlite_ok_def
  by (subst map_of_eq_Some_iff) (auto simp: comp_def)

lemma sqlite_view_filter:
  "sqlite_view s i = map_option scan (case filter (\<lambda>r. c_id r = i) (db_rows s) of
     [] \<Rightarrow> None | r # _ \<Rightarrow> Some r)"
proof -
  have "map_of (map (\<lambda>r. (c_id r, scan r)) rows) i = map_option scan
     (case filter (\<lambda>r. c_id r = i) rows of [] \<Rightarrow> None | r # _ \<Rightarrow> Some r)" for rows
    by (induction rows) auto
  then show ?thesis by (simp add: sqlite_view_def)
qed

lemma ran_sqlite_view: "sqlite_ok s \<Longrightarrow> ran (sqlite_view s) = scan ` set (db_rows s)"
  by (auto simp: ran_def sqlite_view_Some)

lemma db_next_rows: "db_next s = (e, s') \<Longrightarrow> db_rows s' = db_rows s"
  by (auto simp: db_next_def split: list.splits)

lemma db_next_keeps:
  assumes "db_next s = (e, s')"
  shows "sqlite_view s' = sqlite_view s" and "sqlite_ok s' = sqlite_ok s"
  using db_next_rows [OF assms] by (simp_all add: sqlite_view_def sqlite_ok_def fun_eq_iff)

lemma sqlite_put_view:
  "sqlite_put sb s = (None, s') \<Longrightarrow> maps_ok sb \<Longrightarrow>
   sqlite_view s' = (sqlite_view s)(sb_id sb \<mapsto> scan (stored_row (row_of sb) (db_rows s)))
   \<and> (sqlite_ok s \<longrightarrow> sqlite_ok s')"
  by (auto simp: sqlite_put_def sqlite_view_def sqlite_ok_def map_of_upsert upsert_ids fun_eq_iff
      db_next_rows split: prod.splits option.splits simp flip: set_map)

lemma same_stored_row: "maps_ok sb \<Longrightarrow> same_sandbox (scan (stored_row (row_of sb) rows)) sb"
  by (auto simp: stored_row_def same_sandbox_scan same_sandbox_scan_fresh split: option.splits)

lemma distinct_sort_key_map:
  "distinct (map f xs) \<Longrightarrow> distinct (map f (sort_key k xs))"
  by (simp add: distinct_map)

lemma sqlite_delete_None:
  assumes "sqlite_ok s" and "st_delete sqlite_ops i s = (None, s')"
  shows "sqlite_ok s' \<and> sqlite_view s i \<noteq> None \<and> sqlite_view s' = (sqlite_view s)(i := None)"
proof -
  let ?left = "filter (\<lambda>r. c_id r \<noteq> i) (db_rows s)"
  obtain s1 where s1: "db_next s = (None, s1)" and s': "s' = s1\<lparr> db_rows := ?left \<rparr>"
    and "length (db_rows s) \<noteq> length ?left"
    using assms(2)
    by (auto simp: sqlite_ops_def sqlite_delete_def Let_def db_next_rows
        split: prod.splits option.splits if_splits)
  moreover have "?left = db_rows s" if "i \<notin> c_id ` set (db_rows s)"
    using that by (intro filter_True) auto
  ultimately have "i \<in> c_id ` set (db_rows s)" by metis
  moreover have "map_of (map (\<lambda>r. (c_id r, scan r)) (filter (\<lambda>r. c_id r \<noteq> i) rows)) k =
      ((map_of (map (\<lambda>r. (c_id r, scan r)) rows))(i := None)) k" for rows k
    by (induction rows) auto
  then have "sqlite_view s' = (sqlite_view s)(i := None)"
    by (simp add: s' sqlite_view_def fun_eq_iff)
  ultimately show ?thesis
    using assms(1) by (simp add: sqlite_view_None s' sqlite_ok_def distinct_map_filter)
qed

lemma sqlite_delete_Some:
  assumes "sqlite_ok s" and "st_delete sqlite_ops i s = (Some e, s')"
  shows "sqlite_ok s' \<and> sqlite_view s' = sqlite_view s \<and> (e = ErrNotFound \<longrightarrow> sqlite_view s i = None)"
proof (cases "db_next s")
  case (Pair x s1)
  note keeps = db_next_keeps [OF Pair] db_next_rows [OF Pair]
  show ?thesis
  proof (cases x)
    case None
    with Pair assms(2) keeps have "length (db_rows s) - length (filter (\<lambda>r. c_id r \<noteq> i) (db_rows s)) = 0"
      and s': "s' = s1\<lparr> db_rows := filter (\<lambda>r. c_id r \<noteq> i) (db_rows s) \<rparr>"
      by (auto simp: sqlite_ops_def sqlite_delete_def Let_def split: if_splits)
    then have "filter (\<lambda>r. c_id r \<noteq> i) (db_rows s) = db_rows s"
      by (metis diff_is_0_eq length_filter_le le_antisym filter_id_conv length_filter_less linorder_not_less)
    moreover from this have "i \<notin> c_id ` set (db_rows s)" by (auto simp: filter_id_conv)
    ultimately show ?thesis
      using s' assms(1) by (simp add: sqlite_view_None) (simp add: sqlite_view_def sqlite_ok_def fun_eq_iff)
  qed (use Pair assms keeps in \<open>auto simp: sqlite_ops_def sqlite_delete_def\<close>)
qed

lemma sqlite_expired_law:
  assumes ok: "sqlite_ok s" and ex: "st_expired sqlite_ops t s = (lres, s')"
  shows "sqlite_ok s' \<and> sqlite_view s' = sqlite_view s
      \<and> (\<forall>sbs. lres = Inr sbs \<longrightarrow> distinct (map sb_id sbs)
           \<and> set sbs = {sb \<in> ran (sqlite_view s). \<exists>x. sb_expires_at sb = Some x \<and> sqlite_due x t})"
proof (cases "db_next s")
  case (Pair x s1)
  let ?sel = "filter (\<lambda>r. case c_expires_at r of None \<Rightarrow> False | Some x \<Rightarrow> x < unix t) (db_rows s)"
  have "distinct (map c_id (sort_key (\<lambda>r. the (c_expires_at r)) ?sel))"
    using ok by (intro distinct_sort_key_map) (simp add: sqlite_ok_def distinct_map_filter)
  moreover have "scan ` set ?sel
      = {sb \<in> scan ` set (db_rows s). \<exists>x. sb_expires_at sb = Some x \<and> sqlite_due x t}"
    by (auto simp: sqlite_due_def split: option.splits)
  ultimately show ?thesis
    using Pair ex ok db_next_keeps [OF Pair] db_next_rows [OF Pair] ran_sqlite_view [OF ok]
    by (cases x) (auto simp: sqlite_ops_def sqlite_expired_def comp_def simp del: set_filter)
qed

interpretation sqlite: sandbox_store sqlite_ops sqlite_view sqlite_ok sqlite_due
proof unfold_locales
  fix s s' :: sqlite and sb :: sandbox
  assume "sqlite_ok s" "maps_ok sb" "st_put sqlite_ops sb s = (None, s')"
  then show "sqlite_ok s' \<and> (\<exists>sb'. same_sandbox sb' sb \<and> maps_ok sb'
      \<and> sqlite_view s' = (sqlite_view s)(sb_id sb \<mapsto> sb'))"
    using sqlite_put_view [of sb s s'] same_stored_row [of sb "db_rows s"]
    by (force simp: sqlite_ops_def)
next
  fix s s' :: sqlite and sb e
  assume "sqlite_ok s" "st_put sqlite_ops sb s = (Some e, s')"
  then show "sqlite_ok s' \<and> sqlite_view s' = sqlite_view s \<and> e \<noteq> ErrNotFound"
    by (auto simp: sqlite_ops_def sqlite_put_def dest: db_next_keeps split: prod.splits option.splits)
next
  fix s s' :: sqlite and i and res :: "store_error + sandbox"
  assume "sqlite_ok s" "st_get sqlite_ops i s = (res, s')"
  then show "sqlite_ok s' \<and> sqlite_view s' = sqlite_view s
      \<and> (case res of Inl e \<Rightarrow> e = ErrNotFound \<longrightarrow> sqlite_view s i = None
         | Inr sb \<Rightarrow> sqlite_view s i = Some sb)"
    by (cases "db_next s")
      (auto simp: sqlite_ops_def sqlite_get_def sqlite_view_filter [of s i] db_next_rows db_next_keeps
        split: option.splits list.splits)
next
  fix s s' :: sqlite and lres :: "store_error + sandbox list"
  assume "sqlite_ok s" "st_list sqlite_ops s = (lres, s')"
  then show "sqlite_ok s' \<and> sqlite_view s' = sqlite_view s
      \<and> (\<forall>sbs. lres = Inr sbs \<longrightarrow> set sbs = ran (sqlite_view s) \<and> distinct (map sb_id sbs))"
    by (cases "db_next s")
      (auto simp: sqlite_ops_def sqlite_list_def db_next_keeps db_next_rows ran_sqlite_view comp_def
        distinct_sort_key_map sqlite_ok_def [of s] split: option.splits)
next
  fix s s' :: sqlite and i
  assume "sqlite_ok s" "st_delete sqlite_ops i s = (None, s')"
  then show "sqlite_ok s' \<and> sqlite_view s i \<noteq> None \<and> sqlite_view s' = (sqlite_view s)(i := None)"
    by (rule sqlite_delete_None)
next
  fix s s' :: sqlite and i e
  assume "sqlite_ok s" "st_delete sqlite_ops i s = (Some e, s')"
  then show "sqlite_ok s' \<and> sqlite_view s' = sqlite_view s
      \<and> (e = ErrNotFound \<longrightarrow> sqlite_view s i = None)"
    by (rule sqlite_delete_Some)
next
  fix s s' :: sqlite and t and lres :: "store_error + sandbox list"
  assume ok: "sqlite_ok s" and "st_expired sqlite_ops t s = (lres, s')"
  then show "sqlite_ok s' \<and> sqlite_view s' = sqlite_view s
      \<and> (\<forall>sbs. lres = Inr sbs \<longrightarrow> distinct (map sb_id sbs)
           \<and> set sbs = {sb \<in> ran (sqlite_view s). \<exists>x. sb_expires_at sb = Some x \<and> sqlite_due x t})"
    by (rule sqlite_expired_law)
next
  fix s :: sqlite and i sb
  assume "sqlite_ok s" "sqlite_view s i = Some sb"
  then show "sb_id sb = i \<and> maps_ok sb" by (auto simp: sqlite_view_Some)
qed (simp add: sqlite_due_def unix_less_imp_less)

section \<open>The in-memory store of the tests\<close>

text \<open>\<open>memStore\<close>: a map, listed in the order of its association list.\<close>

type_synonym mem_store = "(string \<times> sandbox) list"

definition mem_put :: "sandbox \<Rightarrow> mem_store \<Rightarrow> store_error option \<times> mem_store" where
  "mem_put sb s = (None, AList.update (sb_id sb) sb s)"

definition mem_get :: "string \<Rightarrow> mem_store \<Rightarrow> (store_error + sandbox) \<times> mem_store" where
  "mem_get i s = (case map_of s i of None \<Rightarrow> Inl ErrNotFound | Some sb \<Rightarrow> Inr sb, s)"

definition mem_list :: "mem_store \<Rightarrow> (store_error + sandbox list) \<times> mem_store" where
  "mem_list s = (Inr (map snd s), s)"

definition mem_delete :: "string \<Rightarrow> mem_store \<Rightarrow> store_error option \<times> mem_store" where
  "mem_delete i s =
     (if map_of s i = None then (Some ErrNotFound, s) else (None, AList.delete i s))"

definition mem_expired :: "gotime \<Rightarrow> mem_store \<Rightarrow> (store_error + sandbox list) \<times> mem_store" where
  "mem_expired t s =
     (Inr (filter (\<lambda>sb. case sb_expires_at sb of None \<Rightarrow> False | Some x \<Rightarrow> x < t) (map snd s)), s)"

definition mem_ops :: "mem_store store_ops" where
  "mem_ops = \<lparr> st_put = mem_put, st_get = mem_get, st_list = mem_list, st_delete = mem_delete,
     st_expired = mem_expired, st_ping = None \<rparr>"

definition mem_ok :: "mem_store \<Rightarrow> bool" where
  "mem_ok s \<longleftrightarrow> distinct (map fst s) \<and> (\<forall>i sb. map_of s i = Some sb \<longrightarrow> sb_id sb = i \<and> maps_ok sb)"

lemma same_sandbox_refl [simp]: "same_sandbox sb sb"
  by (auto simp: same_sandbox_def intro!: option.rel_refl)

lemma mem_ok_Some: "mem_ok s \<Longrightarrow> map_of s i = Some sb \<Longrightarrow> sb_id sb = i \<and> maps_ok sb"
  by (simp add: mem_ok_def)

lemma mem_ok_distinct: "mem_ok s \<Longrightarrow> distinct (map fst s)"
  by (simp add: mem_ok_def)

lemma mem_ok_update: "mem_ok s \<Longrightarrow> maps_ok sb \<Longrightarrow> mem_ok (AList.update (sb_id sb) sb s)"
  by (simp add: mem_ok_def)

lemma mem_ok_delete: "mem_ok s \<Longrightarrow> mem_ok (AList.delete i s)"
  by (simp add: mem_ok_def distinct_delete)

lemma mem_ok_ids: "mem_ok s \<Longrightarrow> map sb_id (map snd s) = map fst s"
  unfolding mem_ok_def by (auto simp: map_of_eq_Some_iff)

lemma mem_ok_ran: "mem_ok s \<Longrightarrow> ran (map_of s) = snd ` set s"
  by (simp add: mem_ok_def ran_distinct)

interpretation mem: sandbox_store mem_ops map_of mem_ok "(<)"
proof unfold_locales
  fix s s' :: mem_store and lres :: "store_error + sandbox list"
  assume "mem_ok s" "st_list mem_ops s = (lres, s')"
  then show "mem_ok s' \<and> map_of s' = map_of s
      \<and> (\<forall>sbs. lres = Inr sbs \<longrightarrow> set sbs = ran (map_of s) \<and> distinct (map sb_id sbs))"
    using mem_ok_ids [of s] mem_ok_ran [of s] mem_ok_distinct [of s]
    by (auto simp: mem_ops_def mem_list_def image_iff simp del: map_map) force
next
  fix s s' :: mem_store and t and lres :: "store_error + sandbox list"
  assume ok: "mem_ok s" and "st_expired mem_ops t s = (lres, s')"
  moreover have "distinct (map sb_id (map snd s))"
    using ok mem_ok_ids [of s] by (simp add: mem_ok_def del: map_map)
  then have "distinct (map sb_id (filter (\<lambda>sb. case sb_expires_at sb of None \<Rightarrow> False | Some x \<Rightarrow> x < t)
      (map snd s)))" by (rule distinct_map_filter)
  ultimately show "mem_ok s' \<and> map_of s' = map_of s
      \<and> (\<forall>sbs. lres = Inr sbs \<longrightarrow> distinct (map sb_id sbs)
           \<and> set sbs = {sb \<in> ran (map_of s). \<exists>x. sb_expires_at sb = Some x \<and> x < t})"
    by (auto simp: mem_ops_def mem_expired_def mem_ok_ran image_iff Bex_def split: option.splits)
qed (auto simp: mem_ops_def mem_put_def mem_get_def mem_delete_def mem_ok_Some mem_ok_update
    mem_ok_delete fun_eq_iff split: option.splits if_splits)

section \<open>Properties\<close>

text \<open>C36. The SQLite store meets the contract of the \<open>Store\<close> interface, whichever statements
  fail: a failed operation changes nothing and is never reported as "not found", \<open>Put\<close> replaces
  exactly its own row, \<open>Get\<close> and \<open>List\<close> show exactly the rows, \<open>Delete\<close> removes exactly its own
  and tells when there was none, and \<open>ExpiredBefore\<close> selects by the expiry in whole seconds.\<close>

theorem sqlite_meets_contract: "sandbox_store sqlite_ops sqlite_view sqlite_ok sqlite_due"
  by (rule sqlite.sandbox_store_axioms)

definition demo_sandbox :: "string \<Rightarrow> gotime \<Rightarrow> gotime option \<Rightarrow> sandbox" where
  "demo_sandbox i created expires =
     \<lparr> sb_id = i, sb_name = ''box'', sb_image = ''alpine:latest'', sb_runtime_id = ''rt-1'',
       sb_state = state_running, sb_cpus = Fin 1, sb_memory_mb = 512,
       sb_env = [(''A'', ''1'')], sb_labels = [], sb_created_at = created,
       sb_expires_at = expires \<rparr>"

lemma demo_sandbox_simps [simp]:
  "maps_ok (demo_sandbox i c x)" "sb_id (demo_sandbox i c x) = i"
  "sb_expires_at (demo_sandbox i c x) = x" "sqlite_ok sqlite_open" "db_plan sqlite_open = []"
  by (simp_all add: maps_ok_def demo_sandbox_def sqlite_ok_def sqlite_open_def)

lemma sqlite_put_ok: "db_plan s = [] \<Longrightarrow>
    sqlite_put sb s = (None, s\<lparr> db_rows := upsert (row_of sb) (db_rows s) \<rparr>)"
  by (simp add: sqlite_put_def db_next_def)

lemma sqlite_get_view: "db_plan s = [] \<Longrightarrow> sqlite_get i s =
    (case sqlite_view s i of None \<Rightarrow> Inl ErrNotFound | Some sb \<Rightarrow> Inr sb, s)"
  by (auto simp: sqlite_get_def db_next_def sqlite_view_filter split: list.splits)

lemma stored_created:
  "sb_created_at (scan (stored_row (row_of sb) (db_rows s))) =
     (case sqlite_view s (sb_id sb) of
        Some old \<Rightarrow> sb_created_at old | None \<Rightarrow> of_unix (unix (sb_created_at sb)))"
proof -
  have "map_of (map (\<lambda>r. (c_id r, scan r)) rows) i = map_option scan (find (\<lambda>r. c_id r = i) rows)"
    for rows i by (induction rows) auto
  then show ?thesis
    by (auto simp: sqlite_view_def stored_row_def scan_def row_of_def split: option.splits)
qed

lemma of_unix_mono: "x \<le> y \<Longrightarrow> of_unix x \<le> of_unix y"
  by (simp add: of_unix_def second_ns_def)

lemma unix_next: "x + second_ns \<le> t \<Longrightarrow> unix x < unix t"
  using unix_mono [of "x + second_ns" t] second_ns_pos unfolding unix_def by simp

lemma sqlite_expired_sorted:
  assumes "sqlite_expired now s = (Inr sbs, s')"
  shows "sorted (map (\<lambda>sb. the (sb_expires_at sb)) sbs)"
proof -
  let ?sel = "filter (\<lambda>r. case c_expires_at r of None \<Rightarrow> False | Some x \<Rightarrow> x < unix now) (db_rows s')"
  let ?rs = "sort_key (\<lambda>r. the (c_expires_at r)) ?sel"
  have sbs: "sbs = map scan ?rs"
  proof (cases "db_next s")
    case (Pair e s1)
    with assms show ?thesis by (cases e) (auto simp: sqlite_expired_def)
  qed
  have "c_expires_at r \<noteq> None" if "r \<in> set ?rs" for r
    using that by (auto split: option.splits)
  then have "map (\<lambda>sb. the (sb_expires_at sb)) sbs = map of_unix (map (\<lambda>r. the (c_expires_at r)) ?rs)"
    by (simp add: sbs option.map_sel del: set_sort)
  moreover have "sorted (map of_unix xs)" if "sorted xs" for xs
    using that by (simp add: sorted_iff_nth_mono of_unix_mono)
  ultimately show ?thesis by (simp only: sorted_sort_key)
qed



text \<open>Expiry is never early and at most one second late. After a sandbox was put with expiry
  \<open>x\<close>, a query at time \<open>now\<close> selects it exactly when the second of \<open>x\<close> is over: not before \<open>x\<close>,
  and certainly from \<open>x\<close> plus one second on. Rows without an expiry are never selected, and the
  result is in order of expiry.\<close>

theorem sqlite_expiry_timing:
  assumes "sqlite_ok s" and "maps_ok sb" and "sqlite_put sb s = (None, s1)"
    and "sqlite_expired now s1 = (Inr sbs, s2)"
  shows "(case sb_expires_at sb of
       None \<Rightarrow> sb_id sb \<notin> sb_id ` set sbs
     | Some x \<Rightarrow> (sb_id sb \<in> sb_id ` set sbs \<longleftrightarrow> unix x < unix now)
         \<and> (sb_id sb \<in> sb_id ` set sbs \<longrightarrow> x < now)
         \<and> (x + second_ns \<le> now \<longrightarrow> sb_id sb \<in> sb_id ` set sbs))
    \<and> sorted (map (\<lambda>sb. the (sb_expires_at sb)) sbs)"
proof -
  let ?r = "stored_row (row_of sb) (db_rows s)"
  have ok1: "sqlite_ok s1" and view: "sqlite_view s1 (sb_id sb) = Some (scan ?r)"
    using sqlite_put_view [OF assms(3,2)] assms(1) by simp_all
  have sel: "set sbs = {sb \<in> ran (sqlite_view s1). \<exists>x. sb_expires_at sb = Some x \<and> sqlite_due x now}"
    using sqlite.expired [OF ok1, of now "Inr sbs" s2] assms(4) by (simp add: sqlite_ops_def)
  have "sb_id sb \<in> sb_id ` set sbs \<longleftrightarrow> (\<exists>x. sb_expires_at (scan ?r) = Some x \<and> sqlite_due x now)"
    using sqlite.view_id [OF ok1] view by (auto simp: sel ran_def image_iff) force
  also have "\<dots> \<longleftrightarrow> (\<exists>x. sb_expires_at sb = Some x \<and> unix x < unix now)"
    by (auto simp: sqlite_due_def stored_row_def row_of_def split: option.splits)
  finally have iff: "sb_id sb \<in> sb_id ` set sbs \<longleftrightarrow> (\<exists>x. sb_expires_at sb = Some x \<and> unix x < unix now)" .
  have "sorted (map (\<lambda>sb. the (sb_expires_at sb)) sbs)"
    using assms(4) by (rule sqlite_expired_sorted)
  then show ?thesis
    using iff unix_mono unix_next by (auto split: option.splits dest: unix_less_imp_less)
qed

theorem sqlite_expiry_timing_witness:
  "(let s1 = snd (sqlite_put (demo_sandbox ''a'' 0 (Some 2500000000)) sqlite_open) in
    \<exists>sbs. fst (sqlite_expired 3000000000 s1) = Inr sbs \<and> ''a'' \<in> sb_id ` set sbs)"
proof -
  let ?sb = "demo_sandbox ''a'' 0 (Some 2500000000)"
  let ?s1 = "snd (sqlite_put ?sb sqlite_open)"
  have p: "sqlite_put ?sb sqlite_open = (None, ?s1)" "db_plan ?s1 = []"
    by (simp_all add: sqlite_put_ok)
  then obtain sbs s2 where e: "sqlite_expired 3000000000 ?s1 = (Inr sbs, s2)"
    by (simp add: sqlite_expired_def db_next_def)
  have "unix 2500000000 < unix 3000000000" by (simp add: unix_def second_ns_def)
  with sqlite_expiry_timing [OF _ _ p(1) e] have "''a'' \<in> sb_id ` set sbs" by simp
  with e show ?thesis by (auto simp: Let_def)
qed

end
