(* ===== verification/Metrics.thy ===== *)
theory Metrics
  imports Prelude
begin

text \<open>
  The package \<open>internal/metrics\<close>: the live recorder \<open>Kpd\<close> as the values of its counters and its
  gauge. A recorder is optional; \<open>None\<close> is the \<open>Noop\<close> recorder, which drops every call.
\<close>

record metrics =
  mt_created :: "string \<times> string \<times> string \<Rightarrow> nat"
  mt_active :: int
  mt_pool_hit :: "string \<Rightarrow> nat"
  mt_pool_miss :: "string \<Rightarrow> nat"
  mt_reaped :: nat

type_synonym recorder = "metrics option"

definition new_metrics :: metrics where
  "new_metrics = \<lparr> mt_created = (\<lambda>_. 0), mt_active = 0, mt_pool_hit = (\<lambda>_. 0),
     mt_pool_miss = (\<lambda>_. 0), mt_reaped = 0 \<rparr>"

definition noop :: recorder where
  "noop = None"

definition sandbox_created :: "string \<Rightarrow> string \<Rightarrow> string \<Rightarrow> recorder \<Rightarrow> recorder" where
  "sandbox_created img prof outcome = map_option (\<lambda>k.
     k\<lparr> mt_created := (mt_created k)
          ((img, prof, outcome) := mt_created k (img, prof, outcome) + 1) \<rparr>)"

definition set_sandbox_active :: "int \<Rightarrow> recorder \<Rightarrow> recorder" where
  "set_sandbox_active n = map_option (\<lambda>k. k\<lparr> mt_active := n \<rparr>)"

definition pool_hit :: "string \<Rightarrow> recorder \<Rightarrow> recorder" where
  "pool_hit img = map_option (\<lambda>k.
     k\<lparr> mt_pool_hit := (mt_pool_hit k)(img := mt_pool_hit k img + 1) \<rparr>)"

definition pool_miss :: "string \<Rightarrow> recorder \<Rightarrow> recorder" where
  "pool_miss img = map_option (\<lambda>k.
     k\<lparr> mt_pool_miss := (mt_pool_miss k)(img := mt_pool_miss k img + 1) \<rparr>)"

definition reaper_swept :: "nat \<Rightarrow> recorder \<Rightarrow> recorder" where
  "reaper_swept n = map_option (\<lambda>k. k\<lparr> mt_reaped := mt_reaped k + n \<rparr>)"

lemmas recorder_defs = sandbox_created_def set_sandbox_active_def pool_hit_def pool_miss_def
  reaper_swept_def

end
