(* ===== verification/Manager.thy ===== *)
theory Manager
  imports Strconv Policy Logbuf Runtime Pool Store Metrics
begin

text \<open>
  The orchestrator \<open>internal/sandbox/manager.go\<close>: one operation of the model per method of
  \<open>Manager\<close>, over a state that holds the backend, the store, the policy, the pools, the log
  buffers and the metrics. Pools are pointers in the code, and \<open>ReplacePolicy\<close> compares and keeps
  them, so \<open>m_heap\<close> holds every pool ever built and \<open>m_pools\<close> maps images to positions in it.
  Fresh identifiers (\<open>uuid.NewString\<close>) and the clock are arguments. Each method is modelled as it
  runs alone; the goroutine in which \<open>ReplacePolicy\<close> shuts down retired pools is the separate
  operation \<open>retire\<close>, on the queue \<open>m_retiring\<close>.
\<close>

section \<open>State\<close>

record ('r, 's) manager =
  m_rt :: 'r
  m_store :: 's
  m_policy :: policy
  m_pools :: "(string \<times> nat) list"
  m_heap :: "pool list"
  m_retiring :: "nat list"
  m_started :: bool
  m_metrics :: recorder
  m_log_cap :: int
  m_logs :: "(string \<times> buffer) list"

datatype mgr_error =
    RuntimeRequired | StoreRequired | PolicyRequired
  | PolicyInvalid validate_error
  | PolicyDenied policy_violation
  | EnsureImage string rt_error
  | PoolFailed string rt_error
  | WarmPool string rt_error
  | ShutdownFailed "(string \<times> rt_error list) list"
  | StorePut store_error
  | StoreFailed store_error
  | RuntimeCreate rt_error
  | RuntimeFailed rt_error
  | NotRunning string state

definition default_log_buffer_bytes :: int where
  "default_log_buffer_bytes = 256 * 1024"

section \<open>Pools of a policy\<close>

definition pool_spec_for :: "policy \<Rightarrow> image_entry \<Rightarrow> spec" where
  "pool_spec_for pol im =
     \<lparr> sp_name = [], sp_image = im_name im, sp_cmd = [], sp_env = [],
       sp_cpus = f64_or (im_cpus im) (d_cpus (po_defaults pol)),
       sp_memory_mb = int64_or (im_memory_mb im) (d_memory_mb (po_defaults pol)),
       sp_pids_limit = d_pids_limit (po_defaults pol),
       sp_user = d_user (po_defaults pol),
       sp_read_only = d_read_only (po_defaults pol),
       sp_network_mode = d_network_mode (po_defaults pol),
       sp_runtime_name = d_runtime (po_defaults pol),
       sp_egress = \<lparr> re_mode = [], re_hosts = [] \<rparr>, sp_labels = [], sp_ttl = 0 \<rparr>"

definition pooled :: "image_entry \<Rightarrow> bool" where
  "pooled im \<longleftrightarrow> 0 < im_pool im
     \<and> (case im_egress im of None \<Rightarrow> True | Some e \<Rightarrow> egress_mode_none (eg_mode e))"

definition warm_pool :: "policy \<Rightarrow> image_entry \<Rightarrow> pool" where
  "warm_pool pol im = new_pool (im_name im) (im_pool im) (pool_spec_for pol im)"

definition build_pools :: "policy \<Rightarrow> (string \<times> pool) list" where
  "build_pools pol = fold (\<lambda>im out.
     if pooled im then AList.update (im_name im) (warm_pool pol im) out else out) (po_images pol) []"

text \<open>Placing built pools in the heap, from position \<open>n\<close> on.\<close>

definition place :: "nat \<Rightarrow> (string \<times> pool) list \<Rightarrow> (string \<times> nat) list" where
  "place n ps = zip (map fst ps) [n..<n + length ps]"

definition new_manager ::
    "'r option \<Rightarrow> 's option \<Rightarrow> policy option \<Rightarrow> int \<Rightarrow> recorder \<Rightarrow> mgr_error + ('r, 's) manager" where
  "new_manager rt st pol log_bytes rec =
     (case rt of
        None \<Rightarrow> Inl RuntimeRequired
      | Some r \<Rightarrow>
          (case st of
             None \<Rightarrow> Inl StoreRequired
           | Some s \<Rightarrow>
               (let p = (case pol of None \<Rightarrow> default_policy | Some p \<Rightarrow> p);
                    pools = build_pools p
                in Inr \<lparr> m_rt = r, m_store = s, m_policy = p, m_pools = place 0 pools,
                         m_heap = map snd pools, m_retiring = [], m_started = False,
                         m_metrics = rec,
                         m_log_cap = (if log_bytes = 0 then default_log_buffer_bytes else log_bytes),
                         m_logs = [] \<rparr>)))"

section \<open>Log buffers\<close>

definition log_buffer_for :: "string \<Rightarrow> ('r, 's) manager \<Rightarrow> buffer option \<times> ('r, 's) manager" where
  "log_buffer_for i m =
     (if m_log_cap m \<le> 0 then (None, m)
      else case map_of (m_logs m) i of
        Some b \<Rightarrow> (Some b, m)
      | None \<Rightarrow>
          (let b = new_buffer (m_log_cap m)
           in (Some b, m\<lparr> m_logs := AList.update i b (m_logs m) \<rparr>)))"

definition drop_log_buffer :: "string \<Rightarrow> ('r, 's) manager \<Rightarrow> ('r, 's) manager" where
  "drop_log_buffer i m = m\<lparr> m_logs := AList.delete i (m_logs m) \<rparr>"

text \<open>A buffer is a pointer: what is written to it is seen by the next lookup.\<close>

definition set_log_buffer :: "string \<Rightarrow> buffer \<Rightarrow> ('r, 's) manager \<Rightarrow> ('r, 's) manager" where
  "set_log_buffer i b m = m\<lparr> m_logs := AList.update i b (m_logs m) \<rparr>"

section \<open>Health\<close>

record health_check =
  hc_ok :: bool
  hc_detail :: string

record health_report =
  hr_status :: string
  hr_checks :: "(string \<times> health_check) list"

definition health_check_of :: "string option \<Rightarrow> bool \<Rightarrow> health_check" where
  "health_check_of err ok =
     (case err of None \<Rightarrow> \<lparr> hc_ok = ok, hc_detail = [] \<rparr>
      | Some e \<Rightarrow> \<lparr> hc_ok = False, hc_detail = e \<rparr>)"

definition store_message :: "store_error \<Rightarrow> string" where
  "store_message e = (case e of ErrNotFound \<Rightarrow> ''sandbox not found'' | StoreError s \<Rightarrow> s)"

definition rt_message :: "rt_error \<Rightarrow> string" where
  "rt_message e = (case e of ErrNoProxy \<Rightarrow> ''sandbox has no egress proxy'' | RtError s \<Rightarrow> s)"

definition pool_check :: "pool \<Rightarrow> health_check" where
  "pool_check p =
     (let ok = pool_available p > 0 \<or> p_target p = 0
      in health_check_of (if ok then None else Some (''0/'' @ itoa (p_target p) @ '' warm'')) ok)"

definition health ::
    "'r runtime_ops \<Rightarrow> 's store_ops \<Rightarrow> ('r, 's) manager \<Rightarrow> health_report" where
  "health rt st m =
     (let checks =
        [(''store'', case st_ping st of None \<Rightarrow> health_check_of None True
            | Some ping \<Rightarrow> health_check_of (map_option store_message (ping (m_store m))) True),
         (''runtime'', case rt_ping rt of None \<Rightarrow> health_check_of None True
            | Some ping \<Rightarrow> health_check_of (map_option rt_message (ping (m_rt m))) True)]
        @ map (\<lambda>(img, i). (''pool:'' @ img, pool_check (m_heap m ! i))) (m_pools m)
      in \<lparr> hr_status = (if list_all (\<lambda>(_, c). hc_ok c) checks then ''ok'' else ''degraded''),
           hr_checks = checks \<rparr>)"

section \<open>Start, Shutdown, ReplacePolicy\<close>

definition put_pool :: "nat \<Rightarrow> pool \<Rightarrow> 'r \<Rightarrow> ('r, 's) manager \<Rightarrow> ('r, 's) manager" where
  "put_pool i p r m = m\<lparr> m_heap := (m_heap m)[i := p], m_rt := r \<rparr>"

fun ensure_images ::
    "(string \<Rightarrow> 'r \<Rightarrow> (rt_error + bool) \<times> 'r) \<Rightarrow> image_entry list \<Rightarrow> 'r \<Rightarrow> (string \<times> rt_error) option \<times> 'r" where
  "ensure_images ensure [] r = (None, r)"
| "ensure_images ensure (im # ims) r =
     (case ensure (im_name im) r of
        (Inl e, r') \<Rightarrow> (Some (im_name im, e), r')
      | (Inr pulled, r') \<Rightarrow> ensure_images ensure ims r')"

fun start_pools ::
    "'r runtime_ops \<Rightarrow> (string \<times> nat) list \<Rightarrow> ('r, 's) manager
      \<Rightarrow> (string \<times> rt_error) option \<times> ('r, 's) manager" where
  "start_pools rt [] m = (None, m)"
| "start_pools rt ((img, i) # ps) m =
     (case pool_start rt (m_heap m ! i) (m_rt m) of
        (Some e, p', r') \<Rightarrow> (Some (img, e), put_pool i p' r' m)
      | (None, p', r') \<Rightarrow> start_pools rt ps (put_pool i p' r' m))"

definition clean_orphans :: "'r runtime_ops \<Rightarrow> 'r \<Rightarrow> 'r" where
  "clean_orphans rt r = (case rt_clean_orphans rt of None \<Rightarrow> r | Some clean \<Rightarrow> snd (clean r))"

definition start :: "'r runtime_ops \<Rightarrow> ('r, 's) manager \<Rightarrow> mgr_error option \<times> ('r, 's) manager" where
  "start rt m =
     (let r1 = clean_orphans rt (m_rt m);
          (err, r2) = (case rt_ensure_image rt of None \<Rightarrow> (None, r1)
             | Some ensure \<Rightarrow> ensure_images ensure (po_images (m_policy m)) r1);
          m2 = m\<lparr> m_rt := r2 \<rparr>
      in case err of
           Some (img, e) \<Rightarrow> (Some (EnsureImage img e), m2)
         | None \<Rightarrow>
             (case start_pools rt (m_pools m) m2 of
                (Some (img, e), m3) \<Rightarrow> (Some (PoolFailed img e), m3)
              | (None, m3) \<Rightarrow> (None, m3\<lparr> m_started := True \<rparr>)))"

fun shutdown_pools ::
    "'r runtime_ops \<Rightarrow> nat list \<Rightarrow> ('r, 's) manager \<Rightarrow> rt_error list list \<times> ('r, 's) manager" where
  "shutdown_pools rt [] m = ([], m)"
| "shutdown_pools rt (i # is) m =
     (let (errs, p', r') = pool_shutdown rt (m_heap m ! i) (m_rt m);
          (rest, m') = shutdown_pools rt is (put_pool i p' r' m)
      in (errs # rest, m'))"

definition shutdown :: "'r runtime_ops \<Rightarrow> ('r, 's) manager \<Rightarrow> mgr_error option \<times> ('r, 's) manager" where
  "shutdown rt m =
     (let (errs, m') = shutdown_pools rt (map snd (m_pools m)) m;
          failed = filter (\<lambda>(_, es). es \<noteq> []) (zip (map fst (m_pools m)) errs)
      in (if failed = [] then None else Some (ShutdownFailed failed), m'))"

text \<open>\<open>reflect.DeepEqual\<close> on the specs of two pools, and \<open>samePoolSpec\<close>.\<close>

definition spec_deep_equal :: "spec \<Rightarrow> spec \<Rightarrow> bool" where
  "spec_deep_equal a b \<longleftrightarrow> sp_name a = sp_name b \<and> sp_image a = sp_image b \<and> sp_cmd a = sp_cmd b
     \<and> map_eq (sp_env a) (sp_env b) \<and> f64_eq (sp_cpus a) (sp_cpus b)
     \<and> sp_memory_mb a = sp_memory_mb b \<and> sp_pids_limit a = sp_pids_limit b
     \<and> sp_user a = sp_user b \<and> sp_read_only a = sp_read_only b
     \<and> sp_network_mode a = sp_network_mode b \<and> sp_runtime_name a = sp_runtime_name b
     \<and> sp_egress a = sp_egress b \<and> map_eq (sp_labels a) (sp_labels b) \<and> sp_ttl a = sp_ttl b"

definition same_pool_spec :: "pool \<Rightarrow> pool \<Rightarrow> bool" where
  "same_pool_spec a b \<longleftrightarrow> p_image a = p_image b \<and> p_target a = p_target b
     \<and> spec_deep_equal (p_spec a) (p_spec b)"

text \<open>The reconciliation: for each desired pool, the old one at this image when it warms the same
  spec, else the new one, placed in the heap.\<close>

fun merge_pools ::
    "(string \<times> nat) list \<Rightarrow> (string \<times> pool) list \<Rightarrow> pool list
      \<Rightarrow> (string \<times> nat) list \<times> nat list \<times> pool list" where
  "merge_pools old [] heap = ([], [], heap)"
| "merge_pools old ((img, newp) # ds) heap =
     (case map_of old img of
        Some i \<Rightarrow>
          (if same_pool_spec (heap ! i) newp
           then (let (merged, to_start, heap') = merge_pools old ds heap
                 in ((img, i) # merged, to_start, heap'))
           else (let (merged, to_start, heap') = merge_pools old ds (heap @ [newp])
                 in ((img, length heap) # merged, length heap # to_start, heap')))
      | None \<Rightarrow>
          (let (merged, to_start, heap') = merge_pools old ds (heap @ [newp])
           in ((img, length heap) # merged, length heap # to_start, heap')))"

text \<open>Warming the new pools; when one fails, those already warmed are shut down.\<close>

fun warm_pools ::
    "'r runtime_ops \<Rightarrow> nat list \<Rightarrow> nat list \<Rightarrow> ('r, 's) manager
      \<Rightarrow> (string \<times> rt_error) option \<times> ('r, 's) manager" where
  "warm_pools rt warmed [] m = (None, m)"
| "warm_pools rt warmed (i # is) m =
     (case pool_start rt (m_heap m ! i) (m_rt m) of
        (Some e, p', r') \<Rightarrow>
          (Some (p_image p', e), snd (shutdown_pools rt warmed (put_pool i p' r' m)))
      | (None, p', r') \<Rightarrow> warm_pools rt (warmed @ [i]) is (put_pool i p' r' m))"

definition replace_policy ::
    "'r runtime_ops \<Rightarrow> policy option \<Rightarrow> ('r, 's) manager \<Rightarrow> mgr_error option \<times> ('r, 's) manager" where
  "replace_policy rt new_policy m =
     (case new_policy of
        None \<Rightarrow> (Some PolicyRequired, m)
      | Some pol \<Rightarrow>
          (case validate pol of
             Some e \<Rightarrow> (Some (PolicyInvalid e), m)
           | None \<Rightarrow>
               (let (merged, to_start, heap') = merge_pools (m_pools m) (build_pools pol) (m_heap m);
                    to_shutdown = map snd (filter (\<lambda>(img, i). map_of merged img \<noteq> Some i) (m_pools m));
                    m1 = m\<lparr> m_heap := heap' \<rparr>
                in case (if m_started m then warm_pools rt [] to_start m1 else (None, m1)) of
                     (Some (img, e), m2) \<Rightarrow> (Some (WarmPool img e), m2)
                   | (None, m2) \<Rightarrow>
                       (None, m2\<lparr> m_policy := pol, m_pools := merged,
                                 m_retiring := m_retiring m2 @ to_shutdown \<rparr>))))"

text \<open>One iteration of the goroutine that shuts down retired pools; its errors are only logged.\<close>

definition retire :: "'r runtime_ops \<Rightarrow> ('r, 's) manager \<Rightarrow> ('r, 's) manager" where
  "retire rt m =
     (case m_retiring m of
        [] \<Rightarrow> m
      | i # is \<Rightarrow> snd (shutdown_pools rt [i] (m\<lparr> m_retiring := is \<rparr>)))"

text \<open>One round of the refill goroutine of pool \<open>i\<close>.\<close>

definition refill_pool :: "'r runtime_ops \<Rightarrow> nat \<Rightarrow> ('r, 's) manager \<Rightarrow> ('r, 's) manager" where
  "refill_pool rt i m =
     (if i < length (m_heap m) \<and> p_signal (m_heap m ! i) then
        (case refill rt ((m_heap m ! i)\<lparr> p_signal := False \<rparr>) (m_rt m) of
           (_, p', r') \<Rightarrow> put_pool i p' r' m)
      else m)"

section \<open>Create\<close>

record create_options =
  co_name :: string
  co_profile :: string
  co_image :: string
  co_cmd :: "string list"
  co_env :: smap
  co_cpus :: f64
  co_memory_mb :: int64
  co_ttl :: duration
  co_labels :: smap

definition request_of :: "create_options \<Rightarrow> request" where
  "request_of opts =
     \<lparr> rq_profile = co_profile opts, rq_image = co_image opts, rq_cmd = co_cmd opts,
       rq_env = co_env opts, rq_cpus = co_cpus opts, rq_memory_mb = co_memory_mb opts,
       rq_ttl = co_ttl opts, rq_name = co_name opts, rq_labels = co_labels opts \<rparr>"

definition empty_sandbox :: sandbox where
  "empty_sandbox = \<lparr> sb_id = [], sb_name = [], sb_image = [], sb_runtime_id = [], sb_state = [],
     sb_cpus = Fin 0, sb_memory_mb = 0, sb_env = [], sb_labels = [], sb_created_at = 0,
     sb_expires_at = None \<rparr>"

definition label_sandbox_id :: string where
  "label_sandbox_id = ''kotakpasir.sandbox-id''"

definition merge_labels :: "smap \<Rightarrow> string \<Rightarrow> smap" where
  "merge_labels labels sandbox_id =
     AList.update label_managed ''true''
       (AList.update label_sandbox_id sandbox_id (maps_copy [] labels))"

definition new_sandbox :: "resolved \<Rightarrow> string \<Rightarrow> gotime \<Rightarrow> sandbox" where
  "new_sandbox res uuid now =
     \<lparr> sb_id = uuid, sb_name = rs_name res, sb_image = rs_image res, sb_runtime_id = [],
       sb_state = state_created, sb_cpus = rs_cpus res, sb_memory_mb = rs_memory_mb res,
       sb_env = rs_env res, sb_labels = rs_labels res, sb_created_at = now,
       sb_expires_at = (if pos64 (rs_ttl res) then Some (now + sint (rs_ttl res)) else None) \<rparr>"

definition runtime_spec :: "resolved \<Rightarrow> string \<Rightarrow> spec" where
  "runtime_spec res uuid =
     \<lparr> sp_name = uuid, sp_image = rs_image res, sp_cmd = rs_cmd res, sp_env = rs_env res,
       sp_cpus = rs_cpus res, sp_memory_mb = rs_memory_mb res, sp_pids_limit = rs_pids_limit res,
       sp_user = rs_user res, sp_read_only = rs_read_only res,
       sp_network_mode = rs_network_mode res, sp_runtime_name = rs_runtime_name res,
       sp_egress = \<lparr> re_mode = eg_mode (rs_egress res), re_hosts = eg_hosts (rs_egress res) \<rparr>,
       sp_labels = merge_labels (rs_labels res) uuid, sp_ttl = rs_ttl res \<rparr>"

definition count_running :: "sandbox list \<Rightarrow> nat" where
  "count_running sbs = length (filter (\<lambda>sb. sb_state sb = state_running) sbs)"

definition refresh_active :: "'s store_ops \<Rightarrow> ('r, 's) manager \<Rightarrow> ('r, 's) manager" where
  "refresh_active st m =
     (case st_list st (m_store m) of
        (Inl _, s') \<Rightarrow> m\<lparr> m_store := s' \<rparr>
      | (Inr sbs, s') \<Rightarrow>
          m\<lparr> m_store := s',
            m_metrics := set_sandbox_active (int (count_running sbs)) (m_metrics m) \<rparr>)"

definition pool_matches_resolved :: "policy \<Rightarrow> resolved \<Rightarrow> bool" where
  "pool_matches_resolved pol res =
     (if eg_mode (rs_egress res) \<noteq> [] \<and> eg_mode (rs_egress res) \<noteq> egress_none then False
      else case find_image (po_images pol) (rs_image res) of
        None \<Rightarrow> False
      | Some im \<Rightarrow>
          f64_eq (rs_cpus res) (f64_or (im_cpus im) (d_cpus (po_defaults pol)))
          \<and> rs_memory_mb res = int64_or (im_memory_mb im) (d_memory_mb (po_defaults pol)))"

definition try_claim :: "resolved \<Rightarrow> ('r, 's) manager \<Rightarrow> string option \<times> ('r, 's) manager" where
  "try_claim res m =
     (case map_of (m_pools m) (rs_image res) of
        None \<Rightarrow> (None, m)
      | Some i \<Rightarrow>
          (if \<not> pool_matches_resolved (m_policy m) res then (None, m)
           else case pool_get (m_heap m ! i) of
             (None, p') \<Rightarrow> (None, m)
           | (Some c, p') \<Rightarrow> (Some c, m\<lparr> m_heap := (m_heap m)[i := p'] \<rparr>)))"

definition record_created :: "string \<Rightarrow> string \<Rightarrow> string \<Rightarrow> ('r, 's) manager \<Rightarrow> ('r, 's) manager" where
  "record_created img prof outcome m =
     m\<lparr> m_metrics := sandbox_created img prof outcome (m_metrics m) \<rparr>"

text \<open>The two successful ends of \<open>Create\<close>: the row is put, the counters and the gauge follow.\<close>

definition finish_create ::
    "'s store_ops \<Rightarrow> create_options \<Rightarrow> (recorder \<Rightarrow> recorder) \<Rightarrow> sandbox \<Rightarrow> ('r, 's) manager
      \<Rightarrow> (sandbox \<times> mgr_error option) \<times> ('r, 's) manager" where
  "finish_create st opts meter sb m =
     (case st_put st sb (m_store m) of
        (Some e, s') \<Rightarrow> ((sb, Some (StorePut e)), m\<lparr> m_store := s' \<rparr>)
      | (None, s') \<Rightarrow>
          ((sb, None),
           refresh_active st (record_created (sb_image sb) (co_profile opts) ''success''
             (m\<lparr> m_store := s', m_metrics := meter (m_metrics m) \<rparr>))))"

definition create ::
    "'r runtime_ops \<Rightarrow> 's store_ops \<Rightarrow> string \<Rightarrow> gotime \<Rightarrow> create_options \<Rightarrow> ('r, 's) manager
      \<Rightarrow> (sandbox \<times> mgr_error option) \<times> ('r, 's) manager" where
  "create rt st uuid now opts m =
     (case resolve (m_policy m) (request_of opts) of
        Inl e \<Rightarrow>
          ((empty_sandbox, Some (PolicyDenied e)),
           record_created (co_image opts) (co_profile opts) ''policy_denied'' m)
      | Inr res \<Rightarrow>
          (let sb = new_sandbox res uuid now in
           case try_claim res m of
             (Some c, m1) \<Rightarrow>
               finish_create st opts (pool_hit (rs_image res))
                 (sb\<lparr> sb_runtime_id := c, sb_state := state_running \<rparr>) m1
           | (None, m1) \<Rightarrow>
               (case rt_create rt (runtime_spec res uuid) (m_rt m1) of
                  (Inl e, r') \<Rightarrow>
                    (let sb' = sb\<lparr> sb_state := state_error \<rparr> in
                     ((sb', Some (RuntimeCreate e)),
                      record_created (rs_image res) (co_profile opts) ''runtime_error''
                        (m1\<lparr> m_rt := r', m_store := snd (st_put st sb' (m_store m1)) \<rparr>)))
                | (Inr h, r') \<Rightarrow>
                    finish_create st opts (pool_miss (rs_image res))
                      (sb\<lparr> sb_runtime_id := h_id h, sb_state := state_running \<rparr>)
                      (m1\<lparr> m_rt := r' \<rparr>))))"

section \<open>Reads\<close>

definition get_sandbox ::
    "'s store_ops \<Rightarrow> string \<Rightarrow> ('r, 's) manager \<Rightarrow> (mgr_error + sandbox) \<times> ('r, 's) manager" where
  "get_sandbox st i m =
     (case st_get st i (m_store m) of
        (Inl e, s') \<Rightarrow> (Inl (StoreFailed e), m\<lparr> m_store := s' \<rparr>)
      | (Inr sb, s') \<Rightarrow> (Inr sb, m\<lparr> m_store := s' \<rparr>))"

definition list_sandboxes ::
    "'s store_ops \<Rightarrow> ('r, 's) manager \<Rightarrow> (mgr_error + sandbox list) \<times> ('r, 's) manager" where
  "list_sandboxes st m =
     (case st_list st (m_store m) of
        (Inl e, s') \<Rightarrow> (Inl (StoreFailed e), m\<lparr> m_store := s' \<rparr>)
      | (Inr sbs, s') \<Rightarrow> (Inr sbs, m\<lparr> m_store := s' \<rparr>))"

definition expired_before ::
    "'s store_ops \<Rightarrow> gotime \<Rightarrow> ('r, 's) manager \<Rightarrow> (mgr_error + sandbox list) \<times> ('r, 's) manager" where
  "expired_before st t m =
     (case st_expired st t (m_store m) of
        (Inl e, s') \<Rightarrow> (Inl (StoreFailed e), m\<lparr> m_store := s' \<rparr>)
      | (Inr sbs, s') \<Rightarrow> (Inr sbs, m\<lparr> m_store := s' \<rparr>))"

definition proxy_addr ::
    "'r runtime_ops \<Rightarrow> 's store_ops \<Rightarrow> string \<Rightarrow> ('r, 's) manager
      \<Rightarrow> (mgr_error + string) \<times> ('r, 's) manager" where
  "proxy_addr rt st i m =
     (case get_sandbox st i m of
        (Inl e, m') \<Rightarrow> (Inl e, m')
      | (Inr sb, m') \<Rightarrow>
          (case rt_proxy_addr rt of
             None \<Rightarrow> (Inl (RuntimeFailed ErrNoProxy), m')
           | Some addr \<Rightarrow>
               (case addr (sb_id sb) (m_rt m') of
                  Inl e \<Rightarrow> (Inl (RuntimeFailed e), m')
                | Inr a \<Rightarrow> (Inr a, m'))))"

section \<open>Exec and logs\<close>

text \<open>The caller's writers are nil or not; what they receive is the list of chunks returned. A
  non-nil writer is teed into the log buffer, chunk by chunk; without one the runtime's buffered
  output is appended when the call is over. (A caller's writer that fails is not modelled.)\<close>

record exec_options =
  eo_cmd :: "string list"
  eo_env :: smap
  eo_work_dir :: string
  eo_stdin :: string
  eo_stdout :: bool
  eo_stderr :: bool

definition exec_spec_of :: "exec_options \<Rightarrow> exec_spec" where
  "exec_spec_of opts =
     \<lparr> xs_cmd = eo_cmd opts, xs_env = eo_env opts, xs_work_dir = eo_work_dir opts,
       xs_stdin = (if eo_stdin opts = [] then None else Some (eo_stdin opts)),
       xs_stdout = eo_stdout opts, xs_stderr = eo_stderr opts \<rparr>"

definition append_result :: "exec_options \<Rightarrow> exec_result \<Rightarrow> gotime \<Rightarrow> buffer \<Rightarrow> buffer" where
  "append_result opts res now b =
     (let b1 = (if \<not> eo_stdout opts \<and> xr_stdout res \<noteq> [] then append_stdout (xr_stdout res) now b else b)
      in if \<not> eo_stderr opts \<and> xr_stderr res \<noteq> [] then append_stderr (xr_stderr res) now b1 else b1)"

definition exec ::
    "'r runtime_ops \<Rightarrow> 's store_ops \<Rightarrow> string \<Rightarrow> exec_options \<Rightarrow> gotime \<Rightarrow> ('r, 's) manager
      \<Rightarrow> (entry list \<times> (mgr_error + exec_result)) \<times> ('r, 's) manager" where
  "exec rt st i opts now m =
     (case get_sandbox st i m of
        (Inl e, m1) \<Rightarrow> (([], Inl e), m1)
      | (Inr sb, m1) \<Rightarrow>
          (if sb_state sb \<noteq> state_running then (([], Inl (NotRunning i (sb_state sb))), m1)
           else
             (case log_buffer_for i m1 of (logs, m2) \<Rightarrow>
              case rt_exec rt (sb_runtime_id sb) (exec_spec_of opts) (m_rt m2) of (chunks, res, r') \<Rightarrow>
               (let m3 = m2\<lparr> m_rt := r' \<rparr>;
                    teed = map_option (fold write_entry chunks) logs
                in case res of
                     Inl e \<Rightarrow>
                       ((chunks, Inl (RuntimeFailed e)),
                        case teed of None \<Rightarrow> m3 | Some b \<Rightarrow> set_log_buffer i b m3)
                   | Inr x \<Rightarrow>
                       ((chunks, Inr x),
                        case teed of None \<Rightarrow> m3
                        | Some b \<Rightarrow> set_log_buffer i (append_result opts x now b) m3)))))"

fun count_newlines :: "string \<Rightarrow> nat" where
  "count_newlines [] = 0"
| "count_newlines (c # cs) = (if c = CHR 0x0A then Suc (count_newlines cs) else count_newlines cs)"

text \<open>The loop of \<open>tailLines\<close>, walking back from the last entry: \<open>older\<close> are the entries not yet
  counted, last first, and \<open>tail\<close> the ones counted, which hold \<open>seen\<close> newlines.\<close>

fun tail_loop :: "int \<Rightarrow> int \<Rightarrow> entry list \<Rightarrow> entry list \<Rightarrow> entry list" where
  "tail_loop n seen [] tail = tail"
| "tail_loop n seen (e # older) tail =
     (let seen' = seen + int (count_newlines (e_data e))
      in if seen' \<ge> n then e # tail else tail_loop n seen' older (e # tail))"

definition tail_lines :: "entry list \<Rightarrow> int \<Rightarrow> entry list" where
  "tail_lines snap n = (if n \<le> 0 \<or> snap = [] then snap else tail_loop n 0 (rev snap) [])"

record logs_options =
  lo_tail_lines :: int
  lo_follow :: bool

record logs_result =
  lr_snapshot :: "entry list"
  lr_subscribe :: "nat option"

definition logs ::
    "'s store_ops \<Rightarrow> string \<Rightarrow> logs_options \<Rightarrow> ('r, 's) manager
      \<Rightarrow> (mgr_error + logs_result) \<times> ('r, 's) manager" where
  "logs st i opts m =
     (case get_sandbox st i m of
        (Inl e, m1) \<Rightarrow> (Inl e, m1)
      | (Inr sb, m1) \<Rightarrow>
          (case log_buffer_for i m1 of
             (None, m2) \<Rightarrow> (Inr \<lparr> lr_snapshot = [], lr_subscribe = None \<rparr>, m2)
           | (Some b, m2) \<Rightarrow>
               (let (ch, b1) = (if lo_follow opts then (let (c, b') = subscribe b in (Some c, b'))
                                else (None, b));
                    snap = snapshot b1
                in (Inr \<lparr> lr_snapshot = (if lo_tail_lines opts > 0
                                         then tail_lines snap (lo_tail_lines opts) else snap),
                          lr_subscribe = ch \<rparr>,
                    set_log_buffer i b1 m2))))"

section \<open>Stop and Delete\<close>

definition stop ::
    "'r runtime_ops \<Rightarrow> 's store_ops \<Rightarrow> string \<Rightarrow> ('r, 's) manager \<Rightarrow> mgr_error option \<times> ('r, 's) manager" where
  "stop rt st i m =
     (case get_sandbox st i m of
        (Inl e, m1) \<Rightarrow> (Some e, m1)
      | (Inr sb, m1) \<Rightarrow>
          (case rt_stop rt (sb_runtime_id sb) (m_rt m1) of
             (Some e, r') \<Rightarrow> (Some (RuntimeFailed e), m1\<lparr> m_rt := r' \<rparr>)
           | (None, r') \<Rightarrow>
               (case st_put st (sb\<lparr> sb_state := state_stopped \<rparr>) (m_store m1) of
                  (Some e, s') \<Rightarrow> (Some (StoreFailed e), m1\<lparr> m_rt := r', m_store := s' \<rparr>)
                | (None, s') \<Rightarrow>
                    (None, refresh_active st (m1\<lparr> m_rt := r', m_store := s' \<rparr>)))))"

definition delete ::
    "'r runtime_ops \<Rightarrow> 's store_ops \<Rightarrow> string \<Rightarrow> ('r, 's) manager \<Rightarrow> mgr_error option \<times> ('r, 's) manager" where
  "delete rt st i m =
     (case get_sandbox st i m of
        (Inl e, m1) \<Rightarrow> (Some e, m1)
      | (Inr sb, m1) \<Rightarrow>
          (let r' = (if sb_runtime_id sb \<noteq> [] then snd (rt_remove rt (sb_runtime_id sb) (m_rt m1))
                     else m_rt m1)
           in case st_delete st i (m_store m1) of
                (Some e, s') \<Rightarrow> (Some (StoreFailed e), m1\<lparr> m_rt := r', m_store := s' \<rparr>)
              | (None, s') \<Rightarrow>
                  (None, refresh_active st (drop_log_buffer i (m1\<lparr> m_rt := r', m_store := s' \<rparr>)))))"

end
