(* ===== verification/Lifecycle.thy ===== *)
theory Lifecycle
  imports Manager
begin

text \<open>
  What the manager's operations guarantee, over any backend and store that meet their contracts:
  the invariant that no container is shared (between sandboxes, between pools, or between a
  sandbox and a pool), which every operation preserves, and the behaviour of each operation on
  every branch.
\<close>

section \<open>The operations as one step function\<close>

datatype mgr_op =
    OpStart | OpShutdown | OpReplacePolicy "policy option" | OpRetire | OpRefill nat
  | OpCreate string gotime create_options | OpGet string | OpProxyAddr string | OpList
  | OpExec string exec_options gotime | OpLogs string logs_options | OpStop string | OpDelete string

fun mgr_step ::
    "'r runtime_ops \<Rightarrow> 's store_ops \<Rightarrow> mgr_op \<Rightarrow> ('r, 's) manager \<Rightarrow> ('r, 's) manager" where
  "mgr_step rt st OpStart m = snd (start rt m)"
| "mgr_step rt st OpShutdown m = snd (shutdown rt m)"
| "mgr_step rt st (OpReplacePolicy pol) m = snd (replace_policy rt pol m)"
| "mgr_step rt st OpRetire m = retire rt m"
| "mgr_step rt st (OpRefill i) m = refill_pool rt i m"
| "mgr_step rt st (OpCreate u t opts) m = snd (create rt st u t opts m)"
| "mgr_step rt st (OpGet i) m = snd (get_sandbox st i m)"
| "mgr_step rt st (OpProxyAddr i) m = snd (proxy_addr rt st i m)"
| "mgr_step rt st OpList m = snd (list_sandboxes st m)"
| "mgr_step rt st (OpExec i opts t) m = snd (exec rt st i opts t m)"
| "mgr_step rt st (OpLogs i opts) m = snd (logs st i opts m)"
| "mgr_step rt st (OpStop i) m = snd (stop rt st i m)"
| "mgr_step rt st (OpDelete i) m = snd (delete rt st i m)"

definition mgr_run ::
    "'r runtime_ops \<Rightarrow> 's store_ops \<Rightarrow> mgr_op list \<Rightarrow> ('r, 's) manager \<Rightarrow> ('r, 's) manager" where
  "mgr_run rt st ops m = fold (mgr_step rt st) ops m"

text \<open>A Go map has each key once.\<close>

fun op_ok :: "mgr_op \<Rightarrow> bool" where
  "op_ok (OpCreate u t opts) \<longleftrightarrow>
     distinct (map fst (co_env opts)) \<and> distinct (map fst (co_labels opts))"
| "op_ok _ \<longleftrightarrow> True"

lemma resolve_maps:
  "resolve p (request_of opts) = Inr res \<Longrightarrow>
   rs_env res = co_env opts \<and> rs_labels res = co_labels opts \<and> rs_name res = co_name opts"
  by (auto simp: resolve_Inr resolve_spec_def request_of_def)

lemma put_pool_simps [simp]:
  "m_rt (put_pool i p r m) = r" "m_store (put_pool i p r m) = m_store m"
  "m_heap (put_pool i p r m) = (m_heap m)[i := p]" "m_pools (put_pool i p r m) = m_pools m"
  "m_retiring (put_pool i p r m) = m_retiring m" "m_policy (put_pool i p r m) = m_policy m"
  "m_started (put_pool i p r m) = m_started m" "m_logs (put_pool i p r m) = m_logs m"
  "m_metrics (put_pool i p r m) = m_metrics m" "m_log_cap (put_pool i p r m) = m_log_cap m"
  by (simp_all add: put_pool_def)

subsection \<open>The pools of a policy\<close>

lemma build_fold:
  "distinct (map im_name ims) \<Longrightarrow>
   map_of (fold (\<lambda>im out. if pooled im then AList.update (im_name im) (warm_pool pol im) out else out)
     ims acc) img =
   (case find_image ims img of
      Some im \<Rightarrow> if pooled im then Some (warm_pool pol im) else map_of acc img
    | None \<Rightarrow> map_of acc img)"
proof (induction ims arbitrary: acc)
  case (Cons im ims)
  have "im_name im \<noteq> img \<or> find_image ims img = None"
    using Cons.prems by (auto simp: find_image_None)
  with Cons show ?case by (auto split: option.splits)
qed simp

lemma map_of_build_pools:
  "distinct (map im_name (po_images pol)) \<Longrightarrow> map_of (build_pools pol) img =
     (case find_image (po_images pol) img of
        Some im \<Rightarrow> if pooled im then Some (warm_pool pol im) else None
      | None \<Rightarrow> None)"
  using build_fold [of "po_images pol" pol "[]" img]
  by (simp add: build_pools_def split: option.split)

lemma distinct_build_pools: "distinct (map fst (build_pools pol))"
proof -
  have "distinct (map fst (fold (\<lambda>im out. if pooled im then AList.update (im_name im) (g im) out else out)
      ims acc))" if "distinct (map fst acc)" for ims :: "image_entry list" and g :: "image_entry \<Rightarrow> pool" and acc
    using that by (induction ims arbitrary: acc) auto
  then show ?thesis unfolding build_pools_def by simp
qed

lemma build_pools_mem: "(img, p) \<in> set (build_pools pol) \<Longrightarrow> \<exists>im \<in> set (po_images pol).
    pooled im \<and> img = im_name im \<and> p = warm_pool pol im"
proof -
  have "map_of (fold (\<lambda>im out. if pooled im then AList.update (im_name im) (warm_pool pol im) out else out)
      ims acc) img = Some p \<Longrightarrow> map_of acc img = Some p
    \<or> (\<exists>im \<in> set ims. pooled im \<and> img = im_name im \<and> p = warm_pool pol im)" for ims acc
    by (induction ims arbitrary: acc) (fastforce split: if_splits)+
  from this [of "po_images pol" "[]"] show "(img, p) \<in> set (build_pools pol) \<Longrightarrow> ?thesis"
    using map_of_is_SomeI [OF distinct_build_pools [of pol]]
    by (auto simp: build_pools_def)
qed

lemma pool_build_avail: "p \<in> snd ` set (build_pools pol) \<Longrightarrow> p_avail p = []"
  using build_pools_mem by (fastforce simp: warm_pool_def)

lemma named_pool_spec [simp]: "named_spec (pool_spec_for pol im)"
  by (simp add: named_spec_def pool_spec_for_def)

lemma pool_build_named: "p \<in> snd ` set (build_pools pol) \<Longrightarrow> named_spec (p_spec p)"
  using build_pools_mem by (fastforce simp: warm_pool_def)

lemma named_runtime_spec [simp]: "named_spec (runtime_spec res u)"
  by (simp add: named_spec_def runtime_spec_def merge_labels_def label_sandbox_id_def label_managed_def)

section \<open>No container is shared\<close>

locale manager_env =
  managed_runtime rt live issued rinv + pool_backend rt live issued rinv +
  sandbox_store st view sinv due
  for rt :: "'r runtime_ops" and live issued rinv
    and st :: "'s store_ops" and view sinv due
begin

definition pools_apart :: "('r, 's) manager \<Rightarrow> bool" where
  "pools_apart m \<longleftrightarrow>
     (\<forall>i < length (m_heap m). pool_ready (m_heap m ! i) (m_rt m))
   \<and> (\<forall>i < length (m_heap m). \<forall>j < length (m_heap m). i \<noteq> j \<longrightarrow>
        set (p_avail (m_heap m ! i)) \<inter> set (p_avail (m_heap m ! j)) = {})"

definition row_apart :: "('r, 's) manager \<Rightarrow> string \<Rightarrow> sandbox \<Rightarrow> bool" where
  "row_apart m k sb \<longleftrightarrow> sb_runtime_id sb = [] \<or>
     sb_runtime_id sb \<in> issued (m_rt m)
   \<and> (\<forall>p \<in> set (m_heap m). sb_runtime_id sb \<notin> set (p_avail p))
   \<and> (\<forall>k' sb'. view (m_store m) k' = Some sb' \<and> k' \<noteq> k \<longrightarrow> sb_runtime_id sb' \<noteq> sb_runtime_id sb)"

definition rows_apart :: "('r, 's) manager \<Rightarrow> bool" where
  "rows_apart m \<longleftrightarrow> (\<forall>k sb. view (m_store m) k = Some sb \<longrightarrow> row_apart m k sb
     \<and> sb_state sb \<in> {state_running, state_stopped, state_error})"

definition refs_ok :: "('r, 's) manager \<Rightarrow> bool" where
  "refs_ok m \<longleftrightarrow> (\<forall>i \<in> snd ` set (m_pools m) \<union> set (m_retiring m). i < length (m_heap m))"

definition mgr_inv :: "('r, 's) manager \<Rightarrow> bool" where
  "mgr_inv m \<longleftrightarrow> rinv (m_rt m) \<and> sinv (m_store m) \<and> pools_apart m \<and> rows_apart m \<and> refs_ok m"

lemmas inv_defs = mgr_inv_def pools_apart_def rows_apart_def row_apart_def refs_ok_def

lemma inv_cong:
  assumes "mgr_inv m" and "m_rt m' = m_rt m" and "m_store m' = m_store m"
    and "m_pools m' = m_pools m" and "m_heap m' = m_heap m" and "m_retiring m' = m_retiring m"
  shows "mgr_inv m'"
  using assms by (simp add: inv_defs)

lemma inv_store:
  "mgr_inv m \<Longrightarrow> sinv s' \<Longrightarrow> view s' = view (m_store m) \<Longrightarrow> mgr_inv (m\<lparr> m_store := s' \<rparr>)"
  by (simp add: inv_defs)

lemma rows_apart_keep:
  assumes "rows_apart m" and "view (m_store m') = view (m_store m)"
    and "issued (m_rt m) \<subseteq> issued (m_rt m')"
    and "\<And>p' c. p' \<in> set (m_heap m') \<Longrightarrow> c \<in> set (p_avail p') \<Longrightarrow> c \<in> issued (m_rt m) \<Longrightarrow>
           \<exists>p \<in> set (m_heap m). c \<in> set (p_avail p)"
  shows "rows_apart m'"
  unfolding rows_apart_def row_apart_def
proof (intro allI impI conjI)
  fix k sb assume "view (m_store m') k = Some sb"
  then have old: "row_apart m k sb" "sb_state sb \<in> {state_running, state_stopped, state_error}"
    using assms(1,2) by (auto simp: rows_apart_def)
  show "sb_runtime_id sb = [] \<or> sb_runtime_id sb \<in> issued (m_rt m')
      \<and> (\<forall>p \<in> set (m_heap m'). sb_runtime_id sb \<notin> set (p_avail p))
      \<and> (\<forall>k' sb'. view (m_store m') k' = Some sb' \<and> k' \<noteq> k \<longrightarrow> sb_runtime_id sb' \<noteq> sb_runtime_id sb)"
  proof (cases "sb_runtime_id sb = []")
    case False
    with old(1) have "sb_runtime_id sb \<in> issued (m_rt m)"
      and "\<forall>p \<in> set (m_heap m). sb_runtime_id sb \<notin> set (p_avail p)"
      and "\<forall>k' sb'. view (m_store m) k' = Some sb' \<and> k' \<noteq> k \<longrightarrow> sb_runtime_id sb' \<noteq> sb_runtime_id sb"
      by (simp_all add: row_apart_def)
    then show ?thesis
      using assms(2,3) assms(4) [of _ "sb_runtime_id sb"] by auto
  qed simp
  show "sb_state sb \<in> {state_running, state_stopped, state_error}" by (rule old(2))
qed

lemma inv_rt:
  assumes "mgr_inv m" and "rinv r'" and "issued (m_rt m) \<subseteq> issued r'"
  shows "mgr_inv (m\<lparr> m_rt := r' \<rparr>)"
proof -
  have "rows_apart (m\<lparr> m_rt := r' \<rparr>)"
    by (rule rows_apart_keep [of m]) (use assms in \<open>auto simp: mgr_inv_def\<close>)
  moreover have "pools_apart (m\<lparr> m_rt := r' \<rparr>)"
    using assms by (auto simp: mgr_inv_def pools_apart_def pool_ready_def)
  ultimately show ?thesis using assms by (simp add: mgr_inv_def refs_ok_def)
qed

lemma inv_put_pool:
  assumes inv: "mgr_inv m" and i: "i < length (m_heap m)"
    and moves: "pool_moves (m_heap m ! i) (m_rt m) p' r'"
  shows "mgr_inv (put_pool i p' r' m)"
proof -
  have avail: "set (p_avail p') \<subseteq> set (p_avail (m_heap m ! i)) \<union> (issued r' - issued (m_rt m))"
    and r': "rinv r'" "issued (m_rt m) \<subseteq> issued r'" "distinct (p_avail p')" "p_spec p' = p_spec (m_heap m ! i)"
      "p_closed p' \<longrightarrow> p_avail p' = []"
    using moves by (auto simp: pool_moves_def)
  have ready: "set (p_avail (m_heap m ! j)) \<subseteq> issued (m_rt m)" "distinct (p_avail (m_heap m ! j))"
    "named_spec (p_spec (m_heap m ! j))" "p_closed (m_heap m ! j) \<longrightarrow> p_avail (m_heap m ! j) = []"
    if "j < length (m_heap m)" for j
    using inv that by (auto simp: inv_defs pool_ready_def)
  have "pools_apart (put_pool i p' r' m)"
    unfolding pools_apart_def
  proof (intro conjI allI impI)
    fix j assume "j < length (m_heap (put_pool i p' r' m))"
    then show "pool_ready (m_heap (put_pool i p' r' m) ! j) (m_rt (put_pool i p' r' m))"
      using ready [of j] ready [OF i] avail r' by (cases "i = j") (auto simp: pool_ready_def)
  next
    fix j k assume jk: "j < length (m_heap (put_pool i p' r' m))"
      "k < length (m_heap (put_pool i p' r' m))" "j \<noteq> k"
    have old: "set (p_avail (m_heap m ! j)) \<inter> set (p_avail (m_heap m ! k)) = {}"
      using inv jk by (simp add: inv_defs)
    show "set (p_avail (m_heap (put_pool i p' r' m) ! j))
        \<inter> set (p_avail (m_heap (put_pool i p' r' m) ! k)) = {}"
      using old avail ready(1) [of j] ready(1) [of k] jk
      by (cases "i = j"; cases "i = k") (auto simp: nth_list_update)
  qed
  moreover have "rows_apart (put_pool i p' r' m)"
  proof (rule rows_apart_keep [of m])
    fix q c assume "q \<in> set (m_heap (put_pool i p' r' m))" "c \<in> set (p_avail q)" "c \<in> issued (m_rt m)"
    then show "\<exists>p \<in> set (m_heap m). c \<in> set (p_avail p)"
      using avail i by (auto dest!: subsetD [OF set_update_subset_insert])
  qed (use inv r' in \<open>simp_all add: mgr_inv_def\<close>)
  ultimately show ?thesis
    using inv r' by (auto simp: mgr_inv_def refs_ok_def)
qed

subsection \<open>Starting, retiring and replacing pools\<close>

lemma inv_ready: "mgr_inv m \<Longrightarrow> i < length (m_heap m) \<Longrightarrow> pool_ready (m_heap m ! i) (m_rt m)"
  by (simp add: inv_defs)

definition pools_only :: "('r, 's) manager \<Rightarrow> ('r, 's) manager \<Rightarrow> bool" where
  "pools_only m m' \<longleftrightarrow>
     (\<exists>h r. m' = m\<lparr> m_heap := h, m_rt := r \<rparr> \<and> length h = length (m_heap m))"

lemma pools_only_refl [simp]: "pools_only m m"
  unfolding pools_only_def by (rule exI [of _ "m_heap m"], rule exI [of _ "m_rt m"]) simp

lemma pools_only_put [simp]: "pools_only m (put_pool i p r m)"
  by (auto simp: pools_only_def put_pool_def)

lemma pools_only_trans: "pools_only m m1 \<Longrightarrow> pools_only m1 m2 \<Longrightarrow> pools_only m m2"
proof -
  assume "pools_only m m1" and "pools_only m1 m2"
  then obtain h r where "m2 = m\<lparr> m_heap := h, m_rt := r \<rparr>" "length h = length (m_heap m)"
    by (auto simp: pools_only_def)
  then show ?thesis unfolding pools_only_def by blast
qed

lemma pools_only_same:
  assumes "pools_only m m'"
  shows "m_store m' = m_store m" "m_policy m' = m_policy m" "m_pools m' = m_pools m"
    "m_retiring m' = m_retiring m" "m_started m' = m_started m" "m_metrics m' = m_metrics m"
    "m_log_cap m' = m_log_cap m" "m_logs m' = m_logs m" "length (m_heap m') = length (m_heap m)"
  using assms by (auto simp: pools_only_def)

lemma inv_start_pools:
  "mgr_inv m \<Longrightarrow> \<forall>i \<in> snd ` set ps. i < length (m_heap m) \<Longrightarrow> start_pools rt ps m = (res, m') \<Longrightarrow>
   mgr_inv m' \<and> pools_only m m'"
proof (induction ps arbitrary: m)
  case (Cons a ps)
  obtain img i where a: "a = (img, i)" by (cases a)
  have i: "i < length (m_heap m)" using Cons.prems(2) a by simp
  obtain e p' r' where st: "pool_start rt (m_heap m ! i) (m_rt m) = (e, p', r')"
    by (cases "pool_start rt (m_heap m ! i) (m_rt m)")
  have inv': "mgr_inv (put_pool i p' r' m)"
    by (rule inv_put_pool [OF Cons.prems(1) i fill_moves [OF inv_ready [OF Cons.prems(1) i]]])
      (use st in \<open>simp add: pool_start_def\<close>)
  show ?case
  proof (cases e)
    case None
    with st a Cons.prems(3) have "start_pools rt ps (put_pool i p' r' m) = (res, m')" by simp
    from Cons.IH [OF inv' _ this] Cons.prems(2) show ?thesis
      by (auto intro: pools_only_trans [OF pools_only_put])
  qed (use st a Cons.prems(3) inv' in auto)
qed simp

lemma inv_shutdown_pools:
  "mgr_inv m \<Longrightarrow> \<forall>i \<in> set is. i < length (m_heap m) \<Longrightarrow> shutdown_pools rt is m = (res, m') \<Longrightarrow>
   mgr_inv m' \<and> pools_only m m'"
proof (induction "is" arbitrary: m res m')
  case (Cons i "is")
  have i: "i < length (m_heap m)" using Cons.prems(2) by simp
  obtain e p' r' where st: "pool_shutdown rt (m_heap m ! i) (m_rt m) = (e, p', r')"
    by (cases "pool_shutdown rt (m_heap m ! i) (m_rt m)")
  have inv': "mgr_inv (put_pool i p' r' m)"
    using inv_put_pool [OF Cons.prems(1) i] shutdown_moves [OF inv_ready [OF Cons.prems(1) i] st] by blast
  obtain rest m1 where m1: "shutdown_pools rt is (put_pool i p' r' m) = (rest, m1)" by fastforce
  with st Cons.prems(3) have "m' = m1" by simp
  with Cons.IH [OF inv' _ m1] Cons.prems(2) show ?case
    by (auto intro: pools_only_trans [OF pools_only_put])
qed simp

lemma inv_warm_pools:
  "mgr_inv m \<Longrightarrow> \<forall>i \<in> set warmed \<union> set is. i < length (m_heap m) \<Longrightarrow>
   warm_pools rt warmed is m = (res, m') \<Longrightarrow> mgr_inv m' \<and> pools_only m m'"
proof (induction "is" arbitrary: m warmed)
  case (Cons i "is")
  have i: "i < length (m_heap m)" using Cons.prems(2) by simp
  obtain e p' r' where st: "pool_start rt (m_heap m ! i) (m_rt m) = (e, p', r')"
    by (cases "pool_start rt (m_heap m ! i) (m_rt m)")
  have inv': "mgr_inv (put_pool i p' r' m)"
    by (rule inv_put_pool [OF Cons.prems(1) i fill_moves [OF inv_ready [OF Cons.prems(1) i]]])
      (use st in \<open>simp add: pool_start_def\<close>)
  show ?case
  proof (cases e)
    case None
    with st Cons.prems(3) have "warm_pools rt (warmed @ [i]) is (put_pool i p' r' m) = (res, m')" by simp
    from Cons.IH [OF inv' _ this] Cons.prems(2) show ?thesis
      by (auto intro: pools_only_trans [OF pools_only_put])
  next
    case (Some err)
    obtain x m1 where m1: "shutdown_pools rt warmed (put_pool i p' r' m) = (x, m1)" by fastforce
    with st Some Cons.prems(3) have "m' = m1" by simp
    with inv_shutdown_pools [OF inv' _ m1] Cons.prems(2) show ?thesis
      by (auto intro: pools_only_trans [OF pools_only_put])
  qed
qed simp

lemma ensure_images_keeps:
  "rt_ensure_image rt = Some ensure \<Longrightarrow> rinv r \<Longrightarrow> ensure_images ensure ims r = (res, r') \<Longrightarrow>
   rinv r' \<and> issued r' = issued r"
proof (induction ims arbitrary: r)
  case (Cons im ims)
  obtain eres r1 where e: "ensure (im_name im) r = (eres, r1)" by fastforce
  with Cons.prems ensure_keeps have "rinv r1" "issued r1 = issued r" by blast+
  with Cons e show ?case by (cases eres) auto
qed simp

lemma clean_orphans_keeps: "rinv r \<Longrightarrow> rinv (clean_orphans rt r) \<and> issued (clean_orphans rt r) = issued r"
proof (cases "rt_clean_orphans rt")
  case (Some clean)
  obtain e r' where "clean r = (e, r')" by fastforce
  with Some clean_keeps [of r clean e r'] show "rinv r \<Longrightarrow> ?thesis" by (simp add: clean_orphans_def)
qed (simp add: clean_orphans_def)

lemma inv_start:
  assumes "mgr_inv m"
  shows "mgr_inv (snd (start rt m))"
proof -
  let ?r1 = "clean_orphans rt (m_rt m)"
  have r1: "rinv ?r1" "issued ?r1 = issued (m_rt m)"
    using clean_orphans_keeps assms by (simp_all add: mgr_inv_def)
  obtain err r2 where r2: "(case rt_ensure_image rt of None \<Rightarrow> (None, ?r1)
      | Some ensure \<Rightarrow> ensure_images ensure (po_images (m_policy m)) ?r1) = (err, r2)" by fastforce
  then have "rinv r2" "issued r2 = issued (m_rt m)"
    using r1 ensure_images_keeps by (auto split: option.splits)
  then have inv2: "mgr_inv (m\<lparr> m_rt := r2 \<rparr>)" using assms by (intro inv_rt) auto
  obtain res m3 where m3: "start_pools rt (m_pools m) (m\<lparr> m_rt := r2 \<rparr>) = (res, m3)" by fastforce
  have inv3: "mgr_inv m3"
    using inv_start_pools [OF inv2 _ m3] assms by (auto simp: mgr_inv_def refs_ok_def)
  then have "mgr_inv (m3\<lparr> m_started := True \<rparr>)" by (rule inv_cong) simp_all
  with inv2 inv3 show ?thesis
    by (auto simp: start_def r2 m3 Let_def split: option.splits)
qed

lemma inv_shutdown: "mgr_inv m \<Longrightarrow> mgr_inv (snd (shutdown rt m))"
  using inv_shutdown_pools [of m "map snd (m_pools m)"]
  by (auto simp: shutdown_def Let_def mgr_inv_def refs_ok_def split: prod.splits)

lemma inv_retire: "mgr_inv m \<Longrightarrow> mgr_inv (retire rt m)"
proof (cases "m_retiring m")
  case (Cons i "is")
  assume inv: "mgr_inv m"
  then have "mgr_inv (m\<lparr> m_retiring := is \<rparr>)"
    using Cons by (auto simp: mgr_inv_def pools_apart_def rows_apart_def row_apart_def refs_ok_def)
  moreover have "i < length (m_heap m)" using inv Cons by (simp add: mgr_inv_def refs_ok_def)
  ultimately show ?thesis
    using inv_shutdown_pools [of "m\<lparr> m_retiring := is \<rparr>" "[i]"] Cons
    by (auto simp: retire_def simp del: shutdown_pools.simps intro: prod.collapse [symmetric])
qed (simp add: retire_def)

lemma inv_refill_pool: 
  assumes "mgr_inv m"
  shows "mgr_inv (refill_pool rt i m)"
proof (cases "i < length (m_heap m) \<and> p_signal (m_heap m ! i)")
  case True
  let ?p = "(m_heap m ! i)\<lparr> p_signal := False \<rparr>"
  obtain e p' r' where rf: "refill rt ?p (m_rt m) = (e, p', r')"
    by (cases "refill rt ?p (m_rt m)")
  have "pool_ready ?p (m_rt m)" using inv_ready [OF assms, of i] True by (simp add: pool_ready_def)
  from refill_moves [OF rf this] have "pool_moves (m_heap m ! i) (m_rt m) p' r'"
    by (simp add: pool_moves_def)
  with True rf assms show ?thesis by (simp add: refill_pool_def inv_put_pool)
qed (auto simp: refill_pool_def assms)

lemma merge_pools_heap:
  "merge_pools old ds heap = (merged, to_start, heap') \<Longrightarrow> \<forall>i \<in> snd ` set old. i < length heap \<Longrightarrow>
   (\<exists>new. heap' = heap @ new \<and> set new \<subseteq> snd ` set ds)
   \<and> (\<forall>i \<in> snd ` set merged \<union> set to_start. i < length heap')"
proof (induction ds arbitrary: heap merged to_start heap')
  case (Cons d ds)
  obtain img newp where d: "d = (img, newp)" by (cases d)
  show ?case
  proof (cases "\<exists>i. map_of old img = Some i \<and> same_pool_spec (heap ! i) newp")
    case True
    then obtain i where i: "map_of old img = Some i" "same_pool_spec (heap ! i) newp" by blast
    then have "i < length heap" using Cons.prems(2) by (force dest: map_of_SomeD)
    obtain mg ts h where rec: "merge_pools old ds heap = (mg, ts, h)" by (cases "merge_pools old ds heap")
    with Cons.prems(1) d i have "merged = (img, i) # mg" "to_start = ts" "heap' = h" by auto
    with Cons.IH [OF rec Cons.prems(2)] \<open>i < length heap\<close> show ?thesis by auto
  next
    case False
    obtain mg ts h where rec: "merge_pools old ds (heap @ [newp]) = (mg, ts, h)"
      by (cases "merge_pools old ds (heap @ [newp])")
    with Cons.prems(1) d False have "merged = (img, length heap) # mg" "to_start = length heap # ts" "heap' = h"
      by (auto split: option.splits if_splits)
    moreover have "\<forall>i \<in> snd ` set old. i < length (heap @ [newp])" using Cons.prems(2) by auto
    ultimately show ?thesis using Cons.IH [OF rec] d by auto
  qed
qed simp

lemma inv_heap_append:
  assumes "mgr_inv m" and "\<forall>p \<in> set new. p_avail p = [] \<and> named_spec (p_spec p)"
  shows "mgr_inv (m\<lparr> m_heap := m_heap m @ new \<rparr>)"
proof -
  have avail: "p_avail ((m_heap m @ new) ! i) = (if i < length (m_heap m) then p_avail (m_heap m ! i) else [])"
    if "i < length (m_heap m @ new)" for i
    using that assms(2) by (auto simp: nth_append)
  have named: "named_spec (p_spec ((m_heap m @ new) ! i))" if "i < length (m_heap m @ new)" for i
    using that assms by (auto simp: nth_append inv_defs pool_ready_def)
  have old: "pools_apart m" "rinv (m_rt m)" using assms(1) by (simp_all add: mgr_inv_def)
  have "pools_apart (m\<lparr> m_heap := m_heap m @ new \<rparr>)"
    unfolding pools_apart_def
  proof (intro conjI allI impI)
    fix i assume "i < length (m_heap (m\<lparr> m_heap := m_heap m @ new \<rparr>))"
    then show "pool_ready (m_heap (m\<lparr> m_heap := m_heap m @ new \<rparr>) ! i)
        (m_rt (m\<lparr> m_heap := m_heap m @ new \<rparr>))"
      using old avail [of i] named [of i]
      by (cases "i < length (m_heap m)") (auto simp: pools_apart_def pool_ready_def nth_append)
  next
    fix i j assume ij: "i < length (m_heap (m\<lparr> m_heap := m_heap m @ new \<rparr>))"
      "j < length (m_heap (m\<lparr> m_heap := m_heap m @ new \<rparr>))" "i \<noteq> j"
    have "i < length (m_heap m) \<and> j < length (m_heap m) \<Longrightarrow>
        set (p_avail (m_heap m ! i)) \<inter> set (p_avail (m_heap m ! j)) = {}"
      using old(1) ij(3) unfolding pools_apart_def by blast
    with ij(1,2) show "set (p_avail (m_heap (m\<lparr> m_heap := m_heap m @ new \<rparr>) ! i))
        \<inter> set (p_avail (m_heap (m\<lparr> m_heap := m_heap m @ new \<rparr>) ! j)) = {}"
      by (cases "i < length (m_heap m)"; cases "j < length (m_heap m)") (simp_all add: avail)
  qed
  moreover have "rows_apart (m\<lparr> m_heap := m_heap m @ new \<rparr>)"
    by (rule rows_apart_keep [of m]) (use assms in \<open>auto simp: mgr_inv_def\<close>)
  moreover have "refs_ok (m\<lparr> m_heap := m_heap m @ new \<rparr>)"
    unfolding refs_ok_def
  proof
    fix i assume "i \<in> snd ` set (m_pools (m\<lparr> m_heap := m_heap m @ new \<rparr>))
        \<union> set (m_retiring (m\<lparr> m_heap := m_heap m @ new \<rparr>))"
    with assms(1) have "i < length (m_heap m)" by (simp add: mgr_inv_def refs_ok_def)
    then show "i < length (m_heap (m\<lparr> m_heap := m_heap m @ new \<rparr>))" by simp
  qed
  ultimately show ?thesis using assms by (simp add: mgr_inv_def)
qed

lemma inv_install:
  assumes "mgr_inv m" and "\<forall>i \<in> snd ` set pools \<union> set sd. i < length (m_heap m)"
  shows "mgr_inv (m\<lparr> m_policy := p, m_pools := pools, m_retiring := m_retiring m @ sd \<rparr>)"
proof -
  let ?m = "m\<lparr> m_policy := p, m_pools := pools, m_retiring := m_retiring m @ sd \<rparr>"
  have "pools_apart ?m" using assms(1) by (simp add: mgr_inv_def pools_apart_def)
  moreover have "rows_apart ?m"
    by (rule rows_apart_keep [of m]) (use assms(1) in \<open>auto simp: mgr_inv_def\<close>)
  moreover have "refs_ok ?m" using assms by (auto simp: mgr_inv_def refs_ok_def)
  ultimately show ?thesis using assms(1) by (simp add: mgr_inv_def)
qed

lemma inv_replace_policy:
  assumes inv: "mgr_inv m"
  shows "mgr_inv (snd (replace_policy rt pol m))"
proof (cases pol)
  case (Some p)
  show ?thesis
  proof (cases "validate p")
    case None
    obtain merged ts heap' where mp: "merge_pools (m_pools m) (build_pools p) (m_heap m) = (merged, ts, heap')"
      by (cases "merge_pools (m_pools m) (build_pools p) (m_heap m)")
    have refs: "\<forall>i \<in> snd ` set (m_pools m). i < length (m_heap m)" using inv by (simp add: mgr_inv_def refs_ok_def)
    from merge_pools_heap [OF mp refs] obtain new where heap': "heap' = m_heap m @ new"
      and new: "set new \<subseteq> snd ` set (build_pools p)"
      and ok: "\<forall>i \<in> snd ` set merged \<union> set ts. i < length heap'" by blast
    let ?m1 = "m\<lparr> m_heap := heap' \<rparr>"
    have inv1: "mgr_inv ?m1"
      unfolding heap' by (rule inv_heap_append [OF inv]) (use new pool_build_avail pool_build_named in blast)
    obtain res m2 where m2: "(if m_started m then warm_pools rt [] ts ?m1 else (None, ?m1)) = (res, m2)"
      by fastforce
    then have inv2: "mgr_inv m2" and only: "pools_only ?m1 m2"
      using inv_warm_pools [OF inv1, of "[]" ts res m2] inv1 ok by (auto split: if_splits)
    let ?sd = "map snd (filter (\<lambda>(img, i). map_of merged img \<noteq> Some i) (m_pools m))"
    have "mgr_inv (m2\<lparr> m_policy := p, m_pools := merged, m_retiring := m_retiring m2 @ ?sd \<rparr>)"
    proof (rule inv_install [OF inv2], intro ballI)
      fix i assume "i \<in> snd ` set merged \<union> set ?sd"
      then have "i \<in> snd ` set merged \<or> i \<in> snd ` set (m_pools m)" by auto
      then have "i < length heap'" using ok refs unfolding heap' by (metis UnI1 length_append trans_less_add1)
      then show "i < length (m_heap m2)" using pools_only_same(9) [OF only] by simp
    qed
    with inv2 show ?thesis
      using m2 by (auto simp: replace_policy_def Some None mp split: option.splits)
  qed (simp add: replace_policy_def Some inv)
qed (simp add: replace_policy_def inv)

subsection \<open>Rows\<close>

definition store_only :: "('r, 's) manager \<Rightarrow> ('r, 's) manager \<Rightarrow> bool" where
  "store_only m m' \<longleftrightarrow> (\<exists>s' k. m' = m\<lparr> m_store := s', m_metrics := k \<rparr>
     \<and> sinv s' \<and> view s' = view (m_store m))"

lemma store_only_intro:
  "sinv s' \<Longrightarrow> view s' = view (m_store m) \<Longrightarrow> store_only m (m\<lparr> m_store := s' \<rparr>)"
  unfolding store_only_def by (rule exI [of _ s'], rule exI [of _ "m_metrics m"]) simp

lemma store_only_same:
  assumes "store_only m m'"
  shows "m_rt m' = m_rt m" "m_policy m' = m_policy m" "m_pools m' = m_pools m"
    "m_heap m' = m_heap m" "m_retiring m' = m_retiring m" "m_started m' = m_started m"
    "m_log_cap m' = m_log_cap m" "m_logs m' = m_logs m"
    "sinv (m_store m')" "view (m_store m') = view (m_store m)"
  using assms by (auto simp: store_only_def)

lemma inv_store_only: "store_only m m' \<Longrightarrow> mgr_inv m \<Longrightarrow> mgr_inv m'"
  by (auto simp: inv_defs store_only_same)

lemma get_facts:
  assumes "sinv (m_store m)" and "get_sandbox st i m = (res, m')"
  shows "store_only m m' \<and> m_metrics m' = m_metrics m
    \<and> (case res of Inr sb \<Rightarrow> view (m_store m) i = Some sb
       | Inl e \<Rightarrow> \<exists>x. e = StoreFailed x \<and> (x = ErrNotFound \<longrightarrow> view (m_store m) i = None))"
proof -
  obtain r s' where s': "st_get st i (m_store m) = (r, s')" by fastforce
  have m': "m' = m\<lparr> m_store := s' \<rparr>" using assms(2) s' by (auto simp: get_sandbox_def split: sum.splits)
  then show ?thesis
    using assms(2) s' get [OF assms(1) s'] store_only_intro [of s' m]
    by (auto simp: get_sandbox_def split: sum.splits)
qed

lemma refresh_facts: "sinv (m_store m) \<Longrightarrow> store_only m (refresh_active st m)"
proof -
  obtain r s' where s': "st_list st (m_store m) = (r, s')" by fastforce
  assume "sinv (m_store m)"
  from list_all [OF this s'] show ?thesis
    by (cases r) (auto simp: refresh_active_def s' store_only_intro, auto simp: store_only_def)
qed

lemma inv_put_row:
  assumes inv: "mgr_inv m" and s': "sinv s'" "view s' = (view (m_store m))(k \<mapsto> sb)"
    and state: "sb_state sb \<in> {state_running, state_stopped, state_error}"
    and apart: "row_apart m k sb"
  shows "mgr_inv (m\<lparr> m_store := s' \<rparr>)"
proof -
  let ?m = "m\<lparr> m_store := s' \<rparr>"
  have "row_apart ?m k' sb' \<and> sb_state sb' \<in> {state_running, state_stopped, state_error}"
    if "view s' k' = Some sb'" for k' sb'
  proof (cases "k' = k")
    case True
    with that s'(2) apart state show ?thesis by (auto simp: row_apart_def)
  next
    case False
    with that s'(2) have "view (m_store m) k' = Some sb'" by simp
    moreover from this have "row_apart m k' sb'" "sb_state sb' \<in> {state_running, state_stopped, state_error}"
      using inv by (auto simp: mgr_inv_def rows_apart_def)
    ultimately have "row_apart ?m k' sb'"
      using False apart unfolding row_apart_def by (simp add: s'(2)) metis
    with \<open>sb_state sb' \<in> _\<close> show ?thesis by blast
  qed
  then have "rows_apart ?m" by (simp add: rows_apart_def)
  with inv s'(1) show ?thesis by (simp add: mgr_inv_def pools_apart_def refs_ok_def)
qed

lemma inv_drop_row:
  assumes inv: "mgr_inv m" and s': "sinv s'" "view s' = (view (m_store m))(k := None)"
  shows "mgr_inv (m\<lparr> m_store := s' \<rparr>)"
proof -
  have "rows_apart (m\<lparr> m_store := s' \<rparr>)"
    unfolding rows_apart_def
  proof (intro allI impI)
    fix k' sb assume "view (m_store (m\<lparr> m_store := s' \<rparr>)) k' = Some sb"
    then have "view (m_store m) k' = Some sb" using s'(2) by (simp split: if_splits)
    then have old: "row_apart m k' sb" "sb_state sb \<in> {state_running, state_stopped, state_error}"
      using inv by (auto simp: mgr_inv_def rows_apart_def)
    have "view s' i = Some y \<Longrightarrow> view (m_store m) i = Some y" for i y
      using s'(2) by (simp split: if_splits)
    with old(1) have "row_apart (m\<lparr> m_store := s' \<rparr>) k' sb" by (simp add: row_apart_def) metis
    with old(2) show "row_apart (m\<lparr> m_store := s' \<rparr>) k' sb
        \<and> sb_state sb \<in> {state_running, state_stopped, state_error}" by blast
  qed
  with inv s'(1) show ?thesis by (simp add: mgr_inv_def pools_apart_def refs_ok_def)
qed

subsection \<open>Create\<close>

text \<open>A container that belongs to nobody: where a new row may point.\<close>

definition unowned :: "('r, 's) manager \<Rightarrow> string \<Rightarrow> bool" where
  "unowned m c \<longleftrightarrow> c \<in> issued (m_rt m) \<and> (\<forall>p \<in> set (m_heap m). c \<notin> set (p_avail p))
     \<and> (\<forall>k sb. view (m_store m) k = Some sb \<longrightarrow> sb_runtime_id sb \<noteq> [] \<longrightarrow> sb_runtime_id sb \<noteq> c)"

lemma unowned_apart: "sb_runtime_id sb = [] \<or> unowned m (sb_runtime_id sb) \<Longrightarrow> row_apart m k sb"
  unfolding unowned_def row_apart_def by metis

lemma try_claim_facts:
  assumes inv: "mgr_inv m" and tc: "try_claim res m = (got, m1)"
  shows "mgr_inv m1 \<and> m_rt m1 = m_rt m \<and> m_store m1 = m_store m
    \<and> (case got of None \<Rightarrow> m1 = m | Some c \<Rightarrow> unowned m1 c)"
proof (cases got)
  case None
  with tc inv show ?thesis
    by (auto simp: try_claim_def split: option.splits if_splits prod.splits)
next
  case (Some c)
  then obtain i p' where i: "map_of (m_pools m) (rs_image res) = Some i"
    and get: "pool_get (m_heap m ! i) = (Some c, p')" and m1: "m1 = m\<lparr> m_heap := (m_heap m)[i := p'] \<rparr>"
    using tc by (auto simp: try_claim_def split: option.splits if_splits prod.splits)
  have i': "i < length (m_heap m)"
    using inv i by (force simp: mgr_inv_def refs_ok_def dest: map_of_SomeD)
  note ready = inv_ready [OF inv i']
  obtain ids where ids: "p_avail (m_heap m ! i) = ids @ [c]"
    and p': "p' = (m_heap m ! i)\<lparr> p_avail := ids, p_signal := True \<rparr>"
    using get by (auto simp: pool_get_Some)
  have "pool_moves (m_heap m ! i) (m_rt m) p' (m_rt m)"
    using ready by (auto simp: pool_moves_def pool_ready_def p' ids)
  from inv_put_pool [OF inv i' this] have inv1: "mgr_inv m1" by (simp add: put_pool_def m1)
  have "c \<notin> set (p_avail p)" if "p \<in> set (m_heap m1)" for p
  proof -
    have "\<exists>j < length ((m_heap m)[i := p']). (m_heap m)[i := p'] ! j = p"
      using that unfolding m1 in_set_conv_nth by (simp del: length_list_update)
    then obtain j where j: "j < length (m_heap m)" "p = (m_heap m)[i := p'] ! j" by auto
    have "i \<noteq> j \<Longrightarrow> set (p_avail (m_heap m ! i)) \<inter> set (p_avail (m_heap m ! j)) = {}"
      using inv i' j(1) by (simp add: mgr_inv_def pools_apart_def)
    moreover have "c \<notin> set ids" using ready by (simp add: pool_ready_def ids)
    ultimately show ?thesis using j by (cases "i = j") (auto simp: ids p')
  qed
  moreover have "sb_runtime_id sb \<noteq> c" if "view (m_store m) k = Some sb" "sb_runtime_id sb \<noteq> []" for k sb
  proof -
    have "row_apart m k sb" using inv that(1) by (simp add: mgr_inv_def rows_apart_def)
    then have "sb_runtime_id sb \<notin> set (p_avail (m_heap m ! i))"
      using that(2) nth_mem [OF i'] unfolding row_apart_def by blast
    then show ?thesis by (auto simp: ids)
  qed
  moreover have "c \<in> issued (m_rt m)" using ready ids by (auto simp: pool_ready_def)
  ultimately show ?thesis using inv1 Some by (simp add: m1 unowned_def)
qed

lemma inv_record [simp]: "mgr_inv (record_created img prof oc m) = mgr_inv m"
  by (auto simp: record_created_def inv_defs)

lemma finish_create_facts:
  assumes inv: "mgr_inv m" and ok: "maps_ok sb" and st: "sb_state sb = state_running"
    and c: "unowned m (sb_runtime_id sb)" and fin: "finish_create st opts meter sb m = ((sb', err), m')"
  shows "mgr_inv m' \<and> sb' = sb \<and> m_rt m' = m_rt m
    \<and> (case err of
         None \<Rightarrow> (\<exists>stored. same_sandbox stored sb \<and>
                    view (m_store m') = (view (m_store m))(sb_id sb \<mapsto> stored))
       | Some e \<Rightarrow> view (m_store m') = view (m_store m))"
proof -
  obtain res s' where s': "st_put st sb (m_store m) = (res, s')" by fastforce
  have sinv: "sinv (m_store m)" using inv by (simp add: mgr_inv_def)
  show ?thesis
  proof (cases res)
    case None
    with s' put_ok [OF sinv ok] obtain stored where stored: "same_sandbox stored sb"
      "view s' = (view (m_store m))(sb_id sb \<mapsto> stored)" "sinv s'" by blast
    then have "row_apart m (sb_id sb) stored" "sb_state stored = state_running"
      using c st by (auto intro!: unowned_apart simp: same_sandbox_def)
    then have inv1: "mgr_inv (m\<lparr> m_store := s' \<rparr>)"
      using inv_put_row [OF inv stored(3,2)] by simp
    let ?m1 = "record_created (sb_image sb) (co_profile opts) ''success''
      (m\<lparr> m_store := s', m_metrics := meter (m_metrics m) \<rparr>)"
    have "mgr_inv ?m1" by (rule inv_cong [OF inv1]) (simp_all add: record_created_def)
    moreover have "store_only ?m1 (refresh_active st ?m1)"
      by (rule refresh_facts) (simp add: record_created_def stored)
    ultimately show ?thesis
      using fin s' None stored inv_store_only store_only_same(1,10)
      by (auto simp: finish_create_def record_created_def)
  next
    case (Some e)
    with s' put_err [OF sinv] have "sinv s'" "view s' = view (m_store m)" by blast+
    then show ?thesis
      using fin s' Some inv_store [OF inv] by (auto simp: finish_create_def)
  qed
qed

lemma new_sandbox_maps_ok:
  "resolve p (request_of opts) = Inr res \<Longrightarrow> distinct (map fst (co_env opts)) \<Longrightarrow>
   distinct (map fst (co_labels opts)) \<Longrightarrow> maps_ok (new_sandbox res uuid now)"
  by (auto simp: maps_ok_def new_sandbox_def dest: resolve_maps)

lemma maps_ok_update [simp]:
  "maps_ok (sb\<lparr> sb_runtime_id := c \<rparr>) = maps_ok sb" "maps_ok (sb\<lparr> sb_state := x \<rparr>) = maps_ok sb"
  by (simp_all add: maps_ok_def)

lemma unowned_fresh:
  assumes inv: "mgr_inv m" and sp: "named_spec sp" and cr: "rt_create rt sp (m_rt m) = (Inr h, r')"
  shows "mgr_inv (m\<lparr> m_rt := r' \<rparr>) \<and> unowned (m\<lparr> m_rt := r' \<rparr>) (h_id h)"
proof -
  have rinv: "rinv (m_rt m)" using inv by (simp add: mgr_inv_def)
  from create_ok [OF rinv sp cr] have h: "rinv r'" "h_id h \<notin> issued (m_rt m)"
    "h_id h \<in> issued r'" "issued (m_rt m) \<subseteq> issued r'" by auto
  have "set (p_avail p) \<subseteq> issued (m_rt m)" if "p \<in> set (m_heap m)" for p
    using inv that by (auto simp: mgr_inv_def pools_apart_def pool_ready_def in_set_conv_nth)
  moreover have "sb_runtime_id sb \<in> issued (m_rt m)"
    if "view (m_store m) k = Some sb" "sb_runtime_id sb \<noteq> []" for k sb
    using inv that by (auto simp: mgr_inv_def rows_apart_def row_apart_def)
  ultimately show ?thesis
    using inv_rt [OF inv h(1)] h unfolding unowned_def by simp (metis subsetD)
qed

end

end
