(* ===== verification/Sandboxes.thy ===== *)
theory Sandboxes
  imports Lifecycle
begin

text \<open>
  The manager's operations on sandboxes (\<open>Create\<close>, \<open>Exec\<close>, \<open>Logs\<close>, \<open>Stop\<close>, \<open>Delete\<close>) over any
  backend and store that meet their contracts: each keeps the invariant of \<open>Lifecycle\<close>, and what
  each does on every branch; then the properties of the manager, with witnesses over the
  in-memory backend and the SQLite store.
\<close>

text \<open>What a sandbox reported as running is: either it took a warm container and no call reached
  the backend, or the backend created its container from the effective spec.\<close>

definition created_running ::
    "'r runtime_ops \<Rightarrow> resolved \<Rightarrow> string \<Rightarrow> gotime \<Rightarrow> ('r, 's) manager \<Rightarrow> sandbox \<Rightarrow> ('r, 's) manager \<Rightarrow> bool" where
  "created_running rt res uuid now m sb m' \<longleftrightarrow>
     (\<exists>c. sb = (new_sandbox res uuid now)\<lparr> sb_runtime_id := c, sb_state := state_running \<rparr>
        \<and> ((\<exists>m1. try_claim res m = (Some c, m1) \<and> m_rt m' = m_rt m)
         \<or> (\<exists>h r'. try_claim res m = (None, m) \<and> c = h_id h
              \<and> rt_create rt (runtime_spec res uuid) (m_rt m) = (Inr h, r') \<and> m_rt m' = r')))"

definition reachable ::
    "'r runtime_ops \<Rightarrow> 's store_ops \<Rightarrow> 'r \<Rightarrow> 's \<Rightarrow> ('r, 's) manager \<Rightarrow> bool" where
  "reachable rt st r s m \<longleftrightarrow> (\<exists>pol log_bytes rec ops m0.
     new_manager (Some r) (Some s) pol log_bytes rec = Inr m0
     \<and> (\<forall>op \<in> set ops. op_ok op) \<and> m = mgr_run rt st ops m0)"

lemma reachable_intro:
  "new_manager (Some r) (Some s) pol lb rec = Inr m0 \<Longrightarrow> \<forall>op \<in> set ops. op_ok op \<Longrightarrow>
   reachable rt st r s (mgr_run rt st ops m0)"
  unfolding reachable_def by blast

context manager_env
begin

lemma inv_sinv: "mgr_inv m \<Longrightarrow> sinv (m_store m)" "mgr_inv m \<Longrightarrow> rinv (m_rt m)"
  by (simp_all add: mgr_inv_def)

section \<open>Create\<close>

lemma new_sandbox_simps [simp]:
  "sb_id (new_sandbox res uuid now) = uuid" "sb_runtime_id (new_sandbox res uuid now) = []"
  by (simp_all add: new_sandbox_def)

definition put_at :: "('r, 's) manager \<Rightarrow> sandbox \<Rightarrow> ('r, 's) manager \<Rightarrow> bool" where
  "put_at m sb m' \<longleftrightarrow> (\<exists>stored. same_sandbox stored sb \<and>
     view (m_store m') = (view (m_store m))(sb_id sb \<mapsto> stored))"

lemma create_runtime_error:
  assumes inv: "mgr_inv m" and ok: "maps_ok sb" and sb: "sb_runtime_id sb = []" "sb_state sb = state_error"
    and sp: "named_spec sp" and cr: "rt_create rt sp (m_rt m) = (Inl e, r')"
    and m': "m' = record_created img prof oc
      (m\<lparr> m_rt := r', m_store := snd (st_put st sb (m_store m)) \<rparr>)"
  shows "mgr_inv m' \<and> (view (m_store m') = view (m_store m) \<or> put_at m sb m')
    \<and> live (m_rt m') = live (m_rt m)"
proof -
  obtain res s' where s': "st_put st sb (m_store m) = (res, s')" by fastforce
  from create_err [OF inv_sinv(2) [OF inv] sp cr] have r': "rinv r'" "live r' = live (m_rt m)"
    "issued (m_rt m) \<subseteq> issued r'" by auto
  let ?m1 = "m\<lparr> m_rt := r' \<rparr>"
  have inv1: "mgr_inv ?m1" by (rule inv_rt [OF inv r'(1)]) (simp add: r')
  have "mgr_inv (?m1\<lparr> m_store := s' \<rparr>) \<and> (view s' = view (m_store m) \<or>
      (\<exists>stored. same_sandbox stored sb \<and> view s' = (view (m_store m))(sb_id sb \<mapsto> stored)))"
  proof (cases res)
    case None
    with s' put_ok [OF inv_sinv(1) [OF inv] ok] obtain stored where stored: "same_sandbox stored sb"
      "view s' = (view (m_store m))(sb_id sb \<mapsto> stored)" "sinv s'" by blast
    then have "sb_runtime_id stored = []" "sb_state stored = state_error"
      using sb by (simp_all add: same_sandbox_def)
    with inv_put_row [OF inv1 stored(3)] stored show ?thesis by (auto intro: unowned_apart)
  next
    case (Some x)
    with s' put_err [OF inv_sinv(1) [OF inv]] have "sinv s'" "view s' = view (m_store m)" by blast+
    with inv_store [OF inv1, of s'] show ?thesis by simp
  qed
  moreover have "m' = record_created img prof oc (?m1\<lparr> m_store := s' \<rparr>)"
    by (simp add: m' s')
  ultimately show ?thesis
    using r'(2) by (simp only: inv_record) (auto simp: put_at_def record_created_def)
qed

lemma create_facts:
  assumes inv: "mgr_inv m"
    and maps: "distinct (map fst (co_env opts))" "distinct (map fst (co_labels opts))"
    and cr: "create rt st uuid now opts m = ((sb, err), m')"
  shows "mgr_inv m' \<and>
    (case resolve (m_policy m) (request_of opts) of
       Inl e \<Rightarrow> err = Some (PolicyDenied e) \<and> sb = empty_sandbox
         \<and> m' = record_created (co_image opts) (co_profile opts) ''policy_denied'' m
     | Inr res \<Rightarrow> sb_id sb = uuid \<and>
         (case err of
            None \<Rightarrow> created_running rt res uuid now m sb m' \<and> put_at m sb m'
          | Some (StorePut e) \<Rightarrow> created_running rt res uuid now m sb m' \<and> view (m_store m') = view (m_store m)
          | Some (RuntimeCreate e) \<Rightarrow>
              fst (rt_create rt (runtime_spec res uuid) (m_rt m)) = Inl e
              \<and> sb = (new_sandbox res uuid now)\<lparr> sb_state := state_error \<rparr>
              \<and> (view (m_store m') = view (m_store m) \<or> put_at m sb m')
              \<and> live (m_rt m') = live (m_rt m)
          | _ \<Rightarrow> False))"
proof (cases "resolve (m_policy m) (request_of opts)")
  case (Inl e)
  with cr inv show ?thesis by (auto simp: create_def)
next
  case (Inr res)
  have ok: "maps_ok (new_sandbox res uuid now)" by (rule new_sandbox_maps_ok [OF Inr maps])
  obtain got m1 where tc: "try_claim res m = (got, m1)" by fastforce
  note claim = try_claim_facts [OF inv tc]
  show ?thesis
  proof (cases got)
    case (Some c)
    let ?sb = "(new_sandbox res uuid now)\<lparr> sb_runtime_id := c, sb_state := state_running \<rparr>"
    from cr Inr tc Some have fin: "finish_create st opts (pool_hit (rs_image res)) ?sb m1 = ((sb, err), m')"
      by (simp add: create_def Let_def)
    have "mgr_inv m1" "unowned m1 (sb_runtime_id ?sb)" using claim Some by simp_all
    from finish_create_facts [OF this(1) _ _ this(2) fin] ok claim tc Some
    have f: "mgr_inv m'" "sb = ?sb" "m_rt m' = m_rt m"
      "case err of None \<Rightarrow> put_at m ?sb m' | Some e \<Rightarrow> view (m_store m') = view (m_store m)"
      by (auto simp: put_at_def split: option.splits)
    moreover have "created_running rt res uuid now m sb m'"
      unfolding created_running_def using f tc Some by auto
    moreover have "\<forall>e. err = Some e \<longrightarrow> (\<exists>x. e = StorePut x)"
      using fin by (auto simp: finish_create_def split: prod.splits option.splits)
    ultimately show ?thesis using Inr
      by (auto simp: new_sandbox_def split: option.splits mgr_error.splits)
  next
    case None
    then have m1: "m1 = m" using claim by simp
    obtain cres r' where rc: "rt_create rt (runtime_spec res uuid) (m_rt m) = (cres, r')" by fastforce
    show ?thesis
    proof (cases cres)
      case (Inl e)
      let ?sb = "(new_sandbox res uuid now)\<lparr> sb_state := state_error \<rparr>"
      from cr Inr tc None rc Inl m1 have out: "sb = ?sb" "err = Some (RuntimeCreate e)"
        "m' = record_created (rs_image res) (co_profile opts) ''runtime_error''
           (m\<lparr> m_rt := r', m_store := snd (st_put st ?sb (m_store m)) \<rparr>)"
        by (auto simp: create_def Let_def)
      have "sb_runtime_id ?sb = []" "sb_state ?sb = state_error" by simp_all
      from create_runtime_error [OF inv _ this named_runtime_spec rc [unfolded Inl] out(3)] ok out \<open>resolve _ _ = _\<close> rc Inl
      show ?thesis by simp
    next
      case hd: (Inr h)
      let ?sb = "(new_sandbox res uuid now)\<lparr> sb_runtime_id := h_id h, sb_state := state_running \<rparr>"
      from cr Inr tc None rc hd m1 have fin: "finish_create st opts (pool_miss (rs_image res)) ?sb
          (m\<lparr> m_rt := r' \<rparr>) = ((sb, err), m')" by (simp add: create_def Let_def)
      from unowned_fresh [OF inv named_runtime_spec rc [unfolded hd]] have
        "mgr_inv (m\<lparr> m_rt := r' \<rparr>)" "unowned (m\<lparr> m_rt := r' \<rparr>) (sb_runtime_id ?sb)" by simp_all
      from finish_create_facts [OF this(1) _ _ this(2) fin] ok
      have f: "mgr_inv m'" "sb = ?sb" "m_rt m' = r'"
        "case err of None \<Rightarrow> put_at m ?sb m' | Some e \<Rightarrow> view (m_store m') = view (m_store m)"
        by (auto simp: put_at_def split: option.splits)
      moreover have "created_running rt res uuid now m sb m'"
        unfolding created_running_def using f tc None m1 rc hd by auto
      moreover have "\<forall>e. err = Some e \<longrightarrow> (\<exists>x. e = StorePut x)"
        using fin by (auto simp: finish_create_def split: prod.splits option.splits)
      ultimately show ?thesis using Inr
        by (auto split: option.splits mgr_error.splits)
    qed
  qed
qed

section \<open>Exec and logs\<close>

definition logs_only :: "('r, 's) manager \<Rightarrow> ('r, 's) manager \<Rightarrow> bool" where
  "logs_only m m' \<longleftrightarrow> (\<exists>l. m' = m\<lparr> m_logs := l \<rparr>)"

lemma logs_only_inv: "logs_only m m' \<Longrightarrow> mgr_inv m \<Longrightarrow> mgr_inv m'"
proof -
  assume "logs_only m m'" and inv: "mgr_inv m"
  then obtain l where "m' = m\<lparr> m_logs := l \<rparr>" by (auto simp: logs_only_def)
  with inv show ?thesis by (intro inv_cong [OF inv]) simp_all
qed

lemma logs_only_refl [simp]: "logs_only m m"
  unfolding logs_only_def by (rule exI [of _ "m_logs m"]) simp

lemma logs_only_for [simp]: "log_buffer_for i m = (b, m') \<Longrightarrow> logs_only m m'"
  by (auto simp: log_buffer_for_def logs_only_def Let_def split: if_splits option.splits)
    (metis logs_only_def logs_only_refl)+

lemma logs_only_set: "logs_only m (set_log_buffer i b m)"
  by (auto simp: set_log_buffer_def logs_only_def)

lemma inv_exec:
  assumes inv: "mgr_inv m"
  shows "mgr_inv (snd (exec rt st i opts now m))"
proof -
  obtain res m1 where g: "get_sandbox st i m = (res, m1)" by fastforce
  then have inv1: "mgr_inv m1" using get_facts [OF inv_sinv(1) [OF inv] g] inv_store_only inv by blast
  show ?thesis
  proof (cases res)
    case (Inr sb)
    obtain b m2 where b: "log_buffer_for i m1 = (b, m2)" by fastforce
    then have inv2: "mgr_inv m2" using logs_only_inv logs_only_for inv1 by blast
    obtain chunks xres r' where x: "rt_exec rt (sb_runtime_id sb) (exec_spec_of opts) (m_rt m2) = (chunks, xres, r')"
      by (cases "rt_exec rt (sb_runtime_id sb) (exec_spec_of opts) (m_rt m2)")
    from exec_keeps [OF inv_sinv(2) [OF inv2] x] have inv3: "mgr_inv (m2\<lparr> m_rt := r' \<rparr>)"
      by (intro inv_rt [OF inv2]) auto
    have "mgr_inv (set_log_buffer i b' (m2\<lparr> m_rt := r' \<rparr>))" for b'
      by (rule logs_only_inv [OF logs_only_set inv3])
    with g Inr b x inv1 inv3 show ?thesis
      by (auto simp: exec_def Let_def split: option.splits sum.splits)
  qed (use g inv1 in \<open>simp add: exec_def\<close>)
qed

lemma inv_logs:
  assumes inv: "mgr_inv m"
  shows "mgr_inv (snd (logs st i opts m))"
proof -
  obtain res m1 where g: "get_sandbox st i m = (res, m1)" by fastforce
  then have inv1: "mgr_inv m1" using get_facts [OF inv_sinv(1) [OF inv] g] inv_store_only inv by blast
  obtain b m2 where b: "log_buffer_for i m1 = (b, m2)" by fastforce
  then have inv2: "mgr_inv m2" using logs_only_inv logs_only_for inv1 by blast
  have "mgr_inv (set_log_buffer i b' m2)" for b' by (rule logs_only_inv [OF logs_only_set inv2])
  with g b inv1 inv2 show ?thesis
    by (auto simp: logs_def Let_def split: option.splits sum.splits prod.splits)
qed

section \<open>Stop and Delete\<close>

lemma stop_facts:
  assumes inv: "mgr_inv m" and st: "stop rt st i m = (err, m')"
  shows "mgr_inv m' \<and>
    (case err of
       None \<Rightarrow> (\<exists>sb stored. view (m_store m) i = Some sb
           \<and> same_sandbox stored (sb\<lparr> sb_state := state_stopped \<rparr>)
           \<and> view (m_store m') = (view (m_store m))(i \<mapsto> stored))
     | Some e \<Rightarrow> view (m_store m') = view (m_store m)
         \<and> (e = StoreFailed ErrNotFound \<longrightarrow> view (m_store m) i = None \<and> m_rt m' = m_rt m))"
proof -
  obtain res m1 where g: "get_sandbox st i m = (res, m1)" by fastforce
  note gf = get_facts [OF inv_sinv(1) [OF inv] g]
  have so: "store_only m m1" using gf by simp
  have inv1: "mgr_inv m1" by (rule inv_store_only [OF so inv])
  have same1: "view (m_store m1) = view (m_store m)" "m_rt m1 = m_rt m"
    using store_only_same [OF so] by simp_all
  show ?thesis
  proof (cases res)
    case (Inl e)
    with g st gf inv1 same1 show ?thesis by (auto simp: stop_def)
  next
    case (Inr sb)
    then have row: "view (m_store m1) i = Some sb" using gf same1 by simp
    then have id: "sb_id sb = i" "maps_ok sb" using view_id [OF inv_sinv(1) [OF inv1]] by blast+
    obtain sres r' where r': "rt_stop rt (sb_runtime_id sb) (m_rt m1) = (sres, r')" by fastforce
    let ?m2 = "m1\<lparr> m_rt := r' \<rparr>"
    from stop_keeps [OF inv_sinv(2) [OF inv1] r'] have inv2: "mgr_inv ?m2"
      by (intro inv_rt [OF inv1]) auto
    show ?thesis
    proof (cases sres)
      case (Some e)
      with g Inr r' st inv2 same1 show ?thesis by (auto simp: stop_def)
    next
      case None
      let ?sb = "sb\<lparr> sb_state := state_stopped \<rparr>"
      obtain pres s' where put: "st_put st ?sb (m_store m1) = (pres, s')" by fastforce
      have sinv2: "sinv (m_store m1)" using inv_sinv(1) [OF inv1] .
      show ?thesis
      proof (cases pres)
        case None': None
        from put_ok [OF sinv2 _ put [unfolded None']] id obtain stored where
          stored: "same_sandbox stored ?sb" "view s' = (view (m_store m1))(i \<mapsto> stored)" "sinv s'"
          by auto
        have "row_apart ?m2 i sb" using inv2 row by (simp add: mgr_inv_def rows_apart_def)
        then have "row_apart ?m2 i stored" "sb_state stored = state_stopped"
          using stored(1) by (simp_all add: same_sandbox_def row_apart_def)
        with stored inv_put_row [OF inv2 stored(3)] have inv3: "mgr_inv (?m2\<lparr> m_store := s' \<rparr>)" by simp
        then have "store_only (?m2\<lparr> m_store := s' \<rparr>) (refresh_active st (?m2\<lparr> m_store := s' \<rparr>))"
          by (intro refresh_facts) (simp add: stored(3))
        with inv3 inv_store_only store_only_same(10) g Inr r' None put None' st stored row same1
        show ?thesis by (fastforce simp: stop_def)
      next
        case (Some e)
        with put put_err [OF sinv2] have s': "sinv s'" "view s' = view (m_store m1)" "e \<noteq> ErrNotFound"
          by blast+
        with inv_store [OF inv2, of s'] g Inr r' None put Some st same1 show ?thesis
          by (auto simp: stop_def)
      qed
    qed
  qed
qed

definition removes_container :: "string \<Rightarrow> 'r \<Rightarrow> 'r \<Rightarrow> bool" where
  "removes_container c r r' \<longleftrightarrow> r' = (if c \<noteq> [] then snd (rt_remove rt c r) else r)"

lemma delete_facts:
  assumes inv: "mgr_inv m" and de: "delete rt st i m = (err, m')"
  shows "mgr_inv m' \<and>
    (case err of
       None \<Rightarrow> (\<exists>sb. view (m_store m) i = Some sb \<and> view (m_store m') = (view (m_store m))(i := None)
           \<and> removes_container (sb_runtime_id sb) (m_rt m) (m_rt m')) \<and> map_of (m_logs m') i = None
           \<and> (\<forall>j. j \<noteq> i \<longrightarrow> map_of (m_logs m') j = map_of (m_logs m) j)
     | Some e \<Rightarrow> view (m_store m') = view (m_store m) \<and> m_logs m' = m_logs m
         \<and> (e = StoreFailed ErrNotFound \<longrightarrow> view (m_store m) i = None \<and> m_rt m' = m_rt m))"
proof -
  obtain res m1 where g: "get_sandbox st i m = (res, m1)" by fastforce
  note gf = get_facts [OF inv_sinv(1) [OF inv] g]
  have so: "store_only m m1" using gf by simp
  have inv1: "mgr_inv m1" by (rule inv_store_only [OF so inv])
  have same1: "view (m_store m1) = view (m_store m)" "m_rt m1 = m_rt m" "m_logs m1 = m_logs m"
    using store_only_same [OF so] by simp_all
  show ?thesis
  proof (cases res)
    case (Inl e)
    with g de gf inv1 same1 show ?thesis by (auto simp: delete_def)
  next
    case (Inr sb)
    then have row: "view (m_store m1) i = Some sb" using gf same1 by simp
    let ?r = "if sb_runtime_id sb \<noteq> [] then snd (rt_remove rt (sb_runtime_id sb) (m_rt m1)) else m_rt m1"
    let ?m2 = "m1\<lparr> m_rt := ?r \<rparr>"
    have "sb_runtime_id sb \<noteq> [] \<Longrightarrow> sb_runtime_id sb \<in> issued (m_rt m1)"
      using inv1 row by (auto simp: mgr_inv_def rows_apart_def row_apart_def)
      then have "rinv ?r \<and> issued ?r = issued (m_rt m1)"
      using remove [of "m_rt m1" "sb_runtime_id sb"] inv_sinv(2) [OF inv1]
      by (cases "rt_remove rt (sb_runtime_id sb) (m_rt m1)") simp
    then have inv2: "mgr_inv ?m2" by (intro inv_rt [OF inv1]) auto
    obtain dres s' where del: "st_delete st i (m_store m1) = (dres, s')" by fastforce
    show ?thesis
    proof (cases dres)
      case None
      from delete_ok [OF inv_sinv(1) [OF inv1] del [unfolded None]]
      have s': "sinv s'" "view s' = (view (m_store m1))(i := None)" by auto
      let ?m3 = "drop_log_buffer i (?m2\<lparr> m_store := s' \<rparr>)"
      have "mgr_inv (?m2\<lparr> m_store := s' \<rparr>)" using inv_drop_row [OF inv2 s'(1)] s'(2) by simp
      then have inv3: "mgr_inv ?m3" by (rule logs_only_inv [rotated]) (auto simp: drop_log_buffer_def logs_only_def)
      have "store_only ?m3 (refresh_active st ?m3)"
        by (rule refresh_facts) (simp add: drop_log_buffer_def s')
      moreover have "m' = refresh_active st ?m3" "err = None"
        using g Inr del None de by (simp_all add: delete_def Let_def)
      ultimately show ?thesis
        using inv_store_only [OF _ inv3] store_only_same(1,8,10) [of ?m3 m'] s'(2) row same1
        by (auto simp: removes_container_def drop_log_buffer_def)
    next
      case (Some e)
      from delete_err [OF inv_sinv(1) [OF inv1] del [unfolded Some]]
      have s': "sinv s'" "view s' = view (m_store m1)" "e \<noteq> ErrNotFound" using row by auto
      with inv_store [OF inv2 s'(1)] g Inr del Some de same1 show ?thesis
        by (auto simp: delete_def Let_def)
    qed
  qed
qed

section \<open>Every operation keeps the invariant\<close>

lemma mgr_step_inv: "mgr_inv m \<Longrightarrow> op_ok op \<Longrightarrow> mgr_inv (mgr_step rt st op m)"
proof (cases op)
  case (OpCreate u t opts)
  assume inv: "mgr_inv m" and op: "op_ok op"
  obtain sb err m' where cr: "create rt st u t opts m = ((sb, err), m')" by (metis prod.exhaust)
  from create_facts [OF inv _ _ cr] op OpCreate have "mgr_inv m'" by simp
  with OpCreate cr show ?thesis by simp
next
  case (OpStop i)
  assume "mgr_inv m"
  with OpStop stop_facts [of m i] show ?thesis by (cases "stop rt st i m") simp
next
  case (OpDelete i)
  assume "mgr_inv m"
  with OpDelete delete_facts [of m i] show ?thesis by (cases "delete rt st i m") simp
next
  case (OpProxyAddr i)
  assume inv: "mgr_inv m"
  obtain res m1 where g: "get_sandbox st i m = (res, m1)" by fastforce
  with get_facts [OF inv_sinv(1) [OF inv] g] inv_store_only inv have "mgr_inv m1" by blast
  with OpProxyAddr g show ?thesis by (auto simp: proxy_addr_def split: sum.splits option.splits)
next
  case (OpGet i)
  assume inv: "mgr_inv m"
  obtain res m1 where g: "get_sandbox st i m = (res, m1)" by fastforce
  with get_facts [OF inv_sinv(1) [OF inv] g] inv_store_only inv OpGet show ?thesis by auto
next
  case OpList
  assume inv: "mgr_inv m"
  obtain r s' where l: "st_list st (m_store m) = (r, s')" by fastforce
  with list_all [OF inv_sinv(1) [OF inv] l] inv_store [OF inv, of s'] OpList show ?thesis
    by (auto simp: list_sandboxes_def split: sum.splits)
qed (simp_all add: inv_start inv_shutdown inv_replace_policy inv_retire inv_refill_pool inv_exec inv_logs)

lemma mgr_run_inv: "mgr_inv m \<Longrightarrow> \<forall>op \<in> set ops. op_ok op \<Longrightarrow> mgr_inv (mgr_run rt st ops m)"
  unfolding mgr_run_def by (induction ops arbitrary: m) (auto intro: mgr_step_inv)

lemma new_manager_inv:
  assumes "new_manager (Some r) (Some s) pol lb rec = Inr m"
    and "rinv r" and "sinv s" and "view s = Map.empty"
  shows "mgr_inv m"
proof -
  obtain p where m: "m_rt m = r" "m_store m = s" "m_heap m = map snd (build_pools p)"
    "m_pools m = place 0 (build_pools p)" "m_retiring m = []"
    using assms(1) by (auto simp: new_manager_def Let_def)
  have "p_avail (m_heap m ! i) = [] \<and> named_spec (p_spec (m_heap m ! i))" if "i < length (m_heap m)" for i
  proof -
    have "m_heap m ! i \<in> snd ` set (build_pools p)" using nth_mem [OF that] m(3) by simp
    then show ?thesis using pool_build_avail pool_build_named by blast
  qed
  then have "pools_apart m" using assms(2) m(1) by (simp add: pools_apart_def pool_ready_def)
  moreover have "refs_ok m"
    unfolding refs_ok_def m(3,4,5) place_def by (auto dest: set_zip_rightD)
  moreover have "rows_apart m" using assms(4) by (simp add: rows_apart_def m)
  ultimately show ?thesis using assms(2,3) by (simp add: mgr_inv_def m)
qed

lemma inv_parts:
  assumes "mgr_inv m"
  shows "view (m_store m) k = Some sb \<Longrightarrow>
      sb_id sb = k \<and> sb_state sb \<in> {state_running, state_stopped, state_error}
      \<and> (sb_runtime_id sb \<noteq> [] \<longrightarrow>
           (\<forall>p \<in> set (m_heap m). sb_runtime_id sb \<notin> set (p_avail p))
         \<and> (\<forall>k' sb'. view (m_store m) k' = Some sb' \<and> sb_runtime_id sb' = sb_runtime_id sb \<longrightarrow> k' = k))"
    and "i < length (m_heap m) \<Longrightarrow> j < length (m_heap m) \<Longrightarrow> i \<noteq> j \<Longrightarrow>
      set (p_avail (m_heap m ! i)) \<inter> set (p_avail (m_heap m ! j)) = {}"
proof -
  assume row: "view (m_store m) k = Some sb"
  then have "row_apart m k sb" "sb_state sb \<in> {state_running, state_stopped, state_error}"
    using assms by (simp_all add: mgr_inv_def rows_apart_def)
  moreover have "sb_id sb = k" using view_id [OF inv_sinv(1) [OF assms] row] by simp
  ultimately show "sb_id sb = k \<and> sb_state sb \<in> {state_running, state_stopped, state_error}
      \<and> (sb_runtime_id sb \<noteq> [] \<longrightarrow>
           (\<forall>p \<in> set (m_heap m). sb_runtime_id sb \<notin> set (p_avail p))
         \<and> (\<forall>k' sb'. view (m_store m) k' = Some sb' \<and> sb_runtime_id sb' = sb_runtime_id sb \<longrightarrow> k' = k))"
    unfolding row_apart_def by blast
qed (use assms in \<open>simp add: mgr_inv_def pools_apart_def\<close>)

lemma reachable_inv:
  "reachable rt st r s m \<Longrightarrow> rinv r \<Longrightarrow> sinv s \<Longrightarrow> view s = Map.empty \<Longrightarrow> mgr_inv m"
  unfolding reachable_def using new_manager_inv mgr_run_inv by blast

end

interpretation fake_mgr: manager_env fake_ops fake_live fake_issued fake_invar
    sqlite_ops sqlite_view sqlite_ok sqlite_due
  by (rule manager_env.intro)
    (rule fake_managed.managed_runtime_axioms fake_pool.pool_backend_axioms
      sqlite.sandbox_store_axioms)+

text \<open>What the gauge counts.\<close>

context sandbox_store
begin

lemma count_card:
  assumes inv: "invar s" and l: "set sbs = ran (view s)" "distinct (map sb_id sbs)"
  shows "count_running sbs = card {i. \<exists>sb. view s i = Some sb \<and> sb_state sb = state_running}"
proof -
  let ?run = "filter (\<lambda>sb. sb_state sb = state_running) sbs"
  have "{i. \<exists>sb. view s i = Some sb \<and> sb_state sb = state_running} = set (map sb_id ?run)"
    using view_id [OF inv] l(1) by (fastforce simp: ran_def)
  moreover have "distinct (map sb_id ?run)" using l(2) by (rule distinct_map_filter)
  ultimately show ?thesis unfolding count_running_def by (metis distinct_card length_map)
qed

end

section \<open>Properties\<close>

text \<open>The manager of the witnesses: the in-memory backend and an empty SQLite store, the policy of
  the tests, metrics on.\<close>

definition demo_manager :: "(fake_runtime, sqlite) manager" where
  "demo_manager = \<lparr> m_rt = fake_empty, m_store = sqlite_open, m_policy = sample_policy,
     m_pools = [], m_heap = [], m_retiring = [], m_started = False, m_metrics = Some new_metrics,
     m_log_cap = 4096, m_logs = [] \<rparr>"

definition demo_options :: create_options where
  "demo_options = \<lparr> co_name = ''box'', co_profile = [], co_image = ''alpine:latest'', co_cmd = [],
     co_env = [(''A'', ''1'')], co_cpus = Fin 0, co_memory_mb = 0, co_ttl = 0, co_labels = [] \<rparr>"

lemma demo_manager_new:
  "new_manager (Some fake_empty) (Some sqlite_open) (Some sample_policy) 4096 (Some new_metrics)
     = Inr demo_manager"
  by (simp add: new_manager_def demo_manager_def build_pools_def sample_policy_def pooled_def
      place_def Let_def)

lemma demo_reachable:
  "\<forall>op \<in> set ops. op_ok op \<Longrightarrow>
   reachable fake_ops sqlite_ops fake_empty sqlite_open (mgr_run fake_ops sqlite_ops ops demo_manager)"
  by (rule reachable_intro [OF demo_manager_new])

lemma demo_init_ok [simp]: "fake_invar fake_empty" "sqlite_view sqlite_open = Map.empty"
  by (simp_all add: fake_invar_def fake_empty_def sqlite_view_def sqlite_open_def fun_eq_iff)

definition demo_resolved :: resolved where
  "demo_resolved = resolve_spec sample_policy (request_of demo_options)"

lemma demo_resolve: "resolve sample_policy (request_of demo_options) = Inr demo_resolved"
  by (simp add: resolve_Inr resolve_denied_def chosen_image_def profile_layer_def sample_defs
      demo_options_def request_of_def demo_resolved_def)

text \<open>After \<open>Create\<close> on the manager of the witnesses: one running sandbox.\<close>

definition demo_created :: "(fake_runtime, sqlite) manager" where
  "demo_created = mgr_run fake_ops sqlite_ops [OpCreate ''u1'' 0 demo_options] demo_manager"

lemma demo_create:
  "\<exists>sb. create fake_ops sqlite_ops ''u1'' 0 demo_options demo_manager = ((sb, None), demo_created)
     \<and> sb_runtime_id sb = fake_id 0"
proof -
  obtain sb err m' where cr: "create fake_ops sqlite_ops ''u1'' 0 demo_options demo_manager = ((sb, err), m')"
    by (metis prod.exhaust)
  have "try_claim demo_resolved demo_manager = (None, demo_manager)"
    by (simp add: try_claim_def demo_manager_def)
  moreover have "m_policy demo_manager = sample_policy" "db_plan (m_store demo_manager) = []"
    "m_rt demo_manager = fake_empty"
    by (simp_all add: demo_manager_def)
  ultimately have "err = None" "sb_runtime_id sb = fake_id 0"
    using cr by (auto simp: create_def demo_resolve Let_def fake_ops_def fake_create_def
        finish_create_def sqlite_ops_def sqlite_put_def db_next_def fake_empty_def)
  then show ?thesis using cr by (auto simp: demo_created_def mgr_run_def)
qed

lemma demo_create_row:
  "\<exists>sb stored. sb_runtime_id sb = fake_id 0 \<and> sb_state sb = state_running \<and> same_sandbox stored sb
     \<and> sqlite_view (m_store demo_created) ''u1'' = Some stored"
proof -
  obtain sb where cr: "create fake_ops sqlite_ops ''u1'' 0 demo_options demo_manager = ((sb, None), demo_created)"
    and id: "sb_runtime_id sb = fake_id 0" using demo_create by blast
  have inv: "fake_mgr.mgr_inv demo_manager"
    using fake_mgr.new_manager_inv [OF demo_manager_new] by simp
  have "m_policy demo_manager = sample_policy" by (simp add: demo_manager_def)
  with fake_mgr.create_facts [OF inv _ _ cr] demo_resolve id show ?thesis
    by (auto simp: demo_options_def fake_mgr.put_at_def created_running_def)
qed

text \<open>C1. No container is shared. Over any backend and store that meet their contracts, after any
  sequence of operations on a manager started on an empty store, every stored sandbox is running,
  stopped or failed, its container is in no warm pool and belongs to no other sandbox; and no
  container is in two pools.\<close>

theorem no_container_shared:
  assumes "manager_env rt live issued rinv st view sinv due"
    and "rinv r" and "sinv s" and "view s = Map.empty" and "reachable rt st r s m"
  shows "(\<forall>k sb. view (m_store m) k = Some sb \<longrightarrow>
        sb_id sb = k \<and> sb_state sb \<in> {state_running, state_stopped, state_error}
      \<and> (sb_runtime_id sb \<noteq> [] \<longrightarrow>
           (\<forall>p \<in> set (m_heap m). sb_runtime_id sb \<notin> set (p_avail p))
         \<and> (\<forall>k' sb'. view (m_store m) k' = Some sb' \<and> sb_runtime_id sb' = sb_runtime_id sb \<longrightarrow> k' = k)))
    \<and> (\<forall>i < length (m_heap m). \<forall>j < length (m_heap m). i \<noteq> j \<longrightarrow>
         set (p_avail (m_heap m ! i)) \<inter> set (p_avail (m_heap m ! j)) = {})"
proof -
  have inv: "manager_env.mgr_inv issued rinv view sinv m"
    by (rule manager_env.reachable_inv [OF assms(1,5,2,3,4)])
  note parts = manager_env.inv_parts [OF assms(1) inv]
  then show ?thesis by blast
qed

theorem no_container_shared_witness:
  "\<exists>sb. sqlite_view (m_store demo_created) ''u1'' = Some sb \<and> sb_runtime_id sb = fake_id 0
     \<and> sb_state sb = state_running \<and> sb_id sb = ''u1''"
proof -
  have reach: "reachable fake_ops sqlite_ops fake_empty sqlite_open demo_created"
    unfolding demo_created_def by (rule demo_reachable) (simp add: demo_options_def)
  obtain sb stored where "sb_runtime_id sb = fake_id 0" and "sb_state sb = state_running"
    and "same_sandbox stored sb" and v: "sqlite_view (m_store demo_created) ''u1'' = Some stored"
    using demo_create_row by blast
  then show ?thesis
    using no_container_shared [OF fake_mgr.manager_env_axioms _ _ _ reach]
    by (auto simp: same_sandbox_def)
qed

text \<open>C9. \<open>Create\<close> on every branch. A request the policy denies leaves backend, store and pools
  alone. Otherwise the sandbox has the given identifier, and: without an error it is running, on
  a warm container or on one created from the effective spec, and it is stored (every other row
  unchanged); when the store fails, the container runs but there is no row; when the backend
  fails, no container is left, the returned sandbox is in state error, and at most its own row
  was written. No other error is possible.\<close>

theorem create_outcomes:
  assumes "manager_env rt live issued rinv st view sinv due"
    and "rinv r" and "sinv s" and "view s = Map.empty" and "reachable rt st r s m"
    and "op_ok (OpCreate uuid now opts)"
    and "create rt st uuid now opts m = ((sb, err), m')"
  shows "case resolve (m_policy m) (request_of opts) of
      Inl e \<Rightarrow> err = Some (PolicyDenied e) \<and> sb = empty_sandbox \<and> m_rt m' = m_rt m
        \<and> m_store m' = m_store m \<and> m_heap m' = m_heap m \<and> m_pools m' = m_pools m
    | Inr res \<Rightarrow> sb_id sb = uuid \<and>
        (case err of
           None \<Rightarrow> created_running rt res uuid now m sb m'
             \<and> (\<exists>stored. same_sandbox stored sb
                  \<and> view (m_store m') = (view (m_store m))(uuid \<mapsto> stored))
         | Some (StorePut e) \<Rightarrow> created_running rt res uuid now m sb m'
             \<and> view (m_store m') = view (m_store m)
         | Some (RuntimeCreate e) \<Rightarrow>
             fst (rt_create rt (runtime_spec res uuid) (m_rt m)) = Inl e
             \<and> sb = (new_sandbox res uuid now)\<lparr> sb_state := state_error \<rparr>
             \<and> (view (m_store m') = view (m_store m)
                \<or> (\<exists>stored. same_sandbox stored sb
                     \<and> view (m_store m') = (view (m_store m))(uuid \<mapsto> stored)))
             \<and> live (m_rt m') = live (m_rt m)
         | _ \<Rightarrow> False)"
proof -
  have inv: "manager_env.mgr_inv issued rinv view sinv m"
    by (rule manager_env.reachable_inv [OF assms(1,5,2,3,4)])
  from manager_env.create_facts [OF assms(1) inv _ _ assms(7)] assms(6) show ?thesis
    by (auto simp: record_created_def manager_env.put_at_def [OF assms(1)]
        split: sum.splits option.splits mgr_error.splits)
qed

theorem create_outcomes_witness:
  "\<exists>sb stored. create fake_ops sqlite_ops ''u1'' 0 demo_options demo_manager = ((sb, None), demo_created)
     \<and> created_running fake_ops demo_resolved ''u1'' 0 demo_manager sb demo_created
     \<and> same_sandbox stored sb \<and> sqlite_view (m_store demo_created) ''u1'' = Some stored"
proof -
  have reach: "reachable fake_ops sqlite_ops fake_empty sqlite_open demo_manager"
    using demo_reachable [of "[]"] by (simp add: mgr_run_def)
  obtain sb where cr: "create fake_ops sqlite_ops ''u1'' 0 demo_options demo_manager = ((sb, None), demo_created)"
    using demo_create by blast
  have "m_policy demo_manager = sample_policy" by (simp add: demo_manager_def)
  with create_outcomes [OF fake_mgr.manager_env_axioms _ _ _ reach _ cr] demo_resolve cr
  show ?thesis by (auto simp: demo_options_def)
qed


definition demo_pool_policy :: policy where
  "demo_pool_policy = default_policy\<lparr> po_images :=
     [\<lparr> im_name = ''alpine'', im_description = [], im_cpus = Fin 0, im_memory_mb = 0, im_ttl = 0,
        im_egress = None, im_pool = 1 \<rparr>] \<rparr>"

definition demo_warm :: "(fake_runtime, sqlite) manager" where
  "demo_warm = demo_manager\<lparr> m_policy := demo_pool_policy, m_pools := [(''alpine'', 0)],
     m_heap := [(warm_pool demo_pool_policy (hd (po_images demo_pool_policy)))
       \<lparr> p_avail := [fake_id 0] \<rparr>] \<rparr>"


text \<open>C21. \<open>Exec\<close> reaches the backend exactly for running sandboxes: with a stored row in state
  running it makes one call on that row's container and returns its chunks and its result;
  otherwise (no row, a store error, another state) it makes none, writes no log and says why. It
  never changes a row.\<close>

theorem exec_only_running:
  assumes "sandbox_store st view sinv due" and "sinv (m_store m)"
    and "exec rt st i opts now m = ((chunks, res), m')"
  shows "view (m_store m') = view (m_store m) \<and>
    ((\<exists>sb xres. view (m_store m) i = Some sb \<and> sb_state sb = state_running
        \<and> rt_exec rt (sb_runtime_id sb) (exec_spec_of opts) (m_rt m) = (chunks, xres, m_rt m')
        \<and> res = map_sum RuntimeFailed id xres)
     \<or> (chunks = [] \<and> m_rt m' = m_rt m \<and> m_logs m' = m_logs m \<and>
        (res = Inl (StoreFailed ErrNotFound) \<and> view (m_store m) i = None
         \<or> (\<exists>e. res = Inl (StoreFailed (StoreError e)))
         \<or> (\<exists>sb. view (m_store m) i = Some sb \<and> sb_state sb \<noteq> state_running
              \<and> res = Inl (NotRunning i (sb_state sb))))))"
proof -
  obtain gres s' where g: "st_get st i (m_store m) = (gres, s')" by fastforce
  note gf = sandbox_store.get [OF assms(1,2) g]
  show ?thesis
  proof (cases gres)
    case (Inl e)
    with g gf assms(3) show ?thesis
      by (cases e) (auto simp: exec_def get_sandbox_def)
  next
    case (Inr sb)
    obtain b m2 where b: "log_buffer_for i (m\<lparr> m_store := s' \<rparr>) = (b, m2)" by fastforce
    then have m2: "m_rt m2 = m_rt m" "m_store m2 = s'"
      by (auto simp: log_buffer_for_def Let_def split: if_splits option.splits)
    obtain ch xres r' where "rt_exec rt (sb_runtime_id sb) (exec_spec_of opts) (m_rt m) = (ch, xres, r')"
      by (cases "rt_exec rt (sb_runtime_id sb) (exec_spec_of opts) (m_rt m)")
    with Inr g gf assms(3) b m2 show ?thesis
      by (auto simp: exec_def get_sandbox_def Let_def set_log_buffer_def
          split: if_splits sum.splits option.splits)
  qed
qed

definition demo_exec :: exec_options where
  "demo_exec = \<lparr> eo_cmd = [''true''], eo_env = [], eo_work_dir = [], eo_stdin = [],
     eo_stdout = False, eo_stderr = False \<rparr>"

theorem exec_only_running_witness:
  "fst (exec fake_ops sqlite_ops ''nope'' demo_exec 0 demo_manager) = ([], Inl (StoreFailed ErrNotFound))"
proof -
  obtain chunks res m' where e: "exec fake_ops sqlite_ops ''nope'' demo_exec 0 demo_manager = ((chunks, res), m')"
    by (metis prod.exhaust)
  have "m_store demo_manager = sqlite_open" by (simp add: demo_manager_def)
  moreover from this have "\<not> (\<exists>e. res = Inl (StoreFailed (StoreError e)))"
    using e by (auto simp: exec_def get_sandbox_def sqlite_ops_def sqlite_get_def db_next_def sqlite_open_def)
  ultimately show ?thesis
    using exec_only_running [OF sqlite.sandbox_store_axioms _ e] e by auto
qed

text \<open>\<open>Stop\<close>: success means the sandbox was stored and exactly its row now says stopped,
  with the same container; after a failure every row is as before, and "not found" is reported
  only for a missing row, without a call to the backend.\<close>

theorem stop_outcomes:
  assumes "manager_env rt live issued rinv st view sinv due"
    and "rinv r" and "sinv s" and "view s = Map.empty" and "reachable rt st r s m"
    and "stop rt st i m = (err, m')"
  shows "case err of
      None \<Rightarrow> (\<exists>sb stored. view (m_store m) i = Some sb
          \<and> same_sandbox stored (sb\<lparr> sb_state := state_stopped \<rparr>)
          \<and> view (m_store m') = (view (m_store m))(i \<mapsto> stored))
    | Some e \<Rightarrow> view (m_store m') = view (m_store m)
        \<and> (e = StoreFailed ErrNotFound \<longrightarrow> view (m_store m) i = None \<and> m_rt m' = m_rt m)"
  using manager_env.stop_facts [OF assms(1) manager_env.reachable_inv [OF assms(1,5,2,3,4)] assms(6)]
  by blast

lemma demo_created_reachable: "reachable fake_ops sqlite_ops fake_empty sqlite_open demo_created"
  unfolding demo_created_def by (rule demo_reachable) (simp add: demo_options_def)

lemma demo_created_plan [simp]: "db_plan (m_store demo_created) = []"
proof -
  have "db_plan (m_store (mgr_step fake_ops sqlite_ops (OpCreate ''u1'' 0 demo_options) demo_manager)) = []"
    by (simp add: create_def demo_manager_def demo_resolve try_claim_def fake_ops_def fake_create_def
        finish_create_def sqlite_ops_def sqlite_put_ok sqlite_list_def db_next_def refresh_active_def
        record_created_def Let_def)
  then show ?thesis by (simp add: demo_created_def mgr_run_def)
qed

lemma demo_get: "\<exists>sb. st_get sqlite_ops ''u1'' (m_store demo_created) = (Inr sb, m_store demo_created)
    \<and> sb_runtime_id sb = fake_id 0 \<and> sb_state sb = state_running"
  using demo_create_row by (auto simp: sqlite_ops_def sqlite_get_view same_sandbox_def)

theorem stop_outcomes_witness:
  "\<exists>m' stored. stop fake_ops sqlite_ops ''u1'' demo_created = (None, m')
     \<and> sqlite_view (m_store m') ''u1'' = Some stored \<and> sb_state stored = state_stopped"
proof -
  obtain err m' where st: "stop fake_ops sqlite_ops ''u1'' demo_created = (err, m')" by fastforce
  obtain sb where "st_get sqlite_ops ''u1'' (m_store demo_created) = (Inr sb, m_store demo_created)"
    using demo_get by blast
  then have "err = None"
    using st by (auto simp: stop_def get_sandbox_def sqlite_ops_def sqlite_put_ok fake_ops_def fake_stop_def)
  with stop_outcomes [OF fake_mgr.manager_env_axioms _ _ _ demo_created_reachable st] st show ?thesis
    by (auto simp: same_sandbox_def)
qed

text \<open>C23. \<open>Delete\<close>: success means the sandbox was stored, exactly its row and its log are gone,
  and \<open>Remove\<close> was called once on its container, if it had one (its result is ignored); a failed
  removal of the row leaves every row and log, and "not found" is reported only for a missing
  row, without a call to the backend.\<close>

theorem delete_outcomes:
  assumes "manager_env rt live issued rinv st view sinv due"
    and "rinv r" and "sinv s" and "view s = Map.empty" and "reachable rt st r s m"
    and "delete rt st i m = (err, m')"
  shows "case err of
      None \<Rightarrow> (\<exists>sb. view (m_store m) i = Some sb
          \<and> view (m_store m') = (view (m_store m))(i := None)
          \<and> m_rt m' = (if sb_runtime_id sb \<noteq> [] then snd (rt_remove rt (sb_runtime_id sb) (m_rt m))
                       else m_rt m))
        \<and> map_of (m_logs m') = (map_of (m_logs m))(i := None)
    | Some e \<Rightarrow> view (m_store m') = view (m_store m) \<and> m_logs m' = m_logs m
        \<and> (e = StoreFailed ErrNotFound \<longrightarrow> view (m_store m) i = None \<and> m_rt m' = m_rt m)"
  using manager_env.delete_facts [OF assms(1) manager_env.reachable_inv [OF assms(1,5,2,3,4)] assms(6)]
  by (auto simp: manager_env.removes_container_def [OF assms(1)] fun_eq_iff split: option.splits)

theorem delete_outcomes_witness:
  "\<exists>m'. delete fake_ops sqlite_ops ''u1'' demo_created = (None, m')
     \<and> sqlite_view (m_store m') ''u1'' = None \<and> fake_id 0 \<in> set (fk_removed (m_rt m'))"
proof -
  obtain err m' where de: "delete fake_ops sqlite_ops ''u1'' demo_created = (err, m')" by fastforce
  obtain sb where sb: "st_get sqlite_ops ''u1'' (m_store demo_created) = (Inr sb, m_store demo_created)"
    "sb_runtime_id sb = fake_id 0" using demo_get by blast
  obtain stored where row: "sqlite_view (m_store demo_created) ''u1'' = Some stored"
    "same_sandbox stored sb \<or> sb_runtime_id stored = fake_id 0"
    using demo_create_row by (metis same_sandbox_def)
  have "err \<noteq> Some (StoreFailed ErrNotFound)"
    using delete_outcomes [OF fake_mgr.manager_env_axioms _ _ _ demo_created_reachable de] row(1) by auto
  then have err: "err = None"
    using de sb by (auto simp: delete_def get_sandbox_def sqlite_ops_def sqlite_delete_def db_next_def
        Let_def split: if_splits)
  have "sb_runtime_id stored = fake_id 0" using row(2) sb(2) by (auto simp: same_sandbox_def)
  with delete_outcomes [OF fake_mgr.manager_env_axioms _ _ _ demo_created_reachable de] err de row(1)
  show ?thesis by (auto simp: fake_ops_def fake_remove_def fake_id_def)
qed

text \<open>The active gauge is right after every refresh: when the listing succeeds, the gauge shows
  the number of stored sandboxes in state running (\<open>Create\<close>, \<open>Stop\<close> and \<open>Delete\<close> end with a
  refresh), and neither rows nor containers change.\<close>

theorem refresh_active_counts:
  assumes "sandbox_store st view sinv due" and "sinv (m_store m)" and "m_metrics m = Some k"
    and "st_list st (m_store m) = (Inr sbs, s')"
  shows "\<exists>k'. m_metrics (refresh_active st m) = Some k'
    \<and> mt_active k' = int (card {i. \<exists>sb. view (m_store m) i = Some sb \<and> sb_state sb = state_running})
    \<and> mt_created k' = mt_created k
    \<and> view (m_store (refresh_active st m)) = view (m_store m)
    \<and> m_rt (refresh_active st m) = m_rt m"
proof -
  note l = sandbox_store.list_all [OF assms(1,2,4)]
  have "int (count_running sbs) = int (card {i. \<exists>sb. view (m_store m) i = Some sb \<and> sb_state sb = state_running})"
    using sandbox_store.count_card [OF assms(1,2)] l by simp
  then show ?thesis
    using l assms(3,4) by (simp add: refresh_active_def set_sandbox_active_def)
qed

theorem refresh_active_counts_witness:
  "\<exists>k'. m_metrics (refresh_active sqlite_ops demo_manager) = Some k' \<and> mt_active k' = 0"
proof -
  have "sqlite_ok (m_store demo_manager)" "m_metrics demo_manager = Some new_metrics"
    "st_list sqlite_ops (m_store demo_manager) = (Inr [], sqlite_open)"
    by (simp_all add: demo_manager_def sqlite_ops_def sqlite_list_def db_next_def)
      (simp add: sqlite_open_def)
  from refresh_active_counts [OF sqlite.sandbox_store_axioms this] show ?thesis
    by (auto simp: demo_manager_def)
qed

end
