(* ===== verification/Observability.thy ===== *)
theory Observability
  imports Sandboxes
begin

text \<open>
  What the manager reports: the log captured from execs, the tail of a log, and the health report.
\<close>

section \<open>Captured output\<close>

lemma write_entry_run_ok:
  "buffer_ok b \<Longrightarrow> 0 < b_max b \<Longrightarrow>
   buffer_ok (fold write_entry es b) \<and> b_max (fold write_entry es b) = b_max b"
proof (induction es arbitrary: b)
  case (Cons e es)
  with logbuf.invar_write [of b e] have "buffer_ok (write_entry e b)" "0 < b_max (write_entry e b)"
    by auto
  from Cons.IH [OF this] show ?case by simp
qed simp

text \<open>What an exec leaves for the log: the chunks as they came, then the buffered output of each
  stream that had no writer.\<close>

definition captured :: "exec_options \<Rightarrow> entry list \<Rightarrow> exec_result \<Rightarrow> gotime \<Rightarrow> entry list" where
  "captured opts chunks res now = chunks
     @ (if eo_stdout opts then [] else [\<lparr> e_stream = Stdout, e_data = xr_stdout res, e_when = now \<rparr>])
     @ (if eo_stderr opts then [] else [\<lparr> e_stream = Stderr, e_data = xr_stderr res, e_when = now \<rparr>])"

lemma append_captured:
  "append_result opts res now (fold write_entry chunks b) = fold write_entry (captured opts chunks res now) b"
  by (auto simp: append_result_def captured_def append_stdout_def append_stderr_def write_entry_def
      buf_write_def Let_def)

definition log_of :: "string \<Rightarrow> ('r, 's) manager \<Rightarrow> entry list" where
  "log_of i m = (case map_of (m_logs m) i of None \<Rightarrow> [] | Some b \<Rightarrow> snapshot b)"

definition logs_ok :: "('r, 's) manager \<Rightarrow> bool" where
  "logs_ok m \<longleftrightarrow> (\<forall>i b. map_of (m_logs m) i = Some b \<longrightarrow> buffer_ok b \<and> b_max b = m_log_cap m)"

lemma log_buffer_for_Some:
  assumes "logs_ok m" and "0 < m_log_cap m" and "log_buffer_for i m = (b, m')"
  shows "\<exists>buf. b = Some buf \<and> buffer_ok buf \<and> b_max buf = m_log_cap m \<and> snapshot buf = log_of i m
    \<and> logs_ok m' \<and> m_log_cap m' = m_log_cap m \<and> m_rt m' = m_rt m \<and> m_store m' = m_store m
    \<and> (\<forall>j. j \<noteq> i \<longrightarrow> map_of (m_logs m') j = map_of (m_logs m) j)"
proof (cases "map_of (m_logs m) i")
  case None
  with assms show ?thesis
    by (auto simp: log_buffer_for_def Let_def log_of_def logs_ok_def new_buffer_ok)
      (auto simp: new_buffer_def snapshot_def)
next
  case (Some buf)
  with assms have "b = Some buf" "m' = m" "buffer_ok buf" "b_max buf = m_log_cap m"
    by (auto simp: log_buffer_for_def logs_ok_def)
  with Some assms(1) show ?thesis by (simp add: log_of_def)
qed

section \<open>The tail of a log\<close>

definition newlines_of :: "entry list \<Rightarrow> int" where
  "newlines_of es = sum_list (map (\<lambda>e. int (count_newlines (e_data e))) es)"

lemma newlines_simps [simp]:
  "newlines_of [] = 0" "newlines_of (e # es) = int (count_newlines (e_data e)) + newlines_of es"
  "newlines_of (xs @ ys) = newlines_of xs + newlines_of ys"
  by (simp_all add: newlines_of_def)

lemma newlines_nonneg [simp]: "0 \<le> newlines_of es"
  by (induction es) auto

lemma newlines_suffix: "suffix xs ys \<Longrightarrow> newlines_of xs \<le> newlines_of ys"
  by (auto simp: suffix_def)

text \<open>The loop: it stops at the first entry, going back, with which \<open>n\<close> newlines are reached.\<close>

lemma tail_loop_spec:
  "newlines_of tail < n \<Longrightarrow>
   (let out = tail_loop n (newlines_of tail) older tail; snap = rev older @ tail in
      suffix out snap
      \<and> (if n \<le> newlines_of snap
         then n \<le> newlines_of out \<and> out \<noteq> [] \<and> newlines_of (tl out) < n
         else out = snap))"
proof (induction older arbitrary: tail)
  case (Cons e older)
  show ?case
  proof (cases "n \<le> newlines_of tail + int (count_newlines (e_data e))")
    case True
    moreover have "newlines_of (rev older) \<ge> 0" by simp
    ultimately show ?thesis using Cons.prems
      by (auto simp: Let_def add.commute suffix_def intro: add_increasing)
  next
    case False
    then have "newlines_of (e # tail) < n" by (simp add: add.commute)
    from Cons.IH [OF this] False show ?thesis by (simp add: Let_def add.commute)
  qed
qed (simp add: Let_def)

section \<open>Properties\<close>

lemma hc_ok_ping:
  "hc_ok (case p of None \<Rightarrow> health_check_of None True
      | Some ping \<Rightarrow> health_check_of (map_option f (ping x)) True)
    \<longleftrightarrow> (\<forall>ping. p = Some ping \<longrightarrow> ping x = None)"
  by (auto simp: health_check_of_def split: option.splits)

lemma hc_ok_pool: "hc_ok (pool_check p) \<longleftrightarrow> 0 < pool_available p \<or> p_target p = 0"
  by (auto simp: pool_check_def health_check_of_def Let_def)

text \<open>An exec's output is captured completely and in order: with capture on, after a
  successful exec the log of the sandbox holds the longest recent part that fits the cap of what
  it held before followed by every chunk and then the buffered output of the streams without a
  writer. The logs of other sandboxes are untouched and all buffers stay well-formed.\<close>

theorem exec_log_capture:
  assumes "logs_ok m" and "0 < m_log_cap m"
    and "exec rt st i opts now m = ((chunks, Inr res), m')"
  shows "log_of i m' = keep (m_log_cap m)
      (log_of i m @ filter (\<lambda>e. e_data e \<noteq> []) (captured opts chunks res now))
    \<and> (\<forall>j. j \<noteq> i \<longrightarrow> log_of j m' = log_of j m) \<and> logs_ok m'"
proof -
  obtain sb m1 where g: "get_sandbox st i m = (Inr sb, m1)" and run: "sb_state sb = state_running"
    using assms(3) by (auto simp: exec_def split: prod.splits sum.splits if_splits)
  have m1: "m_logs m1 = m_logs m" "m_log_cap m1 = m_log_cap m"
    using g by (auto simp: get_sandbox_def split: prod.splits sum.splits)
  obtain b m2 where b: "log_buffer_for i m1 = (b, m2)" by fastforce
  have "logs_ok m1" using assms(1) by (simp add: logs_ok_def m1)
  from log_buffer_for_Some [OF this _ b] assms(2) m1 obtain buf where
    buf: "b = Some buf" "buffer_ok buf" "b_max buf = m_log_cap m" "snapshot buf = log_of i m"
    "logs_ok m2" "m_log_cap m2 = m_log_cap m"
    "\<And>j. j \<noteq> i \<Longrightarrow> map_of (m_logs m2) j = map_of (m_logs m) j"
    by (auto simp: log_of_def)
  obtain xres r' where x: "rt_exec rt (sb_runtime_id sb) (exec_spec_of opts) (m_rt m2) = (chunks, Inr res, r')"
    and m': "m' = set_log_buffer i (append_result opts res now (fold write_entry chunks buf)) (m2\<lparr> m_rt := r' \<rparr>)"
    using assms(3) g run b buf(1)
    by (auto simp: exec_def Let_def split: prod.splits sum.splits)
  let ?buf' = "fold write_entry (captured opts chunks res now) buf"
  have m'2: "m' = set_log_buffer i ?buf' (m2\<lparr> m_rt := r' \<rparr>)" by (simp add: m' append_captured)
  have ok: "buffer_ok ?buf' \<and> b_max ?buf' = m_log_cap m"
    using write_entry_run_ok [OF buf(2)] buf(3) assms(2) by simp
  have "snapshot ?buf' = keep (m_log_cap m)
      (log_of i m @ filter (\<lambda>e. e_data e \<noteq> []) (captured opts chunks res now))"
    using logbuf.contents_run [of buf "captured opts chunks res now"] buf assms(2) by simp
  moreover have "logs_ok m'" using ok buf(5,6) by (auto simp: m'2 logs_ok_def set_log_buffer_def)
  ultimately show ?thesis
    using buf(7) by (auto simp: m'2 log_of_def set_log_buffer_def)
qed

theorem exec_log_capture_witness:
  "\<exists>m' res. exec fake_ops sqlite_ops ''u1'' demo_exec 0 demo_created = (([], Inr res), m')
     \<and> logs_ok m' \<and> log_of ''u1'' m' = []"
proof -
  obtain sb where sb: "st_get sqlite_ops ''u1'' (m_store demo_created) = (Inr sb, m_store demo_created)"
    "sb_state sb = state_running" using demo_get by blast
  have logs: "m_logs demo_created = []" "m_log_cap demo_created = 4096"
    by (simp_all add: demo_created_def mgr_run_def create_def demo_manager_def demo_resolve try_claim_def
        fake_ops_def fake_create_def finish_create_def sqlite_ops_def sqlite_put_ok sqlite_list_def
        db_next_def refresh_active_def record_created_def Let_def)
  then have ok: "logs_ok demo_created" by (simp add: logs_ok_def)
  let ?res = "\<lparr> xr_exit_code = 0, xr_stdout = [], xr_stderr = [], xr_duration = 0 \<rparr>"
  have "fst (exec fake_ops sqlite_ops ''u1'' demo_exec 0 demo_created) = ([], Inr ?res)"
    using sb by (cases "log_buffer_for ''u1'' demo_created")
      (simp add: exec_def get_sandbox_def fake_ops_def fake_exec_def Let_def)
  then obtain m' where e: "exec fake_ops sqlite_ops ''u1'' demo_exec 0 demo_created = (([], Inr ?res), m')"
    by (metis prod.collapse)
  have "captured demo_exec [] ?res 0 = [\<lparr> e_stream = Stdout, e_data = [], e_when = 0 \<rparr>,
      \<lparr> e_stream = Stderr, e_data = [], e_when = 0 \<rparr>]"
    by (simp add: captured_def demo_exec_def)
  with exec_log_capture [OF ok _ e] logs e show ?thesis by (auto simp: log_of_def)
qed

text \<open>\<open>tailLines\<close> returns whole entries from the end: a suffix of the snapshot, the shortest
  one with at least \<open>n\<close> newlines when the snapshot has that many, else all of it. (So it may
  return more than \<open>n\<close> lines, never fewer than the snapshot allows.)\<close>

theorem tail_lines_shortest:
  "suffix (tail_lines snap n) snap
   \<and> (0 < n \<and> n \<le> newlines_of snap \<longrightarrow> n \<le> newlines_of (tail_lines snap n)
        \<and> (\<forall>ys. suffix ys snap \<and> n \<le> newlines_of ys \<longrightarrow> length (tail_lines snap n) \<le> length ys))
   \<and> (n \<le> 0 \<or> newlines_of snap < n \<longrightarrow> tail_lines snap n = snap)"
proof (cases "n \<le> 0 \<or> snap = []")
  case True
  then show ?thesis by (auto simp: tail_lines_def)
next
  case False
  let ?out = "tail_lines snap n"
  have spec: "suffix ?out snap \<and> (if n \<le> newlines_of snap
      then n \<le> newlines_of ?out \<and> ?out \<noteq> [] \<and> newlines_of (tl ?out) < n else ?out = snap)"
    using tail_loop_spec [of "[]" n "rev snap"] False by (simp add: tail_lines_def Let_def)
  have "length ?out \<le> length ys" if "suffix ys snap" "n \<le> newlines_of ys" "n \<le> newlines_of snap" for ys
  proof (rule ccontr)
    assume "\<not> length ?out \<le> length ys"
    with spec that obtain e rest where out: "?out = e # rest" "length ys \<le> length rest"
      by (cases ?out) auto
    then have "suffix rest snap" using spec by (metis suffix_ConsD)
    with that(1) out(2) have "suffix ys rest" by (metis suffix_length_suffix)
    with newlines_suffix spec out that show False by force
  qed
  with spec False show ?thesis by (auto split: if_splits)
qed

theorem tail_lines_shortest_witness:
  "let snap = map (\<lambda>d. \<lparr> e_stream = Stdout, e_data = d, e_when = 0 \<rparr>)
       [[CHR 0x0A], ''a'' @ [CHR 0x0A], ''b'' @ [CHR 0x0A], ''c'']
   in newlines_of (tail_lines snap 2) = 2 \<and> length (tail_lines snap 2) \<le> 3"
proof -
  let ?e = "\<lambda>d. \<lparr> e_stream = Stdout, e_data = d, e_when = 0 \<rparr>"
  let ?snap = "map ?e [[CHR 0x0A], ''a'' @ [CHR 0x0A], ''b'' @ [CHR 0x0A], ''c'']"
  let ?ys = "map ?e [''a'' @ [CHR 0x0A], ''b'' @ [CHR 0x0A], ''c'']"
  have "2 \<le> newlines_of ?snap" "2 \<le> newlines_of ?ys" by simp_all
  moreover have "suffix ?ys ?snap" by (simp add: suffix_def)
  ultimately have "2 \<le> newlines_of (tail_lines ?snap 2)" "length (tail_lines ?snap 2) \<le> length ?ys"
    using tail_lines_shortest [of ?snap 2] by auto
  moreover have "newlines_of (tail_lines ?snap 2) = 2" by (simp add: tail_lines_def)
  ultimately show ?thesis by (simp add: Let_def)
qed

text \<open>The health report says "ok" exactly when every subsystem is: the store and the backend
  answer their ping (or cannot be asked) and every pool in use has a warm container or wants
  none; the report has one check per subsystem and one per pool.\<close>

theorem health_ok_iff:
  "hr_status (health rt st m) = ''ok'' \<longleftrightarrow>
     (\<forall>ping. st_ping st = Some ping \<longrightarrow> ping (m_store m) = None)
   \<and> (\<forall>ping. rt_ping rt = Some ping \<longrightarrow> ping (m_rt m) = None)
   \<and> (\<forall>(img, i) \<in> set (m_pools m).
        0 < pool_available (m_heap m ! i) \<or> p_target (m_heap m ! i) = 0)"
proof -
  have "hr_status (health rt st m) = ''ok'' \<longleftrightarrow> list_all (\<lambda>(_, c). hc_ok c) (hr_checks (health rt st m))"
    by (simp add: health_def Let_def)
  also have "\<dots> \<longleftrightarrow> (\<forall>ping. st_ping st = Some ping \<longrightarrow> ping (m_store m) = None)
      \<and> (\<forall>ping. rt_ping rt = Some ping \<longrightarrow> ping (m_rt m) = None)
      \<and> (\<forall>x \<in> set (m_pools m). hc_ok (pool_check (m_heap m ! snd x)))"
    unfolding health_def Let_def health_report.simps list_all_append list.pred_inject prod.case hc_ok_ping
    by (simp add: list_all_iff case_prod_unfold)
  finally show ?thesis by (simp add: hc_ok_pool case_prod_unfold)
qed

theorem health_ok_iff_witness:
  "hr_status (health fake_ops sqlite_ops demo_warm) = ''ok''
   \<and> hr_status (health fake_ops sqlite_ops
       (snd (try_claim (resolve_spec demo_pool_policy (plain_request [] ''alpine'')) demo_warm))) \<noteq> ''ok''"
proof -
  let ?m = "snd (try_claim (resolve_spec demo_pool_policy (plain_request [] ''alpine'')) demo_warm)"
  have st: "st_ping sqlite_ops = Some sqlite_ping" "rt_ping fake_ops = None"
    by (simp_all add: sqlite_ops_def fake_ops_def)
  have warm: "hr_status (health fake_ops sqlite_ops demo_warm) = ''ok''"
    by (subst health_ok_iff)
      (simp add: st demo_warm_def pool_available_def sqlite_ping_def db_next_def demo_manager_def
        sqlite_open_def)
  have "?m = demo_warm\<lparr> m_heap := [snd (pool_get (m_heap demo_warm ! 0))] \<rparr>"
    by (simp add: try_claim_def demo_warm_def demo_pool_policy_def default_policy_def
        resolve_spec_def chosen_image_def chosen_egress_def image_layer_def profile_layer_def
        plain_request_def pool_matches_resolved_def egress_none_def f64_or_def int64_or_def
        pool_get_def warm_pool_def new_pool_def current_version_def)
  then have "hr_status (health fake_ops sqlite_ops ?m) \<noteq> ''ok''"
    by (subst health_ok_iff)
      (simp add: st demo_warm_def pool_available_def pool_get_def warm_pool_def new_pool_def
        demo_pool_policy_def)
  with warm show ?thesis ..
qed

end
