(* ===== verification/Reload.thy ===== *)
theory Reload
  imports Lifecycle
begin

text \<open>
  \<open>ReplacePolicy\<close>: what the reconciliation of the pools with a new policy achieves, and what a
  failed one leaves untouched. No contract of the backend or the store is needed here.
\<close>

section \<open>Filling pools\<close>

definition same_config :: "pool \<Rightarrow> pool \<Rightarrow> bool" where
  "same_config p q \<longleftrightarrow> p_image p = p_image q \<and> p_target p = p_target q \<and> p_spec p = p_spec q"

lemma same_config_refl [simp]: "same_config p p"
  by (simp add: same_config_def)

lemma spawn_config: "spawn rt p r = (res, p', r') \<Longrightarrow> same_config p' p"
  by (auto simp: spawn_def spawn_commit_def same_config_def split: prod.splits sum.splits if_splits)

lemma fill_config: "fill n rt p r = (res, p', r') \<Longrightarrow> same_config p' p"
  by (induction n arbitrary: p r)
    (auto simp: same_config_def split: prod.splits option.splits dest!: spawn_config)

lemma pool_start_ok:
  assumes "pool_start rt p r = (None, p', r')" and "p_avail p = []"
  shows "same_config p' p \<and> pool_available p' = max 0 (p_target p)"
  using assms fill_length [of "nat (p_target p)" rt p r None p' r'] fill_config
  by (auto simp: pool_start_def pool_available_def)

definition only_pools :: "('r, 's) manager \<Rightarrow> ('r, 's) manager \<Rightarrow> bool" where
  "only_pools m m' \<longleftrightarrow>
     m_store m' = m_store m \<and> m_policy m' = m_policy m \<and> m_pools m' = m_pools m
   \<and> m_retiring m' = m_retiring m \<and> m_started m' = m_started m \<and> m_metrics m' = m_metrics m
   \<and> m_log_cap m' = m_log_cap m \<and> m_logs m' = m_logs m"

lemma only_pools_put [simp]: "only_pools m (put_pool i p r m)"
  by (simp add: only_pools_def)

lemma only_pools_trans: "only_pools m m1 \<Longrightarrow> only_pools m1 m2 \<Longrightarrow> only_pools m m2"
  by (simp add: only_pools_def)

lemma shutdown_only_pools: "only_pools m (snd (shutdown_pools rt is m))"
proof (induction "is" arbitrary: m)
  case (Cons i "is")
  obtain e p' r' where "pool_shutdown rt (m_heap m ! i) (m_rt m) = (e, p', r')"
    by (cases "pool_shutdown rt (m_heap m ! i) (m_rt m)")
  with Cons [of "put_pool i p' r' m"] show ?case
    by (auto simp: case_prod_unfold Let_def intro: only_pools_trans [OF only_pools_put])
qed (simp add: only_pools_def)

lemma warm_only_pools: "warm_pools rt warmed is m = (res, m') \<Longrightarrow> only_pools m m'"
proof (induction "is" arbitrary: m warmed)
  case (Cons i "is")
  obtain e p' r' where st: "pool_start rt (m_heap m ! i) (m_rt m) = (e, p', r')"
    by (cases "pool_start rt (m_heap m ! i) (m_rt m)")
  show ?case
  proof (cases e)
    case None
    with st Cons show ?thesis by (auto intro: only_pools_trans [OF only_pools_put])
  next
    case (Some err)
    with st Cons.prems shutdown_only_pools [of "put_pool i p' r' m" rt warmed] show ?thesis
      by (auto intro: only_pools_trans [OF only_pools_put])
  qed
qed (simp add: only_pools_def)

lemma warm_pools_full:
  "warm_pools rt warmed is m = (None, m') \<Longrightarrow> distinct is \<Longrightarrow> set is \<subseteq> {..<length (m_heap m)} \<Longrightarrow>
   length (m_heap m') = length (m_heap m)
   \<and> (\<forall>j. j \<notin> set is \<longrightarrow> m_heap m' ! j = m_heap m ! j)
   \<and> (\<forall>j \<in> set is. p_avail (m_heap m ! j) = [] \<longrightarrow> same_config (m_heap m' ! j) (m_heap m ! j)
        \<and> pool_available (m_heap m' ! j) = max 0 (p_target (m_heap m ! j)))"
proof (induction "is" arbitrary: m warmed)
  case (Cons i "is")
  obtain e p' r' where st: "pool_start rt (m_heap m ! i) (m_rt m) = (e, p', r')"
    by (cases "pool_start rt (m_heap m ! i) (m_rt m)")
  with Cons.prems(1) have e: "e = None"
    and rec: "warm_pools rt (warmed @ [i]) is (put_pool i p' r' m) = (None, m')"
    by (auto split: option.splits)
  have i: "i < length (m_heap m)" "i \<notin> set is" using Cons.prems by auto
  from Cons.IH [OF rec] Cons.prems have IH: "length (m_heap m') = length (m_heap m)"
    "\<forall>j. j \<notin> set is \<longrightarrow> m_heap m' ! j = (m_heap m)[i := p'] ! j"
    "\<forall>j \<in> set is. p_avail ((m_heap m)[i := p'] ! j) = [] \<longrightarrow> same_config (m_heap m' ! j) ((m_heap m)[i := p'] ! j)
        \<and> pool_available (m_heap m' ! j) = max 0 (p_target ((m_heap m)[i := p'] ! j))"
    by simp_all
  have "m_heap m' ! i = p'" using IH(2) i by simp
  then have "p_avail (m_heap m ! i) = [] \<longrightarrow> same_config (m_heap m' ! i) (m_heap m ! i)
      \<and> pool_available (m_heap m' ! i) = max 0 (p_target (m_heap m ! i))"
    using pool_start_ok [of rt "m_heap m ! i" "m_rt m" p' r'] st e by simp
  moreover have "\<forall>j \<in> set is. p_avail (m_heap m ! j) = [] \<longrightarrow> same_config (m_heap m' ! j) (m_heap m ! j)
      \<and> pool_available (m_heap m' ! j) = max 0 (p_target (m_heap m ! j))"
    using IH(3) i(2) by (metis nth_list_update_neq)
  moreover have "\<forall>j. j \<notin> set (i # is) \<longrightarrow> m_heap m' ! j = m_heap m ! j" using IH(2) by simp
  ultimately show ?case using IH(1) by simp
qed simp

section \<open>Merging\<close>

text \<open>Whether an image keeps its pool.\<close>

definition keeps_pool :: "(string \<times> nat) list \<Rightarrow> pool list \<Rightarrow> string \<Rightarrow> pool \<Rightarrow> bool" where
  "keeps_pool old heap img newp \<longleftrightarrow>
     (\<exists>i. map_of old img = Some i \<and> same_pool_spec (heap ! i) newp)"

definition merged_at ::
    "(string \<times> nat) list \<Rightarrow> pool list \<Rightarrow> nat \<Rightarrow> pool list \<Rightarrow> nat list \<Rightarrow> string \<Rightarrow> pool \<Rightarrow> nat \<Rightarrow> bool" where
  "merged_at old heap n heap' ts img newp i \<longleftrightarrow>
     (if keeps_pool old heap img newp
      then map_of old img = Some i \<and> same_pool_spec (heap ! i) newp
      else n \<le> i \<and> i < length heap' \<and> heap' ! i = newp \<and> i \<in> set ts)"

lemma keeps_pool_append:
  "\<forall>i \<in> ran (map_of old). i < length heap \<Longrightarrow>
   keeps_pool old (heap @ xs) img newp = keeps_pool old heap img newp"
  unfolding keeps_pool_def by (metis nth_append ranI)

lemma merged_at_append:
  "\<forall>i \<in> ran (map_of old). i < length heap \<Longrightarrow>
   merged_at old (heap @ xs) n heap' ts img newp i = merged_at old heap n heap' ts img newp i"
  unfolding merged_at_def by (auto simp: keeps_pool_append nth_append ranI)

lemma map_merge_step:
  assumes "P img newp i"
    and "case map_of ds k of None \<Rightarrow> map_of mg k = None
         | Some q \<Rightarrow> \<exists>j. map_of mg k = Some j \<and> P k q j"
  shows "case map_of ((img, newp) # ds) k of None \<Rightarrow> map_of ((img, i) # mg) k = None
         | Some q \<Rightarrow> \<exists>j. map_of ((img, i) # mg) k = Some j \<and> P k q j"
  using assms by (auto split: option.splits)

lemma merge_pools_spec:
  "merge_pools old ds heap = (merged, ts, heap') \<Longrightarrow> \<forall>i \<in> ran (map_of old). i < length heap \<Longrightarrow>
   distinct (map fst ds) \<Longrightarrow>
   (\<exists>xs. heap' = heap @ xs) \<and> distinct ts \<and> set ts \<subseteq> {length heap..<length heap'}
   \<and> (\<forall>img. case map_of ds img of
        None \<Rightarrow> map_of merged img = None
      | Some newp \<Rightarrow> (\<exists>i. map_of merged img = Some i
          \<and> merged_at old heap (length heap) heap' ts img newp i))"
proof (induction ds arbitrary: heap merged ts heap')
  case (Cons d ds)
  obtain img newp where d: "d = (img, newp)" by (cases d)
  have dist: "distinct (map fst ds)" "map_of ds img = None"
    using Cons.prems(3) by (auto simp: d map_of_eq_None_iff)
  show ?case
  proof (cases "keeps_pool old heap img newp")
    case True
    then obtain i where i: "map_of old img = Some i" "same_pool_spec (heap ! i) newp"
      by (auto simp: keeps_pool_def)
    obtain mg ts1 h where rec: "merge_pools old ds heap = (mg, ts1, h)"
      by (cases "merge_pools old ds heap")
    with Cons.prems(1) d i have eqs: "merged = (img, i) # mg" "ts = ts1" "heap' = h" by auto
    note IH = Cons.IH [OF rec Cons.prems(2) dist(1)]
    have "merged_at old heap (length heap) heap' ts img newp i" using True i by (simp add: merged_at_def)
    moreover have "case map_of ds k of None \<Rightarrow> map_of mg k = None
        | Some q \<Rightarrow> \<exists>i. map_of mg k = Some i \<and> merged_at old heap (length heap) heap' ts k q i" for k
      using IH eqs(2,3) by blast
    ultimately have "case map_of (d # ds) k of None \<Rightarrow> map_of merged k = None
        | Some q \<Rightarrow> \<exists>i. map_of merged k = Some i \<and> merged_at old heap (length heap) heap' ts k q i" for k
      unfolding d eqs(1) by (rule map_merge_step)
    then show ?thesis using IH by (simp add: eqs(2,3))
  next
    case False
    let ?h0 = "heap @ [newp]"
    obtain mg ts1 h where rec: "merge_pools old ds ?h0 = (mg, ts1, h)"
      by (cases "merge_pools old ds ?h0")
    have "map_of old img = None \<or> (\<exists>i. map_of old img = Some i \<and> \<not> same_pool_spec (heap ! i) newp)"
      using False unfolding keeps_pool_def by (cases "map_of old img") auto
    with Cons.prems(1) d rec have eqs: "merged = (img, length heap) # mg" "ts = length heap # ts1" "heap' = h"
      by auto
    have old: "\<forall>i \<in> ran (map_of old). i < length ?h0" using Cons.prems(2) by auto
    note IH = Cons.IH [OF rec old dist(1)]
    obtain xs where xs: "heap' = ?h0 @ xs" using IH eqs by blast
    have "merged_at old heap (length heap) heap' ts img newp (length heap)"
      using False by (simp add: merged_at_def eqs(2) xs)
    moreover have later: "merged_at old heap (length heap) heap' ts k q i"
      if "merged_at old ?h0 (length ?h0) h ts1 k q i" for k q i
      using that merged_at_append [OF Cons.prems(2)] by (auto simp: merged_at_def eqs split: if_splits)
    moreover have "set ts1 \<subseteq> {length ?h0..<length heap'}" "distinct ts1" using IH eqs by auto
    moreover have "case map_of ds k of None \<Rightarrow> map_of mg k = None
        | Some q \<Rightarrow> \<exists>i. map_of mg k = Some i \<and> merged_at old heap (length heap) heap' ts k q i" for k
    proof (cases "map_of ds k")
      case None
      then show ?thesis using IH [THEN conjunct2, THEN conjunct2, THEN conjunct2, rule_format, of k] by simp
    next
      case (Some q)
      then obtain i where "map_of mg k = Some i" "merged_at old ?h0 (length ?h0) h ts1 k q i"
        using IH [THEN conjunct2, THEN conjunct2, THEN conjunct2, rule_format, of k] by auto
      with later Some show ?thesis by simp
    qed
    ultimately have "case map_of (d # ds) k of None \<Rightarrow> map_of merged k = None
        | Some q \<Rightarrow> \<exists>i. map_of merged k = Some i \<and> merged_at old heap (length heap) heap' ts k q i" for k
      unfolding d eqs(1) by (intro map_merge_step) blast+
    with xs \<open>distinct ts1\<close> \<open>set ts1 \<subseteq> _\<close> show ?thesis by (auto simp: eqs(2))
  qed
qed simp

lemma shutdown_heap_other:
  "j \<notin> set is \<Longrightarrow> m_heap (snd (shutdown_pools rt is m)) ! j = m_heap m ! j"
proof (induction "is" arbitrary: m)
  case (Cons i "is")
  obtain e p' r' where "pool_shutdown rt (m_heap m ! i) (m_rt m) = (e, p', r')"
    by (cases "pool_shutdown rt (m_heap m ! i) (m_rt m)")
  with Cons show ?case by (simp add: case_prod_unfold Let_def)
qed simp

lemma warm_heap_other:
  "warm_pools rt warmed is m = (res, m') \<Longrightarrow> j \<notin> set warmed \<union> set is \<Longrightarrow> m_heap m' ! j = m_heap m ! j"
proof (induction "is" arbitrary: m warmed)
  case (Cons i "is")
  obtain e p' r' where st: "pool_start rt (m_heap m ! i) (m_rt m) = (e, p', r')"
    by (cases "pool_start rt (m_heap m ! i) (m_rt m)")
  show ?case
  proof (cases e)
    case None
    with st Cons.prems have "warm_pools rt (warmed @ [i]) is (put_pool i p' r' m) = (res, m')" by simp
    from Cons.IH [OF this] Cons.prems(2) show ?thesis by simp
  next
    case (Some err)
    with st Cons.prems shutdown_heap_other [of j warmed rt "put_pool i p' r' m"] show ?thesis by auto
  qed
qed simp

lemma valid_images_distinct: "valid_policy p \<Longrightarrow> distinct (map im_name (po_images p))"
  by (simp add: valid_policy_def)

text \<open>The state \<open>m2\<close> after the warming phase of a valid policy, and the merged pools.\<close>

text \<open>What the merge and the warm-up leave for an image: no pool when the policy builds none for it, the
  old one when it is kept, and otherwise a new one, filled when the manager is started.\<close>

definition reconciled ::
    "('r, 's) manager \<Rightarrow> pool list \<Rightarrow> (string \<times> nat) list \<Rightarrow> string \<Rightarrow> pool option \<Rightarrow> bool" where
  "reconciled m heap merged img built \<longleftrightarrow>
     (case built of
        None \<Rightarrow> map_of merged img = None
      | Some newp \<Rightarrow> (\<exists>i. map_of merged img = Some i \<and>
          (if keeps_pool (m_pools m) (m_heap m) img newp
           then map_of (m_pools m) img = Some i \<and> same_pool_spec (heap ! i) newp
           else length (m_heap m) \<le> i \<and> same_config (heap ! i) newp
              \<and> (m_started m \<longrightarrow> pool_available (heap ! i) = max 0 (p_target newp)))))"

lemma reconciled_image:
  assumes "valid_policy p" and "reconciled m heap merged img (map_of (build_pools p) img)"
  shows "find_image (po_images p) img = Some im \<and> pooled im \<longrightarrow>
      (\<exists>i. map_of merged img = Some i \<and>
         (if keeps_pool (m_pools m) (m_heap m) img (warm_pool p im)
          then map_of (m_pools m) img = Some i \<and> same_pool_spec (heap ! i) (warm_pool p im)
          else length (m_heap m) \<le> i \<and> same_config (heap ! i) (warm_pool p im)
            \<and> (m_started m \<longrightarrow> pool_available (heap ! i) = im_pool im)))"
    and "(\<forall>im. find_image (po_images p) img = Some im \<longrightarrow> \<not> pooled im) \<longrightarrow> map_of merged img = None"
proof -
  note pools = map_of_build_pools [OF valid_images_distinct [OF assms(1)], of img]
  show "find_image (po_images p) img = Some im \<and> pooled im \<longrightarrow>
      (\<exists>i. map_of merged img = Some i \<and>
         (if keeps_pool (m_pools m) (m_heap m) img (warm_pool p im)
          then map_of (m_pools m) img = Some i \<and> same_pool_spec (heap ! i) (warm_pool p im)
          else length (m_heap m) \<le> i \<and> same_config (heap ! i) (warm_pool p im)
            \<and> (m_started m \<longrightarrow> pool_available (heap ! i) = im_pool im)))" (is "?cond \<longrightarrow> ?fits")
  proof
    assume ?cond
    then have "map_of (build_pools p) img = Some (warm_pool p im)" "max 0 (p_target (warm_pool p im)) = im_pool im"
      using pools by (auto simp: warm_pool_def pooled_def)
    then show ?fits using assms(2) by (simp add: reconciled_def cong: if_cong split del: if_split)
  qed
  show "(\<forall>im. find_image (po_images p) img = Some im \<longrightarrow> \<not> pooled im) \<longrightarrow> map_of merged img = None"
    using assms(2) by (auto simp: reconciled_def pools split: option.splits if_splits)
qed

text \<open>A new pool, which the merge leaves empty, after the warm-up.\<close>

lemma warmed_pool:
  assumes "(if m_started m then warm_pools rt [] ts (m\<lparr> m_heap := heap \<rparr>) else (None, m\<lparr> m_heap := heap \<rparr>)) = (None, m2)"
    and "distinct ts" and "set ts \<subseteq> {..<length heap}" and "i \<in> set ts" and "p_avail (heap ! i) = []"
  shows "same_config (m_heap m2 ! i) (heap ! i)
    \<and> (m_started m \<longrightarrow> pool_available (m_heap m2 ! i) = max 0 (p_target (heap ! i)))"
proof (cases "m_started m")
  case True
  with assms(1) have "warm_pools rt [] ts (m\<lparr> m_heap := heap \<rparr>) = (None, m2)" by simp
  from warm_pools_full [OF this] assms(2-5) show ?thesis by simp
qed (use assms(1) in auto)

lemma warming_facts:
  assumes refs: "\<forall>i \<in> snd ` set (m_pools m). i < length (m_heap m)"
    and mp: "merge_pools (m_pools m) (build_pools p) (m_heap m) = (merged, ts, heap')"
    and w: "(if m_started m then warm_pools rt [] ts (m\<lparr> m_heap := heap' \<rparr>)
             else (None, m\<lparr> m_heap := heap' \<rparr>)) = (res, m2)"
  shows "only_pools m m2" and "\<forall>i < length (m_heap m). m_heap m2 ! i = m_heap m ! i"
    and "res = None \<Longrightarrow> reconciled m (m_heap m2) merged img (map_of (build_pools p) img)"
proof -
  let ?m1 = "m\<lparr> m_heap := heap' \<rparr>"
  have ran: "\<forall>i \<in> ran (map_of (m_pools m)). i < length (m_heap m)"
    using refs by (force simp: ran_def dest: map_of_SomeD)
  note spec = merge_pools_spec [OF mp ran distinct_build_pools]
  then obtain xs where heap': "heap' = m_heap m @ xs" by blast
  have ts: "distinct ts" "set ts \<subseteq> {length (m_heap m)..<length heap'}" using spec by blast+
  show "only_pools m m2"
    using w warm_only_pools [of rt "[]" ts ?m1] by (auto simp: only_pools_def split: if_splits)
  have old: "m_heap m2 ! i = m_heap m ! i" if "i < length (m_heap m)" for i
  proof -
    have "i \<notin> set ts" using that ts by auto
    then show ?thesis
      using w that warm_heap_other [of rt "[]" ts ?m1 res m2 i]
      by (auto simp: heap' nth_append split: if_splits)
  qed
  then show "\<forall>i < length (m_heap m). m_heap m2 ! i = m_heap m ! i" by blast
  note at = spec [THEN conjunct2, THEN conjunct2, THEN conjunct2, rule_format, of img]
  assume res: "res = None"
  show "reconciled m (m_heap m2) merged img (map_of (build_pools p) img)"
  proof (cases "map_of (build_pools p) img")
    case (Some newp)
    then obtain i where i: "map_of merged img = Some i"
      and at: "merged_at (m_pools m) (m_heap m) (length (m_heap m)) heap' ts img newp i" using at by auto
    have empty: "p_avail newp = []" using pool_build_avail map_of_SomeD [OF Some] by force
    show ?thesis
    proof (cases "keeps_pool (m_pools m) (m_heap m) img newp")
      case True
      with at have "map_of (m_pools m) img = Some i" "same_pool_spec (m_heap m ! i) newp"
        by (simp_all add: merged_at_def)
      moreover from this(1) have "m_heap m2 ! i = m_heap m ! i" using ran by (intro old) (auto simp: ran_def)
      ultimately show ?thesis using True Some i by (simp add: reconciled_def)
    next
      case False
      with at have "length (m_heap m) \<le> i" "heap' ! i = newp" "i \<in> set ts" by (simp_all add: merged_at_def)
      moreover have "set ts \<subseteq> {..<length heap'}" using ts(2) by auto
      ultimately show ?thesis
        using warmed_pool [OF w [unfolded res] ts(1), of i] False Some i empty by (simp add: reconciled_def)
    qed
  qed (use at in \<open>simp add: reconciled_def\<close>)
qed

text \<open>The two ways \<open>ReplacePolicy\<close> ends.\<close>

lemma replace_policy_done:
  assumes "replace_policy rt pol m = (None, m')"
  obtains p merged ts heap' m2 where "pol = Some p" "validate p = None"
    "merge_pools (m_pools m) (build_pools p) (m_heap m) = (merged, ts, heap')"
    "(if m_started m then warm_pools rt [] ts (m\<lparr> m_heap := heap' \<rparr>) else (None, m\<lparr> m_heap := heap' \<rparr>)) = (None, m2)"
    "m' = m2\<lparr> m_policy := p, m_pools := merged, m_retiring := m_retiring m2 @
       map snd (filter (\<lambda>(img, i). map_of merged img \<noteq> Some i) (m_pools m)) \<rparr>"
  using assms by (auto simp: replace_policy_def Let_def split: option.splits prod.splits)

lemma replace_policy_failed:
  assumes "replace_policy rt pol m = (Some e, m')"
  obtains "m' = m" | p merged ts heap' x where
    "merge_pools (m_pools m) (build_pools p) (m_heap m) = (merged, ts, heap')"
    "(if m_started m then warm_pools rt [] ts (m\<lparr> m_heap := heap' \<rparr>) else (None, m\<lparr> m_heap := heap' \<rparr>)) = (Some x, m')"
  using assms by (auto simp: replace_policy_def Let_def split: option.splits prod.splits)

section \<open>Properties\<close>

text \<open>C14. \<open>ReplacePolicy\<close> is all or nothing, and reconciles the pools. When it fails (no policy,
  an invalid one, or a new pool that cannot be warmed) the policy, the pools in use, what they
  hold, the rows and the logs are as before. When it succeeds, the new policy is valid and in
  force; every image of it that wants a pool has one: the old pool itself, untouched, when that
  one warms the same spec, else a new pool with exactly the wanted spec, filled to its target if
  the manager is started; no other image has a pool; and every old pool that is no longer in use
  is queued for its shutdown.\<close>

theorem replace_policy_reconciles:
  assumes "\<forall>i \<in> snd ` set (m_pools m). i < length (m_heap m)"
    and "replace_policy rt pol m = (err, m')"
  shows "(\<forall>i < length (m_heap m). m_heap m' ! i = m_heap m ! i)
    \<and> m_store m' = m_store m \<and> m_logs m' = m_logs m
    \<and> (err \<noteq> None \<longrightarrow> m_policy m' = m_policy m \<and> m_pools m' = m_pools m
         \<and> m_retiring m' = m_retiring m)
    \<and> (err = None \<longrightarrow> (\<exists>p. pol = Some p \<and> valid_policy p \<and> m_policy m' = p
         \<and> (\<forall>img im. find_image (po_images p) img = Some im \<and> pooled im \<longrightarrow>
              (\<exists>i. map_of (m_pools m') img = Some i \<and>
                 (if keeps_pool (m_pools m) (m_heap m) img (warm_pool p im)
                  then map_of (m_pools m) img = Some i
                     \<and> same_pool_spec (m_heap m' ! i) (warm_pool p im)
                  else length (m_heap m) \<le> i \<and> same_config (m_heap m' ! i) (warm_pool p im)
                     \<and> (m_started m \<longrightarrow> pool_available (m_heap m' ! i) = im_pool im))))
         \<and> (\<forall>img. (\<forall>im. find_image (po_images p) img = Some im \<longrightarrow> \<not> pooled im) \<longrightarrow>
              map_of (m_pools m') img = None)
         \<and> (\<forall>(img, i) \<in> set (m_pools m). map_of (m_pools m') img \<noteq> Some i \<longrightarrow>
              i \<in> set (m_retiring m'))))"
proof (cases "err = None")
  case False
  then obtain e where e: "replace_policy rt pol m = (Some e, m')" "err = Some e" using assms(2) by auto
  have "only_pools m m' \<and> (\<forall>i < length (m_heap m). m_heap m' ! i = m_heap m ! i)"
    using e(1)
  proof (cases rule: replace_policy_failed)
    case (2 p merged ts heap' x)
    then show ?thesis using warming_facts(1,2) [OF assms(1) 2] by simp
  qed (simp add: only_pools_def)
  then show ?thesis using e(2) by (simp add: only_pools_def)
next
  case True
  then have rp: "replace_policy rt pol m = (None, m')" using assms(2) by simp
  obtain p merged ts heap' m2 where p: "pol = Some p" "validate p = None"
    and mp: "merge_pools (m_pools m) (build_pools p) (m_heap m) = (merged, ts, heap')"
    and w: "(if m_started m then warm_pools rt [] ts (m\<lparr> m_heap := heap' \<rparr>)
             else (None, m\<lparr> m_heap := heap' \<rparr>)) = (None, m2)"
    and m': "m' = m2\<lparr> m_policy := p, m_pools := merged, m_retiring := m_retiring m2 @
            map snd (filter (\<lambda>(img, i). map_of merged img \<noteq> Some i) (m_pools m)) \<rparr>"
    by (rule replace_policy_done [OF rp])
  have valid: "valid_policy p" using p(2) by (simp add: validate_None_iff)
  note facts = warming_facts [OF assms(1) mp w]
  note images = reconciled_image [OF valid facts(3) [OF refl]]
  have m'2: "m_heap m' = m_heap m2" "m_pools m' = merged" "m_policy m' = p" "m_store m' = m_store m2"
    "m_logs m' = m_logs m2" by (simp_all add: m')
  have "\<forall>(img, i) \<in> set (m_pools m). map_of (m_pools m') img \<noteq> Some i \<longrightarrow> i \<in> set (m_retiring m')"
    by (force simp: m')
  moreover have "m_store m' = m_store m" "m_logs m' = m_logs m" using facts(1) by (simp_all add: m'2 only_pools_def)
  ultimately show ?thesis
    using p(1) valid facts(2) True unfolding m'2(1-3)
    by (intro conjI impI exI [of _ p] allI images) simp_all
qed

definition demo_reload_policy :: policy where
  "demo_reload_policy = default_policy\<lparr> po_images :=
     [\<lparr> im_name = ''alpine'', im_description = [], im_cpus = Fin 0, im_memory_mb = 0, im_ttl = 0,
        im_egress = None, im_pool = 2 \<rparr>] \<rparr>"

definition demo_started :: "(fake_runtime, sqlite) manager" where
  "demo_started = \<lparr> m_rt = fake_empty, m_store = sqlite_open, m_policy = default_policy,
     m_pools = [], m_heap = [], m_retiring = [], m_started = True, m_metrics = None,
     m_log_cap = 4096, m_logs = [] \<rparr>"

theorem replace_policy_reconciles_witness:
  "\<exists>m' i. replace_policy fake_ops (Some demo_reload_policy) demo_started = (None, m')
     \<and> map_of (m_pools m') ''alpine'' = Some i \<and> pool_available (m_heap m' ! i) = 2"
proof -
  let ?im = "hd (po_images demo_reload_policy)"
  have valid: "validate demo_reload_policy = None"
    by (simp add: validate_None_iff valid_policy_def demo_reload_policy_def default_policy_def
        image_ok_def egress_ok_def egress_none_def)
  obtain err m' where rp: "replace_policy fake_ops (Some demo_reload_policy) demo_started = (err, m')"
    by fastforce
  have "err = None"
    using rp valid
    by (auto simp: replace_policy_def demo_started_def demo_reload_policy_def build_pools_def pooled_def
        pool_start_def warm_pool_def new_pool_def spawn_def fake_ops_def fake_create_def spawn_commit_def
        eval_nat_numeral put_pool_def)
  moreover have "find_image (po_images demo_reload_policy) ''alpine'' = Some ?im" "pooled ?im"
    "im_pool ?im = 2" "m_started demo_started" "m_pools demo_started = []"
    by (simp_all add: demo_reload_policy_def pooled_def demo_started_def)
  ultimately show ?thesis
    using replace_policy_reconciles [OF _ rp] rp by (fastforce simp: keeps_pool_def)
qed

end
