(* ===== verification/Reaper.thy ===== *)
theory Reaper
  imports Sandboxes
begin

text \<open>
  The reaper of \<open>internal/sandbox/reaper.go\<close>: one sweep lists the expired sandboxes and deletes
  them one by one through the manager; \<open>reaper_run\<close> is the loop over the ticks of its timer.
\<close>

section \<open>The sweep\<close>

text \<open>The loop over the expired sandboxes, with the number swept.\<close>

fun sweep_all ::
    "'r runtime_ops \<Rightarrow> 's store_ops \<Rightarrow> sandbox list \<Rightarrow> ('r, 's) manager \<Rightarrow> nat \<times> ('r, 's) manager" where
  "sweep_all rt st [] m = (0, m)"
| "sweep_all rt st (sb # sbs) m =
     (case delete rt st (sb_id sb) m of (err, m1) \<Rightarrow>
        (if err \<noteq> None \<and> err \<noteq> Some (StoreFailed ErrNotFound)
         then sweep_all rt st sbs m1
         else (case sweep_all rt st sbs m1 of (n, m2) \<Rightarrow> (Suc n, m2))))"

definition sweep ::
    "'r runtime_ops \<Rightarrow> 's store_ops \<Rightarrow> gotime \<Rightarrow> ('r, 's) manager \<Rightarrow> ('r, 's) manager" where
  "sweep rt st now m =
     (case expired_before st now m of
        (Inl e, m1) \<Rightarrow> m1
      | (Inr sbs, m1) \<Rightarrow>
          (case sweep_all rt st sbs m1 of (swept, m2) \<Rightarrow>
             (if swept > 0 then m2\<lparr> m_metrics := reaper_swept swept (m_metrics m2) \<rparr> else m2)))"

definition reaper_run ::
    "'r runtime_ops \<Rightarrow> 's store_ops \<Rightarrow> duration \<Rightarrow> gotime list \<Rightarrow> ('r, 's) manager \<Rightarrow> ('r, 's) manager" where
  "reaper_run rt st interval ticks m =
     (if \<not> pos64 interval then m else fold (sweep rt st) ticks m)"

lemma delete_reaped:
  "delete rt st i m = (err, m') \<Longrightarrow> map_option mt_reaped (m_metrics m') = map_option mt_reaped (m_metrics m)"
  by (auto simp: delete_def get_sandbox_def refresh_active_def drop_log_buffer_def Let_def
      set_sandbox_active_def option.map_comp comp_def
      split: sum.splits prod.splits option.splits if_splits)

lemma sweep_all_reaped:
  "sweep_all rt st sbs m = (n, m') \<Longrightarrow>
   map_option mt_reaped (m_metrics m') = map_option mt_reaped (m_metrics m)"
  by (induction sbs arbitrary: m n)
    (auto split: prod.splits if_splits dest!: delete_reaped)

context manager_env
begin

lemma sweep_all_facts:
  "mgr_inv m \<Longrightarrow> sweep_all rt st sbs m = (n, m') \<Longrightarrow>
   mgr_inv m' \<and> n \<le> length sbs
   \<and> (\<forall>k. k \<notin> sb_id ` set sbs \<longrightarrow> view (m_store m') k = view (m_store m) k)
   \<and> (\<forall>k. view (m_store m') k = None \<or> view (m_store m') k = view (m_store m) k)
   \<and> (n = length sbs \<longrightarrow> (\<forall>k \<in> sb_id ` set sbs. view (m_store m') k = None))"
proof (induction sbs arbitrary: m n m')
  case (Cons sb sbs)
  obtain err m1 where de: "delete rt st (sb_id sb) m = (err, m1)" by fastforce
  obtain k m2 where rec: "sweep_all rt st sbs m1 = (k, m2)" by fastforce
  note d = delete_facts [OF Cons.prems(1) de]
  have inv1: "mgr_inv m1" using d by blast
  have m': "m' = m2" and n: "n = (if err \<noteq> None \<and> err \<noteq> Some (StoreFailed ErrNotFound) then k else Suc k)"
    using Cons.prems(2) de rec by (auto split: if_splits)
  note IH = Cons.IH [OF inv1 rec]
  have other: "j \<noteq> sb_id sb \<Longrightarrow> view (m_store m1) j = view (m_store m) j"
    and keep: "view (m_store m1) j = None \<or> view (m_store m1) j = view (m_store m) j" for j
    using d by (auto split: option.splits)
  have gone: "err = None \<or> err = Some (StoreFailed ErrNotFound) \<Longrightarrow> view (m_store m1) (sb_id sb) = None"
    using d by (auto split: option.splits)
  have keep2: "view (m_store m2) j = None \<or> view (m_store m2) j = view (m_store m) j" for j
    using IH keep [of j] by metis
  have "view (m_store m2) j = view (m_store m) j" if "j \<notin> sb_id ` set (sb # sbs)" for j
    using IH other [of j] that by simp
  moreover have "n = length (sb # sbs) \<longrightarrow> (\<forall>j \<in> sb_id ` set (sb # sbs). view (m_store m2) j = None)"
  proof
    assume "n = length (sb # sbs)"
    with IH n have "k = length sbs" "view (m_store m1) (sb_id sb) = None"
      using gone by (auto split: if_splits)
    with IH show "\<forall>j \<in> sb_id ` set (sb # sbs). view (m_store m2) j = None" by auto
  qed
  moreover have "n \<le> length (sb # sbs)" using IH n by (auto split: if_splits)
  ultimately show ?case using IH keep2 unfolding m' by blast
qed simp

lemma sweep_facts:
  assumes inv: "mgr_inv m" and m': "m' = sweep rt st now m"
  shows "mgr_inv m'
    \<and> (\<forall>k. view (m_store m') k = None \<or> view (m_store m') k = view (m_store m) k)
    \<and> (\<forall>k sb. view (m_store m) k = Some sb \<and> view (m_store m') k = None \<longrightarrow>
         (\<exists>x. sb_expires_at sb = Some x \<and> due x now))
    \<and> (\<forall>sbs s'. st_expired st now (m_store m) = (Inr sbs, s') \<longrightarrow>
         (\<exists>n \<le> length sbs. map_option mt_reaped (m_metrics m') = map_option (\<lambda>k. mt_reaped k + n) (m_metrics m)
            \<and> (n = length sbs \<longrightarrow> (\<forall>k sb x. view (m_store m') k = Some sb \<and> sb_expires_at sb = Some x \<longrightarrow>
                 \<not> due x now))))"
proof (cases "st_expired st now (m_store m)")
  case (Pair res s')
  note ex = expired [OF inv_sinv(1) [OF inv] Pair]
  let ?m1 = "m\<lparr> m_store := s' \<rparr>"
  have inv1: "mgr_inv ?m1" by (rule inv_store [OF inv]) (use ex in auto)
  have same1: "view (m_store ?m1) = view (m_store m)" using ex by simp
  show ?thesis
  proof (cases res)
    case (Inl e)
    with m' Pair have "m' = ?m1" by (simp add: sweep_def expired_before_def)
    with Inl inv1 same1 Pair show ?thesis by auto
  next
    case (Inr sbs)
    obtain n m2 where sw: "sweep_all rt st sbs ?m1 = (n, m2)" by fastforce
    note f = sweep_all_facts [OF inv1 sw]
    have m'2: "m' = (if n > 0 then m2\<lparr> m_metrics := reaper_swept n (m_metrics m2) \<rparr> else m2)"
      using m' Pair Inr sw by (simp add: sweep_def expired_before_def)
    have store: "m_store m' = m_store m2" by (simp add: m'2)
    have inv': "mgr_inv m'" by (rule inv_cong [of m2]) (use f in \<open>simp_all add: m'2\<close>)
    have sel: "set sbs = {sb \<in> ran (view (m_store m)). \<exists>x. sb_expires_at sb = Some x \<and> due x now}"
      using ex Inr by simp
    have reaped: "map_option mt_reaped (m_metrics m') = map_option (\<lambda>k. mt_reaped k + n) (m_metrics m)"
      using sweep_all_reaped [OF sw]
      by (cases "m_metrics m2"; cases "m_metrics m") (auto simp: m'2 reaper_swept_def)
    have "\<exists>x. sb_expires_at sb = Some x \<and> due x now"
      if "view (m_store m) k = Some sb" "view (m_store m') k = None" for k sb
    proof -
      have "k \<in> sb_id ` set sbs" using f that same1 store by (metis option.distinct(1))
      then obtain sb' where sb': "sb' \<in> set sbs" "k = sb_id sb'" by blast
      then have "view (m_store m) k = Some sb'"
        using sel view_id [OF inv_sinv(1) [OF inv]] by (auto simp: ran_def)
      with that sb' sel show ?thesis by auto
    qed
    moreover have "\<not> due x now"
      if "n = length sbs" "view (m_store m') k = Some sb" "sb_expires_at sb = Some x" for k sb x
    proof
      assume "due x now"
      have "view (m_store m) k = Some sb" using f that(2) same1 store by (metis option.distinct(1))
      with that \<open>due x now\<close> sel view_id [OF inv_sinv(1) [OF inv]] have "sb \<in> set sbs" "sb_id sb = k"
        by (auto simp: ran_def)
      with f that(1,2) store show False by force
    qed
    ultimately show ?thesis
      using inv' f same1 store reaped Pair Inr by auto
  qed
qed

end

section \<open>Properties\<close>

lemma demo_no_expiry:
  "\<exists>sb. sqlite_view (m_store demo_created) ''u1'' = Some sb \<and> sb_expires_at sb = None"
proof -
  obtain sb where cr: "create fake_ops sqlite_ops ''u1'' 0 demo_options demo_manager = ((sb, None), demo_created)"
    using demo_create by blast
  have inv: "fake_mgr.mgr_inv demo_manager"
    using fake_mgr.new_manager_inv [OF demo_manager_new] by simp
  have "m_policy demo_manager = sample_policy" by (simp add: demo_manager_def)
  moreover have "rs_ttl demo_resolved = 0"
    by (simp add: demo_resolved_def resolve_spec_def image_layer_def profile_layer_def chosen_image_def
        request_of_def demo_options_def sample_defs)
  ultimately show ?thesis
    using fake_mgr.create_facts [OF inv _ _ cr] demo_resolve
    by (auto simp: demo_options_def fake_mgr.put_at_def created_running_def new_sandbox_def
        same_sandbox_def)
qed



end
