(* ===== verification/Concurrent.thy ===== *)
theory Concurrent
  imports Sandboxes
begin

text \<open>
  Requests to the manager that run at the same time. No lock is held across a method of
  \<open>manager.go\<close>: each method is a sequence of calls to the store, the backend and the pools, every one
  atomic, and the calls of different requests interleave. A request under way is a \<open>task\<close>, which
  says what it does next and holds the local variables it still needs; one step of a task is one such
  call. Run alone, a task does what the method of \<open>Manager\<close> does. The counters of the metrics commute, so
  their increments join the step before; the gauge does not, and is a step of its own. In \<open>Exec\<close> and
  \<open>Logs\<close> all that follows the lookup of the row is one step.
\<close>

section \<open>Tasks\<close>

text \<open>What a finished request returns.\<close>

datatype outcome =
    Created sandbox "mgr_error option"
  | Ran "entry list" "mgr_error + exec_result"
  | Logged "mgr_error + logs_result"
  | Ended "mgr_error option"

datatype task =
    CreateCall string gotime create_options
  | CreateClaim policy "(string \<times> nat) list" resolved string gotime create_options
  | CreateLaunch resolved string gotime create_options
  | CreateFailed sandbox create_options rt_error
  | CreatePut bool sandbox create_options
  | RefreshList outcome
  | RefreshGauge nat outcome
  | StopCall string
  | StopContainer sandbox
  | StopPut sandbox
  | DeleteCall string
  | DeleteContainer string sandbox
  | DeleteRow string
  | DeleteLogs string
  | ExecCall string exec_options gotime
  | ExecRun string sandbox exec_options gotime
  | LogsCall string logs_options
  | LogsRun string logs_options
  | Finished outcome

text \<open>\<open>tryClaim\<close> works on the policy and the pools of the snapshot its request took, not on the current
  ones.\<close>

definition claim_from ::
    "policy \<Rightarrow> (string \<times> nat) list \<Rightarrow> resolved \<Rightarrow> ('r, 's) manager \<Rightarrow> string option \<times> ('r, 's) manager" where
  "claim_from pol pools res m =
     (case map_of pools (rs_image res) of
        None \<Rightarrow> (None, m)
      | Some i \<Rightarrow>
          (if \<not> pool_matches_resolved pol res then (None, m)
           else case pool_get (m_heap m ! i) of
             (None, p') \<Rightarrow> (None, m)
           | (Some c, p') \<Rightarrow> (Some c, m\<lparr> m_heap := (m_heap m)[i := p'] \<rparr>)))"

fun create_step ::
    "'r runtime_ops \<Rightarrow> 's store_ops \<Rightarrow> task \<Rightarrow> ('r, 's) manager \<Rightarrow> task \<times> ('r, 's) manager" where
  "create_step rt st (CreateCall u now opts) m =
     (case resolve (m_policy m) (request_of opts) of
        Inl e \<Rightarrow>
          (Finished (Created empty_sandbox (Some (PolicyDenied e))),
           record_created (co_image opts) (co_profile opts) ''policy_denied'' m)
      | Inr res \<Rightarrow> (CreateClaim (m_policy m) (m_pools m) res u now opts, m))"
| "create_step rt st (CreateClaim pol pools res u now opts) m =
     (case claim_from pol pools res m of
        (Some c, m1) \<Rightarrow>
          (CreatePut True ((new_sandbox res u now)\<lparr> sb_runtime_id := c, sb_state := state_running \<rparr>) opts, m1)
      | (None, m1) \<Rightarrow> (CreateLaunch res u now opts, m1))"
| "create_step rt st (CreateLaunch res u now opts) m =
     (case rt_create rt (runtime_spec res u) (m_rt m) of
        (Inl e, r') \<Rightarrow> (CreateFailed ((new_sandbox res u now)\<lparr> sb_state := state_error \<rparr>) opts e, m\<lparr> m_rt := r' \<rparr>)
      | (Inr h, r') \<Rightarrow>
          (CreatePut False ((new_sandbox res u now)\<lparr> sb_runtime_id := h_id h, sb_state := state_running \<rparr>) opts,
           m\<lparr> m_rt := r' \<rparr>))"
| "create_step rt st (CreateFailed sb opts e) m =
     (Finished (Created sb (Some (RuntimeCreate e))),
      record_created (sb_image sb) (co_profile opts) ''runtime_error'' (m\<lparr> m_store := snd (st_put st sb (m_store m)) \<rparr>))"
| "create_step rt st (CreatePut warm sb opts) m =
     (case st_put st sb (m_store m) of
        (Some e, s') \<Rightarrow> (Finished (Created sb (Some (StorePut e))), m\<lparr> m_store := s' \<rparr>)
      | (None, s') \<Rightarrow>
          (RefreshList (Created sb None),
           record_created (sb_image sb) (co_profile opts) ''success''
             (m\<lparr> m_store := s',
                m_metrics := (if warm then pool_hit (sb_image sb) else pool_miss (sb_image sb)) (m_metrics m) \<rparr>)))"
| "create_step rt st t m = (t, m)"

text \<open>\<open>refreshActive\<close>, with the outcome that the request returns after it.\<close>

fun refresh_step :: "'s store_ops \<Rightarrow> task \<Rightarrow> ('r, 's) manager \<Rightarrow> task \<times> ('r, 's) manager" where
  "refresh_step st (RefreshList out) m =
     (case st_list st (m_store m) of
        (Inl _, s') \<Rightarrow> (Finished out, m\<lparr> m_store := s' \<rparr>)
      | (Inr sbs, s') \<Rightarrow> (RefreshGauge (count_running sbs) out, m\<lparr> m_store := s' \<rparr>))"
| "refresh_step st (RefreshGauge n out) m =
     (Finished out, m\<lparr> m_metrics := set_sandbox_active (int n) (m_metrics m) \<rparr>)"
| "refresh_step st t m = (t, m)"

fun stop_step ::
    "'r runtime_ops \<Rightarrow> 's store_ops \<Rightarrow> task \<Rightarrow> ('r, 's) manager \<Rightarrow> task \<times> ('r, 's) manager" where
  "stop_step rt st (StopCall i) m =
     (case get_sandbox st i m of
        (Inl e, m1) \<Rightarrow> (Finished (Ended (Some e)), m1)
      | (Inr sb, m1) \<Rightarrow> (StopContainer sb, m1))"
| "stop_step rt st (StopContainer sb) m =
     (case rt_stop rt (sb_runtime_id sb) (m_rt m) of
        (Some e, r') \<Rightarrow> (Finished (Ended (Some (RuntimeFailed e))), m\<lparr> m_rt := r' \<rparr>)
      | (None, r') \<Rightarrow> (StopPut (sb\<lparr> sb_state := state_stopped \<rparr>), m\<lparr> m_rt := r' \<rparr>))"
| "stop_step rt st (StopPut sb) m =
     (case st_put st sb (m_store m) of
        (Some e, s') \<Rightarrow> (Finished (Ended (Some (StoreFailed e))), m\<lparr> m_store := s' \<rparr>)
      | (None, s') \<Rightarrow> (RefreshList (Ended None), m\<lparr> m_store := s' \<rparr>))"
| "stop_step rt st t m = (t, m)"

fun delete_step ::
    "'r runtime_ops \<Rightarrow> 's store_ops \<Rightarrow> task \<Rightarrow> ('r, 's) manager \<Rightarrow> task \<times> ('r, 's) manager" where
  "delete_step rt st (DeleteCall i) m =
     (case get_sandbox st i m of
        (Inl e, m1) \<Rightarrow> (Finished (Ended (Some e)), m1)
      | (Inr sb, m1) \<Rightarrow> (DeleteContainer i sb, m1))"
| "delete_step rt st (DeleteContainer i sb) m =
     (DeleteRow i,
      if sb_runtime_id sb \<noteq> [] then m\<lparr> m_rt := snd (rt_remove rt (sb_runtime_id sb) (m_rt m)) \<rparr> else m)"
| "delete_step rt st (DeleteRow i) m =
     (case st_delete st i (m_store m) of
        (Some e, s') \<Rightarrow> (Finished (Ended (Some (StoreFailed e))), m\<lparr> m_store := s' \<rparr>)
      | (None, s') \<Rightarrow> (DeleteLogs i, m\<lparr> m_store := s' \<rparr>))"
| "delete_step rt st (DeleteLogs i) m = (RefreshList (Ended None), drop_log_buffer i m)"
| "delete_step rt st t m = (t, m)"

text \<open>The part of \<open>Exec\<close> and of \<open>Logs\<close> behind the lookup.\<close>

definition exec_found ::
    "'r runtime_ops \<Rightarrow> string \<Rightarrow> sandbox \<Rightarrow> exec_options \<Rightarrow> gotime \<Rightarrow> ('r, 's) manager
      \<Rightarrow> (entry list \<times> (mgr_error + exec_result)) \<times> ('r, 's) manager" where
  "exec_found rt i sb opts now m =
     (if sb_state sb \<noteq> state_running then (([], Inl (NotRunning i (sb_state sb))), m)
      else
        (case log_buffer_for i m of (lb, m2) \<Rightarrow>
         case rt_exec rt (sb_runtime_id sb) (exec_spec_of opts) (m_rt m2) of (chunks, res, r') \<Rightarrow>
          (let m3 = m2\<lparr> m_rt := r' \<rparr>;
               teed = map_option (fold write_entry chunks) lb
           in case res of
                Inl e \<Rightarrow>
                  ((chunks, Inl (RuntimeFailed e)),
                   case teed of None \<Rightarrow> m3 | Some b \<Rightarrow> set_log_buffer i b m3)
              | Inr x \<Rightarrow>
                  ((chunks, Inr x),
                   case teed of None \<Rightarrow> m3
                   | Some b \<Rightarrow> set_log_buffer i (append_result opts x now b) m3))))"

definition logs_found ::
    "string \<Rightarrow> logs_options \<Rightarrow> ('r, 's) manager \<Rightarrow> logs_result \<times> ('r, 's) manager" where
  "logs_found i opts m =
     (case log_buffer_for i m of
        (None, m2) \<Rightarrow> (\<lparr> lr_snapshot = [], lr_subscribe = None \<rparr>, m2)
      | (Some b, m2) \<Rightarrow>
          (let (ch, b1) = (if lo_follow opts then (let (c, b') = subscribe b in (Some c, b')) else (None, b));
               snap = snapshot b1
           in (\<lparr> lr_snapshot = (if lo_tail_lines opts > 0 then tail_lines snap (lo_tail_lines opts) else snap),
                 lr_subscribe = ch \<rparr>,
               set_log_buffer i b1 m2)))"

fun read_step ::
    "'r runtime_ops \<Rightarrow> 's store_ops \<Rightarrow> task \<Rightarrow> ('r, 's) manager \<Rightarrow> task \<times> ('r, 's) manager" where
  "read_step rt st (ExecCall i opts now) m =
     (case get_sandbox st i m of
        (Inl e, m1) \<Rightarrow> (Finished (Ran [] (Inl e)), m1)
      | (Inr sb, m1) \<Rightarrow> (ExecRun i sb opts now, m1))"
| "read_step rt st (ExecRun i sb opts now) m =
     (case exec_found rt i sb opts now m of ((chunks, res), m') \<Rightarrow> (Finished (Ran chunks res), m'))"
| "read_step rt st (LogsCall i opts) m =
     (case get_sandbox st i m of
        (Inl e, m1) \<Rightarrow> (Finished (Logged (Inl e)), m1)
      | (Inr sb, m1) \<Rightarrow> (LogsRun i opts, m1))"
| "read_step rt st (LogsRun i opts) m =
     (case logs_found i opts m of (res, m') \<Rightarrow> (Finished (Logged (Inr res)), m'))"
| "read_step rt st t m = (t, m)"

definition task_step ::
    "'r runtime_ops \<Rightarrow> 's store_ops \<Rightarrow> task \<Rightarrow> ('r, 's) manager \<Rightarrow> task \<times> ('r, 's) manager" where
  "task_step rt st t m =
     (case t of
        CreateCall _ _ _ \<Rightarrow> create_step rt st t m
      | CreateClaim _ _ _ _ _ _ \<Rightarrow> create_step rt st t m
      | CreateLaunch _ _ _ _ \<Rightarrow> create_step rt st t m
      | CreateFailed _ _ _ \<Rightarrow> create_step rt st t m
      | CreatePut _ _ _ \<Rightarrow> create_step rt st t m
      | RefreshList _ \<Rightarrow> refresh_step st t m
      | RefreshGauge _ _ \<Rightarrow> refresh_step st t m
      | StopCall _ \<Rightarrow> stop_step rt st t m
      | StopContainer _ \<Rightarrow> stop_step rt st t m
      | StopPut _ \<Rightarrow> stop_step rt st t m
      | DeleteCall _ \<Rightarrow> delete_step rt st t m
      | DeleteContainer _ _ \<Rightarrow> delete_step rt st t m
      | DeleteRow _ \<Rightarrow> delete_step rt st t m
      | DeleteLogs _ \<Rightarrow> delete_step rt st t m
      | Finished _ \<Rightarrow> (t, m)
      | _ \<Rightarrow> read_step rt st t m)"

lemma task_step_simps [simp]:
  "task_step rt st (CreateCall u now opts) = create_step rt st (CreateCall u now opts)"
  "task_step rt st (CreateClaim pol pools res u now opts) = create_step rt st (CreateClaim pol pools res u now opts)"
  "task_step rt st (CreateLaunch res u now opts) = create_step rt st (CreateLaunch res u now opts)"
  "task_step rt st (CreateFailed sb opts e) = create_step rt st (CreateFailed sb opts e)"
  "task_step rt st (CreatePut warm sb opts) = create_step rt st (CreatePut warm sb opts)"
  "task_step rt st (RefreshList out) = refresh_step st (RefreshList out)"
  "task_step rt st (RefreshGauge n out) = refresh_step st (RefreshGauge n out)"
  "task_step rt st (StopCall i) = stop_step rt st (StopCall i)"
  "task_step rt st (StopContainer sb) = stop_step rt st (StopContainer sb)"
  "task_step rt st (StopPut sb) = stop_step rt st (StopPut sb)"
  "task_step rt st (DeleteCall i) = delete_step rt st (DeleteCall i)"
  "task_step rt st (DeleteContainer i sb) = delete_step rt st (DeleteContainer i sb)"
  "task_step rt st (DeleteRow i) = delete_step rt st (DeleteRow i)"
  "task_step rt st (DeleteLogs i) = delete_step rt st (DeleteLogs i)"
  "task_step rt st (ExecCall i xopts now) = read_step rt st (ExecCall i xopts now)"
  "task_step rt st (ExecRun i sb xopts now) = read_step rt st (ExecRun i sb xopts now)"
  "task_step rt st (LogsCall i lopts) = read_step rt st (LogsCall i lopts)"
  "task_step rt st (LogsRun i lopts) = read_step rt st (LogsRun i lopts)"
  "task_step rt st (Finished out) m = (Finished out, m)"
  by (simp_all add: task_step_def fun_eq_iff)

section \<open>A task on its own\<close>

definition run_task ::
    "'r runtime_ops \<Rightarrow> 's store_ops \<Rightarrow> nat \<Rightarrow> task \<Rightarrow> ('r, 's) manager \<Rightarrow> task \<times> ('r, 's) manager" where
  "run_task rt st n t m = ((\<lambda>(t, m). task_step rt st t m) ^^ n) (t, m)"

lemma run_task_0 [simp]: "run_task rt st 0 t m = (t, m)"
  by (simp add: run_task_def)

lemma run_task_Suc [simp]:
  "run_task rt st (Suc n) t m = (case task_step rt st t m of (t', m') \<Rightarrow> run_task rt st n t' m')"
  by (simp add: run_task_def funpow_Suc_right split_beta del: funpow.simps)

lemma run_finished [simp]: "run_task rt st n (Finished out) m = (Finished out, m)"
  by (induction n) simp_all

lemma claim_from_now: "claim_from (m_policy m) (m_pools m) res m = try_claim res m"
  by (simp add: claim_from_def try_claim_def)

text \<open>Unrolling a few steps at a time, so that the end of a run stays folded.\<close>

lemma run_task_num:
  "run_task rt st 6 t m = (case task_step rt st t m of (t', m') \<Rightarrow> run_task rt st 5 t' m')"
  "run_task rt st 5 t m = (case task_step rt st t m of (t', m') \<Rightarrow> run_task rt st 4 t' m')"
  "run_task rt st 4 t m = (case task_step rt st t m of (t', m') \<Rightarrow> run_task rt st 3 t' m')"
  using run_task_Suc [of rt st 5 t m] run_task_Suc [of rt st 4 t m] run_task_Suc [of rt st 3 t m]
  by (simp_all del: run_task_Suc)

lemma run_task_3: "run_task rt st 3 t m = (case task_step rt st t m of (t', m') \<Rightarrow> run_task rt st 2 t' m')"
  using run_task_Suc [of rt st 2 t m] by (simp del: run_task_Suc)

lemma run_refresh [simp]: "run_task rt st 2 (RefreshList out) m = (Finished out, refresh_active st m)"
  by (auto simp: numeral_2_eq_2 refresh_active_def split: prod.split sum.split)

lemma exec_split:
  "exec rt st i opts now m =
     (case get_sandbox st i m of (Inl e, m1) \<Rightarrow> (([], Inl e), m1) | (Inr sb, m1) \<Rightarrow> exec_found rt i sb opts now m1)"
  unfolding exec_def exec_found_def ..

lemma logs_split:
  "logs st i opts m =
     (case get_sandbox st i m of
        (Inl e, m1) \<Rightarrow> (Inl e, m1)
      | (Inr sb, m1) \<Rightarrow> (case logs_found i opts m1 of (res, m') \<Rightarrow> (Inr res, m')))"
  by (auto simp: logs_def logs_found_def Let_def split: prod.split sum.split option.split)

lemma run_finish_create:
  "run_task rt st 3 (CreatePut warm sb opts) m =
     (case finish_create st opts ((if warm then pool_hit else pool_miss) (sb_image sb)) sb m of
        ((sb', err), m') \<Rightarrow> (Finished (Created sb' err), m'))"
proof -
  obtain err s' where "st_put st sb (m_store m) = (err, s')" by fastforce
  then show ?thesis by (cases err; cases warm) (simp_all add: run_task_3 finish_create_def)
qed

text \<open>Steps in a row.\<close>

lemma run_add: "run_task rt st (a + b) t m = (case run_task rt st a t m of (t', m') \<Rightarrow> run_task rt st b t' m')"
  by (induction a arbitrary: t m) (simp_all split: prod.split)

lemma run_create:
  "run_task rt st 6 (CreateCall u now opts) m =
     (case create rt st u now opts m of ((sb, err), m') \<Rightarrow> (Finished (Created sb err), m'))"
proof (cases "resolve (m_policy m) (request_of opts)")
  case (Inr res)
  have img: "sb_image (new_sandbox res u now) = rs_image res" by (simp add: new_sandbox_def)
  obtain got m1 where tc: "try_claim res m = (got, m1)" by fastforce
  show ?thesis
  proof (cases got)
    case None
    obtain cres r' where rc: "rt_create rt (runtime_spec res u) (m_rt m1) = (cres, r')" by fastforce
    show ?thesis using Inr tc None rc
      by (cases cres) (simp_all add: run_task_num run_task_3 [of rt st "CreateFailed sb opts e" for sb e] create_def
          claim_from_now img Let_def run_finish_create)
  next
    case (Some c)
    obtain x m2 where fin: "finish_create st opts (pool_hit (rs_image res))
        ((new_sandbox res u now)\<lparr> sb_runtime_id := c, sb_state := state_running \<rparr>) m1 = (x, m2)" by fastforce
    have more: "run_task rt st 4 (CreatePut warm sb opts) m1 = run_task rt st 3 (CreatePut warm sb opts) m1" for warm sb
      using run_add [of rt st 3 1] by (simp add: run_finish_create split: prod.split)
    show ?thesis using Inr tc Some fin
      by (cases x) (simp add: run_task_num(1,2) create_def claim_from_now img Let_def run_finish_create more)
  qed
qed (simp add: run_task_num create_def)

lemma run_stop:
  "run_task rt st 5 (StopCall i) m = (case stop rt st i m of (err, m') \<Rightarrow> (Finished (Ended err), m'))"
proof -
  obtain res m1 where g: "get_sandbox st i m = (res, m1)" by fastforce
  show ?thesis
  proof (cases res)
    case (Inr sb)
    obtain e1 r' where "rt_stop rt (sb_runtime_id sb) (m_rt m1) = (e1, r')" by fastforce
    moreover obtain e2 s' where "st_put st (sb\<lparr> sb_state := state_stopped \<rparr>) (m_store m1) = (e2, s')" by fastforce
    ultimately show ?thesis using g Inr
      by (cases e1; cases e2) (simp_all add: run_task_num run_task_3 stop_def)
  qed (use g in \<open>simp add: run_task_num stop_def\<close>)
qed

lemma run_delete:
  "run_task rt st 6 (DeleteCall i) m = (case delete rt st i m of (err, m') \<Rightarrow> (Finished (Ended err), m'))"
proof -
  obtain res m1 where g: "get_sandbox st i m = (res, m1)" by fastforce
  show ?thesis
  proof (cases res)
    case (Inr sb)
    obtain e s' where "st_delete st i (m_store m1) = (e, s')" by fastforce
    then show ?thesis using g Inr
      by (cases e) (simp_all add: run_task_num run_task_3 delete_def Let_def)
  qed (use g in \<open>simp add: run_task_num delete_def\<close>)
qed

lemma run_exec:
  "run_task rt st 2 (ExecCall i opts now) m =
     (case exec rt st i opts now m of ((chunks, res), m') \<Rightarrow> (Finished (Ran chunks res), m'))"
  by (auto simp: numeral_2_eq_2 exec_split split: prod.split sum.split)

lemma run_logs:
  "run_task rt st 2 (LogsCall i opts) m =
     (case logs st i opts m of (res, m') \<Rightarrow> (Finished (Logged res), m'))"
  by (auto simp: numeral_2_eq_2 logs_split split: prod.split sum.split)

section \<open>Properties\<close>


end
