(* ===== verification/Interleaving.thy ===== *)
theory Interleaving
  imports Concurrent
begin

text \<open>
  The manager under concurrent requests: every interleaving of the steps of its tasks with each other
  and with the background work (the warm-up of pools, the reload of a policy, the retirement and the
  refill of pools). A container has one owner: the invariant that no container is shared holds with
  the sandboxes that requests under way hold in their local variables counted in.
\<close>

section \<open>Runs\<close>

record ('r, 's) busy =
  bs_mgr :: "('r, 's) manager"
  bs_tasks :: "task list"

datatype event = Arrive task | Run nat | Background mgr_op

fun is_call :: "task \<Rightarrow> bool" where
  "is_call (CreateCall _ _ _) = True"
| "is_call (StopCall _) = True"
| "is_call (DeleteCall _) = True"
| "is_call (ExecCall _ _ _) = True"
| "is_call (LogsCall _ _) = True"
| "is_call _ = False"

fun is_background :: "mgr_op \<Rightarrow> bool" where
  "is_background OpStart = True"
| "is_background OpShutdown = True"
| "is_background (OpReplacePolicy _) = True"
| "is_background OpRetire = True"
| "is_background (OpRefill _) = True"
| "is_background _ = False"

text \<open>A request arrives, a task takes a step, or the background does; anything else is no event.\<close>

fun busy_step ::
    "'r runtime_ops \<Rightarrow> 's store_ops \<Rightarrow> event \<Rightarrow> ('r, 's) busy \<Rightarrow> ('r, 's) busy" where
  "busy_step rt st (Arrive t) y = (if is_call t then y\<lparr> bs_tasks := bs_tasks y @ [t] \<rparr> else y)"
| "busy_step rt st (Run i) y =
     (if i < length (bs_tasks y) then
        (case task_step rt st (bs_tasks y ! i) (bs_mgr y) of
           (t', m') \<Rightarrow> \<lparr> bs_mgr = m', bs_tasks = (bs_tasks y)[i := t'] \<rparr>)
      else y)"
| "busy_step rt st (Background op) y =
     (if is_background op then y\<lparr> bs_mgr := mgr_step rt st op (bs_mgr y) \<rparr> else y)"

definition busy_run ::
    "'r runtime_ops \<Rightarrow> 's store_ops \<Rightarrow> event list \<Rightarrow> ('r, 's) busy \<Rightarrow> ('r, 's) busy" where
  "busy_run rt st evs y = fold (busy_step rt st) evs y"

fun event_ok :: "event \<Rightarrow> bool" where
  "event_ok (Arrive (CreateCall u t opts)) \<longleftrightarrow>
     distinct (map fst (co_env opts)) \<and> distinct (map fst (co_labels opts))"
| "event_ok _ \<longleftrightarrow> True"

text \<open>The states that a manager gets into under requests that overlap.\<close>

definition busy_reachable ::
    "'r runtime_ops \<Rightarrow> 's store_ops \<Rightarrow> 'r \<Rightarrow> 's \<Rightarrow> ('r, 's) busy \<Rightarrow> bool" where
  "busy_reachable rt st r s y \<longleftrightarrow> (\<exists>pol log_bytes rec evs m0.
     new_manager (Some r) (Some s) pol log_bytes rec = Inr m0
     \<and> (\<forall>ev \<in> set evs. event_ok ev) \<and> y = busy_run rt st evs \<lparr> bs_mgr = m0, bs_tasks = [] \<rparr>)"

section \<open>The background leaves the rows alone\<close>

definition rows_frame :: "('r, 's) manager \<Rightarrow> ('r, 's) manager \<Rightarrow> bool" where
  "rows_frame m m' \<longleftrightarrow> m_store m' = m_store m \<and> length (m_heap m) \<le> length (m_heap m')"

lemma rows_frame_pools:
  "start_pools rt ps m = (e, m') \<Longrightarrow> rows_frame m m'"
  "shutdown_pools rt is m = (es, m') \<Longrightarrow> rows_frame m m'"
proof -
  show "start_pools rt ps m = (e, m') \<Longrightarrow> rows_frame m m'"
    by (induction rt ps m arbitrary: e m' rule: start_pools.induct)
      (auto simp: rows_frame_def split: prod.splits option.splits)
  show "shutdown_pools rt is m = (es, m') \<Longrightarrow> rows_frame m m'"
    by (induction rt "is" m arbitrary: es m' rule: shutdown_pools.induct)
      (auto simp: rows_frame_def Let_def split: prod.splits)
qed

lemma rows_frame_warm: "warm_pools rt warmed is m = (e, m') \<Longrightarrow> rows_frame m m'"
proof (induction rt warmed "is" m arbitrary: e m' rule: warm_pools.induct)
  case (2 rt warmed i "is" m)
  obtain e1 p' r' where st: "pool_start rt (m_heap m ! i) (m_rt m) = (e1, p', r')"
    by (cases "pool_start rt (m_heap m ! i) (m_rt m)")
  show ?case
  proof (cases e1)
    case None
    with 2 st show ?thesis by (fastforce simp: rows_frame_def)
  next
    case (Some x)
    obtain es m1 where sd: "shutdown_pools rt warmed (put_pool i p' r' m) = (es, m1)" by fastforce
    with rows_frame_pools(2) [OF sd] 2 st Some show ?thesis by (auto simp: rows_frame_def)
  qed
qed (simp add: rows_frame_def)

lemma merge_pools_grow: "merge_pools old ds heap = (merged, ts, heap') \<Longrightarrow> length heap \<le> length heap'"
  by (induction old ds heap arbitrary: merged ts heap' rule: merge_pools.induct)
    (fastforce split: option.splits if_splits prod.splits)+

lemma rows_frame_background:
  assumes "is_background op"
  shows "rows_frame m (mgr_step rt st op m)"
proof (cases op)
  case OpStart
  then show ?thesis
    by (auto simp: start_def Let_def rows_frame_def dest!: rows_frame_pools(1) split: prod.split option.split)
next
  case OpShutdown
  then show ?thesis by (auto simp: shutdown_def Let_def dest: rows_frame_pools(2) split: prod.split)
next
  case (OpReplacePolicy pol)
  show ?thesis
  proof (cases "pol = None \<or> (\<exists>p e. pol = Some p \<and> validate p = Some e)")
    case True
    then show ?thesis using OpReplacePolicy by (auto simp: replace_policy_def rows_frame_def)
  next
    case False
    then obtain p where p: "pol = Some p" "validate p = None" by auto
    obtain merged ts heap' where mp: "merge_pools (m_pools m) (build_pools p) (m_heap m) = (merged, ts, heap')"
      by (cases "merge_pools (m_pools m) (build_pools p) (m_heap m)")
    obtain e m2 where w: "(if m_started m then warm_pools rt [] ts (m\<lparr> m_heap := heap' \<rparr>)
        else (None, m\<lparr> m_heap := heap' \<rparr>)) = (e, m2)" by fastforce
    then have "rows_frame m m2"
      using merge_pools_grow [OF mp] rows_frame_warm [of rt "[]" ts "m\<lparr> m_heap := heap' \<rparr>" e m2]
      by (auto simp: rows_frame_def split: if_splits)
    with OpReplacePolicy p mp w show ?thesis
      by (cases e) (auto simp: replace_policy_def rows_frame_def)
  qed
next
  case OpRetire
  show ?thesis
  proof (cases "m_retiring m")
    case (Cons i rest)
    obtain es m1 where sd: "shutdown_pools rt [i] (m\<lparr> m_retiring := rest \<rparr>) = (es, m1)" by fastforce
    with Cons OpRetire rows_frame_pools(2) [OF sd] show ?thesis
      by (simp add: retire_def rows_frame_def del: shutdown_pools.simps)
  qed (simp add: OpRetire retire_def rows_frame_def)
next
  case (OpRefill i)
  then show ?thesis by (auto simp: refill_pool_def rows_frame_def split: prod.split)
qed (use assms in auto)

section \<open>Owners\<close>

text \<open>The sandbox a request under way holds.\<close>

fun held :: "task \<Rightarrow> sandbox option" where
  "held (CreateFailed sb _ _) = Some sb"
| "held (CreatePut _ sb _) = Some sb"
| "held (StopContainer sb) = Some sb"
| "held (StopPut sb) = Some sb"
| "held (DeleteContainer _ sb) = Some sb"
| "held (ExecRun _ sb _ _) = Some sb"
| "held _ = None"

text \<open>The requests that may still write the row of \<open>i\<close>: a create that drew this identifier, and a stop that
  has looked it up.\<close>

fun writes :: "string \<Rightarrow> task \<Rightarrow> bool" where
  "writes i (CreateCall u _ _) = (u = i)"
| "writes i (CreateClaim _ _ _ u _ _) = (u = i)"
| "writes i (CreateLaunch _ u _ _) = (u = i)"
| "writes i (CreateFailed sb _ _) = (sb_id sb = i)"
| "writes i (CreatePut _ sb _) = (sb_id sb = i)"
| "writes i (StopContainer sb) = (sb_id sb = i)"
| "writes i (StopPut sb) = (sb_id sb = i)"
| "writes i _ = False"

text \<open>A store that always fails, and shows a fixed set of rows: the invariant of \<open>Lifecycle\<close> over it
  says of any set of containers that it is apart from the pools, and the background keeps it.\<close>

definition dead_store :: "'s store_ops" where
  "dead_store = \<lparr> st_put = \<lambda>sb s. (Some (StoreError []), s), st_get = \<lambda>i s. (Inl (StoreError []), s),
     st_list = \<lambda>s. (Inl (StoreError []), s), st_delete = \<lambda>i s. (Some (StoreError []), s),
     st_expired = \<lambda>t s. (Inl (StoreError []), s), st_ping = None \<rparr>"

definition token_rows :: "string set \<Rightarrow> string \<Rightarrow> sandbox option" where
  "token_rows cs c = (if c \<in> cs
     then Some (empty_sandbox\<lparr> sb_id := c, sb_runtime_id := c, sb_state := state_running \<rparr>) else None)"

lemma token_rows_Some [simp]:
  "token_rows cs c = Some sb \<longleftrightarrow> c \<in> cs \<and> sb = empty_sandbox\<lparr> sb_id := c, sb_runtime_id := c, sb_state := state_running \<rparr>"
  by (auto simp: token_rows_def)

lemma background_any_store: "is_background op \<Longrightarrow> mgr_step rt st op m = mgr_step rt st' op m"
  by (cases op) simp_all

context manager_env
begin

lemma dead_env: "manager_env rt live issued rinv (dead_store :: 's store_ops) (\<lambda>_. token_rows cs) (\<lambda>_. True) (\<lambda>_ _. False)"
proof (rule manager_env.intro)
  show "managed_runtime rt live issued rinv" by (rule managed_runtime_axioms)
  show "pool_backend rt live issued rinv" by (rule pool_backend_axioms)
  show "sandbox_store (dead_store :: 's store_ops) (\<lambda>_. token_rows cs) (\<lambda>_. True) (\<lambda>_ _. False)"
    by unfold_locales (auto simp: dead_store_def maps_ok_def empty_sandbox_def)
qed

definition apart :: "('r, 's) manager \<Rightarrow> string \<Rightarrow> bool" where
  "apart m c \<longleftrightarrow> c \<in> issued (m_rt m) \<and> (\<forall>p \<in> set (m_heap m). c \<notin> set (p_avail p))"

lemma dead_inv: "mgr_inv m \<Longrightarrow> \<forall>c \<in> cs. apart m c \<Longrightarrow>
    manager_env.mgr_inv issued rinv (\<lambda>_. token_rows cs) (\<lambda>_. True) (m :: ('r, 's) manager)"
  unfolding manager_env.inv_defs [OF dead_env] inv_defs
  by (auto simp: apart_def)

lemma background_inv: "mgr_inv m \<Longrightarrow> is_background op \<Longrightarrow> mgr_inv (mgr_step rt st op m)"
  by (rule mgr_step_inv, assumption) (cases op; simp)

lemma background_apart:
  assumes "mgr_inv m" and "is_background op" and "apart m c" and "c \<noteq> []"
  shows "apart (mgr_step rt st op m) c"
proof -
  have "op_ok op" using assms(2) by (cases op) simp_all
  have "manager_env.mgr_inv issued rinv (\<lambda>_. token_rows {c}) (\<lambda>_. True) m"
    using dead_inv [OF assms(1), of "{c}"] assms(3) by simp
  from manager_env.mgr_step_inv [OF dead_env this \<open>op_ok op\<close>]
  have "manager_env.mgr_inv issued rinv (\<lambda>_. token_rows {c}) (\<lambda>_. True) (mgr_step rt st op m)"
    using background_any_store [OF assms(2), of rt "dead_store :: 's store_ops" m st] by simp
  then show ?thesis
    using assms(4) unfolding manager_env.inv_defs [OF dead_env] by (auto simp: apart_def)
qed

text \<open>The sandboxes a container belongs to, by a row or by a request under way.\<close>

definition owners :: "('r, 's) manager \<Rightarrow> task list \<Rightarrow> string \<Rightarrow> string set" where
  "owners m ts c = {k. (\<exists>sb. view (m_store m) k = Some sb \<and> sb_runtime_id sb = c)
     \<or> (\<exists>t \<in> set ts. \<exists>sb. held t = Some sb \<and> sb_id sb = k \<and> sb_runtime_id sb = c)}"

definition owned_ok :: "('r, 's) manager \<Rightarrow> task list \<Rightarrow> bool" where
  "owned_ok m ts \<longleftrightarrow> (\<forall>c k. c \<noteq> [] \<and> k \<in> owners m ts c \<longrightarrow> apart m c \<and> owners m ts c = {k})"

definition task_ok :: "('r, 's) manager \<Rightarrow> task \<Rightarrow> bool" where
  "task_ok m t \<longleftrightarrow>
     (\<forall>sb. held t = Some sb \<longrightarrow> maps_ok sb \<and> sb_state sb \<in> {state_running, state_stopped, state_error})
   \<and> (case t of
        CreateCall u now opts \<Rightarrow> distinct (map fst (co_env opts)) \<and> distinct (map fst (co_labels opts))
      | CreateClaim pol pools res u now opts \<Rightarrow>
          maps_ok (new_sandbox res u now) \<and> (\<forall>i \<in> snd ` set pools. i < length (m_heap m))
      | CreateLaunch res u now opts \<Rightarrow> maps_ok (new_sandbox res u now)
      | _ \<Rightarrow> True)"

definition busy_inv :: "('r, 's) manager \<Rightarrow> task list \<Rightarrow> bool" where
  "busy_inv m ts \<longleftrightarrow> mgr_inv m \<and> owned_ok m ts \<and> (\<forall>t \<in> set ts. task_ok m t)"

lemma task_ok_grow: "task_ok m t \<Longrightarrow> length (m_heap m) \<le> length (m_heap m') \<Longrightarrow> task_ok m' t"
  unfolding task_ok_def by (cases t) auto

lemma owners_update:
  "owners m' (ts[i := t']) c \<subseteq> owners m ts c
     \<union> {k. \<exists>sb. view (m_store m') k = Some sb \<and> sb_runtime_id sb = c}
     \<union> {k. \<exists>sb. held t' = Some sb \<and> sb_id sb = k \<and> sb_runtime_id sb = c}"
  unfolding owners_def by (auto dest!: subsetD [OF set_update_subset_insert])

lemma held_owner: "t \<in> set ts \<Longrightarrow> held t = Some sb \<Longrightarrow> sb_id sb \<in> owners m ts (sb_runtime_id sb)"
  unfolding owners_def by blast

lemma row_owner: "view (m_store m) k = Some sb \<Longrightarrow> k \<in> owners m ts (sb_runtime_id sb)"
  unfolding owners_def by blast

lemma owned_apart: "owned_ok m ts \<Longrightarrow> k \<in> owners m ts c \<Longrightarrow> c \<noteq> [] \<Longrightarrow> apart m c"
  unfolding owned_ok_def by blast

text \<open>A state whose rows belong to owners of the old one, with the same pools.\<close>

definition stays :: "('r, 's) manager \<Rightarrow> task list \<Rightarrow> ('r, 's) manager \<Rightarrow> bool" where
  "stays m ts m' \<longleftrightarrow> mgr_inv m' \<and> issued (m_rt m) \<subseteq> issued (m_rt m') \<and> m_heap m' = m_heap m
     \<and> (\<forall>k sb. view (m_store m') k = Some sb \<longrightarrow> k \<in> owners m ts (sb_runtime_id sb))"

lemma stays_refl: "mgr_inv m \<Longrightarrow> stays m ts m"
  by (auto simp: stays_def row_owner)

lemma stays_cong:
  "stays m ts m1 \<Longrightarrow> m_rt m' = m_rt m1 \<Longrightarrow> m_store m' = m_store m1 \<Longrightarrow> m_pools m' = m_pools m1 \<Longrightarrow>
   m_heap m' = m_heap m1 \<Longrightarrow> m_retiring m' = m_retiring m1 \<Longrightarrow> stays m ts m'"
  unfolding stays_def by (auto intro: inv_cong [of m1])

lemma stays_store_only: "stays m ts m1 \<Longrightarrow> store_only m1 m' \<Longrightarrow> stays m ts m'"
  unfolding stays_def by (auto simp: store_only_same intro: inv_store_only)

lemma stays_rt:
  "stays m ts m1 \<Longrightarrow> rinv r' \<Longrightarrow> issued (m_rt m1) \<subseteq> issued r' \<Longrightarrow> stays m ts (m1\<lparr> m_rt := r' \<rparr>)"
  unfolding stays_def by (auto intro: inv_rt)

lemma busy_keep:
  assumes inv: "busy_inv m ts" and w: "stays m ts m'" and ok: "task_ok m t'"
    and own: "\<And>sb. held t' = Some sb \<Longrightarrow> sb_runtime_id sb \<noteq> [] \<Longrightarrow> sb_id sb \<in> owners m ts (sb_runtime_id sb)"
  shows "busy_inv m' (ts[i := t'])"
proof -
  have sub: "owners m' (ts[i := t']) c \<subseteq> owners m ts c" if "c \<noteq> []" for c
    using owners_update [of m' ts i t' c m] w own that by (auto simp: stays_def)
  have "owned_ok m' (ts[i := t'])"
    unfolding owned_ok_def
  proof (intro allI impI, elim conjE)
    fix c k assume c: "c \<noteq> []" and k: "k \<in> owners m' (ts[i := t']) c"
    then have "k \<in> owners m ts c" using sub by blast
    then have old: "apart m c" "owners m ts c = {k}" using c inv unfolding busy_inv_def owned_ok_def by blast+
    have "apart m' c" using old(1) w by (auto simp: apart_def stays_def)
    with sub [OF c] old k show "apart m' c \<and> owners m' (ts[i := t']) c = {k}" by blast
  qed
  moreover have "\<forall>t \<in> set (ts[i := t']). task_ok m' t"
    using inv ok w task_ok_grow [of m _ m'] by (auto simp: busy_inv_def stays_def dest!: subsetD [OF set_update_subset_insert])
  ultimately show ?thesis using w by (simp add: busy_inv_def stays_def)
qed

lemma busy_quiet:
  "busy_inv m ts \<Longrightarrow> stays m ts m' \<Longrightarrow> task_ok m t' \<Longrightarrow> held t' = None \<Longrightarrow> busy_inv m' (ts[i := t'])"
  by (rule busy_keep) auto

text \<open>A task gets hold of a container that belonged to nobody.\<close>

lemma busy_fresh:
  assumes inv: "busy_inv m ts" and m': "mgr_inv m'" "length (m_heap m') = length (m_heap m)"
    "view (m_store m') = view (m_store m)"
    and keeps: "\<And>c. c \<noteq> [] \<Longrightarrow> apart m c \<Longrightarrow> owners m ts c \<noteq> {} \<Longrightarrow> apart m' c"
    and new: "held t' = Some sb"
      "sb_runtime_id sb \<noteq> [] \<Longrightarrow> apart m' (sb_runtime_id sb) \<and> owners m ts (sb_runtime_id sb) = {}"
    and ok: "task_ok m t'"
  shows "busy_inv m' (ts[i := t'])"
proof -
  have same: "{k. \<exists>sb. view (m_store m') k = Some sb \<and> sb_runtime_id sb = c} \<subseteq> owners m ts c" for c
    unfolding m'(3) owners_def by blast
  have "owned_ok m' (ts[i := t'])"
    unfolding owned_ok_def
  proof (intro allI impI, elim conjE)
    fix c k assume c: "c \<noteq> []" and k: "k \<in> owners m' (ts[i := t']) c"
    note sub = owners_update [of m' ts i t' c m]
    show "apart m' c \<and> owners m' (ts[i := t']) c = {k}"
    proof (cases "c = sb_runtime_id sb")
      case True
      then have "owners m' (ts[i := t']) c \<subseteq> {sb_id sb}" using sub same [of c] new c by auto
      with k new(2) True c show ?thesis by auto
    next
      case False
      then have "owners m' (ts[i := t']) c \<subseteq> owners m ts c" using sub same [of c] new(1) by auto
      with k c keeps [of c] inv show ?thesis by (fastforce simp: busy_inv_def owned_ok_def)
    qed
  qed
  moreover have "\<forall>t \<in> set (ts[i := t']). task_ok m' t"
    using inv ok m'(2) task_ok_grow [of m _ m'] by (auto simp: busy_inv_def dest!: subsetD [OF set_update_subset_insert])
  ultimately show ?thesis using m'(1) by (simp add: busy_inv_def)
qed

section \<open>Every step keeps the owners apart\<close>

lemma task_ok_simps [simp]:
  "task_ok m (RefreshList out)" "task_ok m (RefreshGauge n out)" "task_ok m (StopCall i)"
  "task_ok m (DeleteCall i)" "task_ok m (DeleteRow i)" "task_ok m (DeleteLogs i)"
  "task_ok m (ExecCall i xopts now)" "task_ok m (LogsCall i lopts)" "task_ok m (LogsRun i lopts)"
  "task_ok m (Finished out)"
  by (simp_all add: task_ok_def)

lemma refresh_step_inv:
  assumes inv: "busy_inv m ts" and t: "t = RefreshList out \<or> t = RefreshGauge n out"
    and step: "refresh_step st t m = (t', m')"
  shows "busy_inv m' (ts[i := t'])"
proof -
  have m: "stays m ts m" "sinv (m_store m)" using inv by (auto simp: busy_inv_def stays_refl mgr_inv_def)
  obtain r s' where l: "st_list st (m_store m) = (r, s')" by fastforce
  have s': "stays m ts (m\<lparr> m_store := s' \<rparr>)"
    using list_all [OF m(2) l] by (intro stays_store_only [OF m(1)] store_only_intro) auto
  have "stays m ts m' \<and> task_ok m t' \<and> held t' = None"
    using t step l s' stays_cong [OF m(1), of m'] by (cases r) auto
  then show ?thesis using busy_quiet [OF inv] by blast
qed

text \<open>A lookup, by whichever request.\<close>

lemma get_step:
  assumes "busy_inv m ts" and "get_sandbox st i m = (res, m1)"
  shows "stays m ts m1"
    and "res = Inr sb \<Longrightarrow> maps_ok sb \<and> sb_state sb \<in> {state_running, state_stopped, state_error}
      \<and> sb_id sb = i \<and> i \<in> owners m ts (sb_runtime_id sb)"
proof -
  have m: "stays m ts m" "sinv (m_store m)" "mgr_inv m"
    using assms(1) by (auto simp: busy_inv_def stays_refl mgr_inv_def)
  note gf = get_facts [OF m(2) assms(2)]
  then show "stays m ts m1" using stays_store_only [OF m(1)] by blast
  assume "res = Inr sb"
  then have row: "view (m_store m) i = Some sb" using gf by simp
  then show "maps_ok sb \<and> sb_state sb \<in> {state_running, state_stopped, state_error}
      \<and> sb_id sb = i \<and> i \<in> owners m ts (sb_runtime_id sb)"
    using view_id [OF m(2) row] row_owner m(3) by (auto simp: mgr_inv_def rows_apart_def)
qed

text \<open>Writing the row of a sandbox that the request holds.\<close>

lemma put_step:
  assumes inv: "busy_inv m ts" and t: "t \<in> set ts" "held t = Some sb"
    and put: "st_put st sb (m_store m) = (res, s')"
  shows "stays m ts (m\<lparr> m_store := s' \<rparr>)"
proof -
  have m: "mgr_inv m" "sinv (m_store m)" "owned_ok m ts" using inv by (auto simp: busy_inv_def mgr_inv_def)
  have sb: "maps_ok sb" "sb_state sb \<in> {state_running, state_stopped, state_error}"
    using inv t by (auto simp: busy_inv_def task_ok_def)
  show ?thesis
  proof (cases res)
    case None
    from put_ok [OF m(2) sb(1)] put None obtain stored where s': "sinv s'" "same_sandbox stored sb"
      "view s' = (view (m_store m))(sb_id sb \<mapsto> stored)" by blast
    then have st: "sb_state stored = sb_state sb" "sb_runtime_id stored = sb_runtime_id sb"
      by (simp_all add: same_sandbox_def)
    have own: "sb_id sb \<in> owners m ts (sb_runtime_id sb)" by (rule held_owner [OF t])
    have "row_apart m (sb_id sb) stored"
    proof (cases "sb_runtime_id sb = []")
      case False
      then have one: "apart m (sb_runtime_id sb)" "owners m ts (sb_runtime_id sb) = {sb_id sb}"
        using m(3) own unfolding owned_ok_def by blast+
      then show ?thesis using row_owner [of m _ _ ts] by (fastforce simp: row_apart_def apart_def st)
    qed (simp add: row_apart_def st)
    then have "mgr_inv (m\<lparr> m_store := s' \<rparr>)" using inv_put_row [OF m(1) s'(1,3)] sb(2) st(1) by simp
    then show ?thesis using s'(3) own st(2) row_owner [of m _ _ ts] by (auto simp: stays_def)
  next
    case (Some e)
    then have "sinv s'" "view s' = view (m_store m)" using put_err [OF m(2)] put by blast+
    then show ?thesis by (intro stays_store_only [OF stays_refl [OF m(1)]] store_only_intro)
  qed
qed

lemma stop_step_inv:
  assumes inv: "busy_inv m ts" and t: "t \<in> set ts" "t \<in> {StopCall k, StopContainer sb, StopPut sb}"
    and step: "stop_step rt st t m = (t', m')"
  shows "busy_inv m' (ts[i := t'])"
proof -
  have m: "mgr_inv m" "stays m ts m" using inv by (auto simp: busy_inv_def stays_refl)
  from t(2) consider "t = StopCall k" | "t = StopContainer sb" | "t = StopPut sb" by auto
  then show ?thesis
  proof cases
    case 1
    obtain res m1 where g: "get_sandbox st k m = (res, m1)" by fastforce
    note gs = get_step [OF inv g]
    show ?thesis
    proof (cases res)
      case (Inr sb')
      then show ?thesis using step 1 g gs(1) gs(2) [of sb'] busy_keep [OF inv gs(1), of t' i]
        by (auto simp: task_ok_def)
    qed (use step 1 g busy_quiet [OF inv gs(1)] in auto)
  next
    case 2
    obtain e r' where r': "rt_stop rt (sb_runtime_id sb) (m_rt m) = (e, r')" by fastforce
    have "stays m ts (m\<lparr> m_rt := r' \<rparr>)"
      using stop_keeps [OF inv_sinv(2) [OF m(1)] r'] by (intro stays_rt [OF m(2)]) auto
    moreover have "task_ok m t" using inv t(1) by (simp add: busy_inv_def)
    moreover have "sb_id sb \<in> owners m ts (sb_runtime_id sb)" using held_owner [OF t(1)] 2 by simp
    ultimately show ?thesis using step 2 r' busy_keep [OF inv, of m' t' i]
      by (cases e) (auto simp: task_ok_def)
  next
    case 3
    obtain e s' where s': "st_put st sb (m_store m) = (e, s')" by fastforce
    have "stays m ts (m\<lparr> m_store := s' \<rparr>)" using put_step [OF inv t(1) _ s'] 3 by simp
    then show ?thesis using step 3 s' busy_keep [OF inv, of m' t' i] by (cases e) auto
  qed
qed

lemma stays_drop_row:
  assumes "stays m ts m1" and "sinv s'" and "view s' = (view (m_store m1))(k := None)"
  shows "stays m ts (m1\<lparr> m_store := s' \<rparr>)"
  using assms inv_drop_row [of m1 s' k] by (auto simp: stays_def)

lemma delete_step_inv:
  assumes inv: "busy_inv m ts" and t: "t \<in> set ts" "t \<in> {DeleteCall k, DeleteContainer k sb, DeleteRow k, DeleteLogs k}"
    and step: "delete_step rt st t m = (t', m')"
  shows "busy_inv m' (ts[i := t'])"
proof -
  have m: "mgr_inv m" "stays m ts m" "sinv (m_store m)" using inv by (auto simp: busy_inv_def stays_refl mgr_inv_def)
  from t(2) consider "t = DeleteCall k" | "t = DeleteContainer k sb" | "t = DeleteRow k" | "t = DeleteLogs k" by auto
  then show ?thesis
  proof cases
    case 1
    obtain res m1 where g: "get_sandbox st k m = (res, m1)" by fastforce
    note gs = get_step [OF inv g]
    show ?thesis
    proof (cases res)
      case (Inr sb')
      then show ?thesis using step 1 g gs(1) gs(2) [of sb'] busy_keep [OF inv gs(1), of t' i]
        by (auto simp: task_ok_def)
    qed (use step 1 g busy_quiet [OF inv gs(1)] in auto)
  next
    case 2
    let ?r = "snd (rt_remove rt (sb_runtime_id sb) (m_rt m))"
    have "sb_runtime_id sb \<noteq> [] \<Longrightarrow> sb_runtime_id sb \<in> issued (m_rt m)"
      using held_owner [OF t(1)] 2 inv owned_apart [of m ts "sb_id sb" "sb_runtime_id sb"]
      by (auto simp: busy_inv_def apart_def)
    then have "sb_runtime_id sb \<noteq> [] \<Longrightarrow> rinv ?r \<and> issued ?r = issued (m_rt m)"
      using remove [OF inv_sinv(2) [OF m(1)]] by (cases "rt_remove rt (sb_runtime_id sb) (m_rt m)") auto
    then have "stays m ts m'" using step 2 m(2) stays_rt [OF m(2), of ?r] by (auto split: if_splits)
    then show ?thesis using step 2 busy_quiet [OF inv, of m' t' i] by auto
  next
    case 3
    obtain e s' where s': "st_delete st k (m_store m) = (e, s')" by fastforce
    have "stays m ts (m\<lparr> m_store := s' \<rparr>)"
    proof (cases e)
      case None
      from delete_ok [OF m(3) s' [unfolded None]] show ?thesis by (intro stays_drop_row [OF m(2)]) auto
    next
      case (Some x)
      from delete_err [OF m(3) s' [unfolded Some]] show ?thesis
        by (intro stays_store_only [OF m(2)] store_only_intro) auto
    qed
    then show ?thesis using step 3 s' busy_quiet [OF inv, of m' t' i] by (cases e) auto
  next
    case 4
    have "stays m ts (drop_log_buffer k m)" by (rule stays_cong [OF m(2)]) (simp_all add: drop_log_buffer_def)
    then show ?thesis using step 4 busy_quiet [OF inv, of m' t' i] by auto
  qed
qed

lemma log_buffer_frame: "log_buffer_for i m = (b, m') \<Longrightarrow> m' = m\<lparr> m_logs := m_logs m' \<rparr>"
  by (auto simp: log_buffer_for_def Let_def split: if_splits option.splits)

lemma exec_found_frame:
  assumes "exec_found rt i sb opts now m = (out, m')"
  shows "m' = m\<lparr> m_rt := m_rt m', m_logs := m_logs m' \<rparr>"
    and "m_rt m' = m_rt m \<or> (\<exists>c x ch res. rt_exec rt c x (m_rt m) = (ch, res, m_rt m'))"
proof -
  obtain b m2 where b: "log_buffer_for i m = (b, m2)" by fastforce
  then obtain l where m2: "m2 = m\<lparr> m_logs := l \<rparr>" using log_buffer_frame by blast
  obtain ch res r' where x: "rt_exec rt (sb_runtime_id sb) (exec_spec_of opts) (m_rt m2) = (ch, res, r')"
    by (metis prod.exhaust)
  have "sb_state sb = state_running \<Longrightarrow> m' = m\<lparr> m_rt := r', m_logs := m_logs m' \<rparr>"
    using assms b x by (cases b; cases res) (auto simp: exec_found_def Let_def set_log_buffer_def m2)
  moreover have "sb_state sb \<noteq> state_running \<Longrightarrow> m' = m" using assms by (simp add: exec_found_def)
  moreover have "m_rt (m\<lparr> m_rt := r', m_logs := l' \<rparr>) = r'" for l' by simp
  ultimately show "m' = m\<lparr> m_rt := m_rt m', m_logs := m_logs m' \<rparr>"
    and "m_rt m' = m_rt m \<or> (\<exists>c x ch res. rt_exec rt c x (m_rt m) = (ch, res, m_rt m'))"
    using x m2 by (cases "sb_state sb = state_running"; metis manager.surjective manager.update_convs(1,10) manager.select_convs(1,2))+
qed

lemma logs_found_frame: "logs_found i opts m = (res, m') \<Longrightarrow> m' = m\<lparr> m_logs := m_logs m' \<rparr>"
proof -
  assume e: "logs_found i opts m = (res, m')"
  obtain b m2 where b: "log_buffer_for i m = (b, m2)" by fastforce
  then obtain l where m2: "m2 = m\<lparr> m_logs := l \<rparr>" using log_buffer_frame by blast
  show ?thesis using e b by (cases b) (auto simp: logs_found_def Let_def set_log_buffer_def m2 split: prod.splits)
qed

lemma read_step_inv:
  assumes inv: "busy_inv m ts" and t: "t \<in> set ts" "t \<in> {ExecCall k xopts now, ExecRun k sb xopts now, LogsCall k lopts, LogsRun k lopts}"
    and step: "read_step rt st t m = (t', m')"
  shows "busy_inv m' (ts[i := t'])"
proof -
  have m: "mgr_inv m" "stays m ts m" using inv by (auto simp: busy_inv_def stays_refl)
  from t(2) consider "t = ExecCall k xopts now" | "t = ExecRun k sb xopts now" | "t = LogsCall k lopts" | "t = LogsRun k lopts" by auto
  then show ?thesis
  proof cases
    case 1
    obtain res m1 where g: "get_sandbox st k m = (res, m1)" by fastforce
    note gs = get_step [OF inv g]
    show ?thesis
    proof (cases res)
      case (Inr sb')
      then show ?thesis using step 1 g gs(1) gs(2) [of sb'] busy_keep [OF inv gs(1), of t' i]
        by (auto simp: task_ok_def)
    qed (use step 1 g busy_quiet [OF inv gs(1)] in auto)
  next
    case 2
    obtain ch res m1 where e: "exec_found rt k sb xopts now m = ((ch, res), m1)" by (metis prod.exhaust)
    note f = exec_found_frame [OF e]
    let ?r = "m_rt m1"
    have "rinv ?r \<and> issued ?r = issued (m_rt m)"
      using f(2) inv_sinv(2) [OF m(1)] exec_keeps [OF inv_sinv(2) [OF m(1)]] by (elim disjE exE) (simp, blast)
    then have "stays m ts (m\<lparr> m_rt := ?r \<rparr>)" by (intro stays_rt [OF m(2)]) auto
    then have "stays m ts m1" by (rule stays_cong) (subst f(1), simp)+
    then show ?thesis using step 2 e busy_quiet [OF inv, of m' t' i] by auto
  next
    case 3
    obtain res m1 where g: "get_sandbox st k m = (res, m1)" by fastforce
    note gs = get_step [OF inv g]
    show ?thesis using step 3 g busy_quiet [OF inv gs(1), of t' i] by (cases res) auto
  next
    case 4
    obtain res m1 where e: "logs_found k lopts m = (res, m1)" by fastforce
    have "stays m ts m1" by (rule stays_cong [OF m(2)]) (subst logs_found_frame [OF e], simp)+
    then show ?thesis using step 4 e busy_quiet [OF inv, of m' t' i] by auto
  qed
qed

text \<open>The claim from a snapshot, as a claim from the current pools.\<close>

lemma claim_from_facts:
  assumes inv: "mgr_inv m" and refs: "\<forall>i \<in> snd ` set pools. i < length (m_heap m)"
    and cl: "claim_from pol pools res m = (got, m1)"
  shows "case got of None \<Rightarrow> m1 = m
    | Some c \<Rightarrow> mgr_inv m1 \<and> m_rt m1 = m_rt m \<and> m_store m1 = m_store m \<and> length (m_heap m1) = length (m_heap m)
        \<and> unowned m1 c \<and> (\<exists>p \<in> set (m_heap m). c \<in> set (p_avail p))
        \<and> (\<forall>p' \<in> set (m_heap m1). \<exists>p \<in> set (m_heap m). set (p_avail p') \<subseteq> set (p_avail p))"
proof (cases got)
  case None
  with cl show ?thesis by (auto simp: claim_from_def split: option.splits if_splits prod.splits)
next
  case (Some c)
  let ?snap = "m\<lparr> m_policy := pol, m_pools := pools \<rparr>"
  from cl Some obtain i p' where i: "map_of pools (rs_image res) = Some i"
    and get: "pool_get (m_heap m ! i) = (Some c, p')" and m1: "m1 = m\<lparr> m_heap := (m_heap m)[i := p'] \<rparr>"
    by (auto simp: claim_from_def split: option.splits if_splits prod.splits)
  have i': "i < length (m_heap m)" using refs i by (force dest: map_of_SomeD)
  have "try_claim res ?snap = (Some c, ?snap\<lparr> m_heap := (m_heap m)[i := p'] \<rparr>)"
    using cl Some by (auto simp: claim_from_def try_claim_def i get split: if_splits)
  moreover have "mgr_inv ?snap" using inv_install [OF inv, of pools "[]" pol] refs by simp
  ultimately have "unowned (?snap\<lparr> m_heap := (m_heap m)[i := p'] \<rparr>) c" using try_claim_facts by fastforce
  then have un: "unowned m1 c" by (simp add: unowned_def m1)
  obtain ids where ids: "p_avail (m_heap m ! i) = ids @ [c]" "p_avail p' = ids"
    using get by (auto simp: pool_get_Some)
  have "pool_moves (m_heap m ! i) (m_rt m) p' (m_rt m)"
    using inv_ready [OF inv i'] get by (auto simp: pool_moves_def pool_ready_def pool_get_Some)
  from inv_put_pool [OF inv i' this] have "mgr_inv m1" by (simp add: put_pool_def m1)
  moreover have "\<exists>p \<in> set (m_heap m). c \<in> set (p_avail p)" using nth_mem [OF i'] ids by force
  moreover have "\<exists>p \<in> set (m_heap m). set (p_avail q) \<subseteq> set (p_avail p)" if "q \<in> set (m_heap m1)" for q
  proof -
    have "q = p' \<or> q \<in> set (m_heap m)" using that set_update_subset_insert [of "m_heap m" i p'] by (auto simp: m1)
    moreover have "set (p_avail p') \<subseteq> set (p_avail (m_heap m ! i))" using ids by auto
    ultimately show ?thesis using nth_mem [OF i'] by blast
  qed
  ultimately show ?thesis using Some un by (simp add: m1)
qed

lemma create_step_inv:
  assumes inv: "busy_inv m ts" and t: "t \<in> set ts"
    "t \<in> {CreateCall u now opts, CreateClaim pol pools res u now opts, CreateLaunch res u now opts,
          CreateFailed sb opts e, CreatePut warm sb opts}"
    and step: "create_step rt st t m = (t', m')"
  shows "busy_inv m' (ts[i := t'])"
proof -
  have m: "mgr_inv m" "stays m ts m" "owned_ok m ts" using inv by (auto simp: busy_inv_def stays_refl)
  have ok: "task_ok m t" using inv t(1) by (simp add: busy_inv_def)
  from t(2) consider "t = CreateCall u now opts" | "t = CreateClaim pol pools res u now opts"
    | "t = CreateLaunch res u now opts" | "t = CreateFailed sb opts e" | "t = CreatePut warm sb opts" by auto
  then show ?thesis
  proof cases
    case 1
    show ?thesis
    proof (cases "resolve (m_policy m) (request_of opts)")
      case (Inl x)
      have "stays m ts (record_created img prof oc m)" for img prof oc
        by (rule stays_cong [OF m(2)]) (simp_all add: record_created_def)
      then show ?thesis using step 1 Inl busy_quiet [OF inv, of m' t' i] by auto
    next
      case (Inr res')
      have "maps_ok (new_sandbox res' u now)" using ok 1 new_sandbox_maps_ok [OF Inr] by (simp add: task_ok_def)
      moreover have "\<forall>i \<in> snd ` set (m_pools m). i < length (m_heap m)" using m(1) by (simp add: mgr_inv_def refs_ok_def)
      ultimately show ?thesis using step 1 Inr m(2) busy_quiet [OF inv, of m' t' i] by (auto simp: task_ok_def)
    qed
  next
    case 2
    have maps: "maps_ok (new_sandbox res u now)" "\<forall>i \<in> snd ` set pools. i < length (m_heap m)"
      using ok 2 by (simp_all add: task_ok_def)
    obtain got m1 where cl: "claim_from pol pools res m = (got, m1)" by fastforce
    note f = claim_from_facts [OF m(1) maps(2) cl]
    show ?thesis
    proof (cases got)
      case None
      then show ?thesis using step 2 cl f m(2) maps busy_quiet [OF inv, of m' t' i] by (auto simp: task_ok_def)
    next
      case (Some c)
      then have g: "mgr_inv m1" "m_rt m1 = m_rt m" "m_store m1 = m_store m" "length (m_heap m1) = length (m_heap m)"
        "unowned m1 c" "\<exists>p \<in> set (m_heap m). c \<in> set (p_avail p)"
        "\<forall>p' \<in> set (m_heap m1). \<exists>p \<in> set (m_heap m). set (p_avail p') \<subseteq> set (p_avail p)"
        using f by simp_all
      let ?sb = "(new_sandbox res u now)\<lparr> sb_runtime_id := c, sb_state := state_running \<rparr>"
      have t': "t' = CreatePut True ?sb opts" "m' = m1" using step 2 cl Some by simp_all
      have none: "c \<noteq> [] \<Longrightarrow> owners m ts c = {}" using m(3) g(6) by (auto simp: owned_ok_def apart_def)
      have keeps: "apart m1 d" if "apart m d" for d using that g(2,7) unfolding apart_def by fastforce
      show ?thesis unfolding t'
        by (rule busy_fresh [OF inv g(1,4), where sb = ?sb])
          (use g(3,5) none keeps maps in \<open>auto simp: task_ok_def apart_def unowned_def\<close>)
    qed
  next
    case 3
    have maps: "maps_ok (new_sandbox res u now)" using ok 3 by (simp add: task_ok_def)
    obtain cres r' where rc: "rt_create rt (runtime_spec res u) (m_rt m) = (cres, r')" by fastforce
    show ?thesis
    proof (cases cres)
      case (Inl x)
      from create_err [OF inv_sinv(2) [OF m(1)] named_runtime_spec rc [unfolded Inl]]
      have "stays m ts (m\<lparr> m_rt := r' \<rparr>)" by (intro stays_rt [OF m(2)]) auto
      moreover have "t' = CreateFailed ((new_sandbox res u now)\<lparr> sb_state := state_error \<rparr>) opts x" "m' = m\<lparr> m_rt := r' \<rparr>"
        using step 3 rc Inl by simp_all
      ultimately show ?thesis using maps busy_keep [OF inv, of m' t' i] by (auto simp: task_ok_def)
    next
      case (Inr h)
      from create_ok [OF inv_sinv(2) [OF m(1)] named_runtime_spec rc [unfolded Inr]]
      have h: "rinv r'" "h_id h \<notin> issued (m_rt m)" "h_id h \<in> issued r'" "issued (m_rt m) \<subseteq> issued r'" by auto
      let ?sb = "(new_sandbox res u now)\<lparr> sb_runtime_id := h_id h, sb_state := state_running \<rparr>"
      have t': "t' = CreatePut False ?sb opts" "m' = m\<lparr> m_rt := r' \<rparr>" using step 3 rc Inr by simp_all
      have "mgr_inv m'" unfolding t'(2) by (rule inv_rt [OF m(1) h(1,4)])
      moreover have "h_id h \<noteq> [] \<Longrightarrow> owners m ts (h_id h) = {}"
        using m(3) h(2) by (auto simp: owned_ok_def apart_def)
      moreover have "\<forall>p \<in> set (m_heap m). h_id h \<notin> set (p_avail p)"
        using inv_ready [OF m(1)] h(2) unfolding all_set_conv_all_nth pool_ready_def by blast
      ultimately show ?thesis unfolding t'(1)
        by (intro busy_fresh [OF inv, where sb = ?sb])
          (use maps h(3,4) in \<open>auto simp: t'(2) task_ok_def apart_def\<close>)
    qed
  next
    case 4
    obtain x s' where s': "st_put st sb (m_store m) = (x, s')" by fastforce
    have "stays m ts (m\<lparr> m_store := s' \<rparr>)" using put_step [OF inv t(1) _ s'] 4 by simp
    then have "stays m ts m'" by (rule stays_cong) (use step 4 s' in \<open>auto simp: record_created_def\<close>)
    then show ?thesis using step 4 busy_quiet [OF inv, of m' t' i] by auto
  next
    case 5
    obtain x s' where s': "st_put st sb (m_store m) = (x, s')" by fastforce
    have w: "stays m ts (m\<lparr> m_store := s' \<rparr>)" using put_step [OF inv t(1) _ s'] 5 by simp
    have "stays m ts m'" by (rule stays_cong [OF w]) (use step 5 s' in \<open>cases x; auto simp: record_created_def\<close>)+
    then show ?thesis using step 5 s' busy_quiet [OF inv, of m' t' i] by (cases x) auto
  qed
qed

lemma task_step_inv:
  assumes "busy_inv m ts" and "t \<in> set ts" and "task_step rt st t m = (t', m')"
  shows "busy_inv m' (ts[i := t'])"
proof -
  note inv = assms(1) and t = assms(2) and step = assms(3)
  have "stays m ts m" using inv by (simp add: busy_inv_def stays_refl)
  then have "busy_inv m (ts[i := Finished out])" for out by (rule busy_quiet [OF inv]) simp_all
  then show ?thesis
    by (cases t)
      (insert step, auto simp: create_step_inv [OF inv t] refresh_step_inv [OF inv, where t = t] stop_step_inv [OF inv t]
        delete_step_inv [OF inv t] read_step_inv [OF inv t] del: create_step.simps refresh_step.simps stop_step.simps
        delete_step.simps read_step.simps)
qed

lemma background_step_inv:
  assumes inv: "busy_inv m ts" and op: "is_background op"
  shows "busy_inv (mgr_step rt st op m) ts"
proof -
  let ?m = "mgr_step rt st op m"
  have f: "m_store ?m = m_store m" "length (m_heap m) \<le> length (m_heap ?m)"
    using rows_frame_background [OF op, of m rt st] by (simp_all add: rows_frame_def)
  then have own: "owners ?m ts c = owners m ts c" for c by (simp add: owners_def)
  have m: "mgr_inv m" using inv by (simp add: busy_inv_def)
  have "owned_ok ?m ts"
    using inv background_apart [OF m op] unfolding busy_inv_def owned_ok_def own by blast
  moreover have "\<forall>t \<in> set ts. task_ok ?m t" using inv f(2) task_ok_grow by (auto simp: busy_inv_def)
  ultimately show ?thesis using background_inv [OF m op] by (simp add: busy_inv_def)
qed

lemma arrive_inv:
  assumes inv: "busy_inv m ts" and t: "is_call t" "event_ok (Arrive t)"
  shows "busy_inv m (ts @ [t])"
proof -
  have "held t = None" "task_ok m t" using t by (cases t; simp add: task_ok_def)+
  moreover from this(1) have "owners m (ts @ [t]) c = owners m ts c" for c by (simp add: owners_def)
  ultimately show ?thesis using inv by (auto simp: busy_inv_def owned_ok_def)
qed

lemma busy_step_inv:
  assumes "busy_inv (bs_mgr y) (bs_tasks y)" and "event_ok ev"
  shows "busy_inv (bs_mgr (busy_step rt st ev y)) (bs_tasks (busy_step rt st ev y))"
proof (cases ev)
  case (Run i)
  obtain t' m' where "task_step rt st (bs_tasks y ! i) (bs_mgr y) = (t', m')" by fastforce
  with Run assms(1) task_step_inv [OF assms(1) nth_mem] show ?thesis by auto
qed (use assms arrive_inv background_step_inv in auto)

lemma busy_run_inv:
  "busy_inv (bs_mgr y) (bs_tasks y) \<Longrightarrow> \<forall>ev \<in> set evs. event_ok ev \<Longrightarrow>
   busy_inv (bs_mgr (busy_run rt st evs y)) (bs_tasks (busy_run rt st evs y))"
  unfolding busy_run_def by (induction evs arbitrary: y) (simp_all add: busy_step_inv del: busy_step.simps)

lemma busy_reachable_inv:
  assumes "busy_reachable rt st r s y" and "rinv r" and "sinv s" and "view s = Map.empty"
  shows "busy_inv (bs_mgr y) (bs_tasks y)"
proof -
  obtain pol lb rec evs m0 where new: "new_manager (Some r) (Some s) pol lb rec = Inr m0"
    and evs: "\<forall>ev \<in> set evs. event_ok ev" and y: "y = busy_run rt st evs \<lparr> bs_mgr = m0, bs_tasks = [] \<rparr>"
    using assms(1) by (auto simp: busy_reachable_def)
  have "m_store m0 = s" using new by (auto simp: new_manager_def Let_def)
  then have "busy_inv m0 []"
    using new_manager_inv [OF new assms(2-4)] assms(4) by (auto simp: busy_inv_def owned_ok_def owners_def)
  then show ?thesis unfolding y by (intro busy_run_inv) (simp_all add: evs)
qed

section \<open>A row that is gone\<close>

lemma gone_get:
  fixes m :: "('r, 's) manager"
  assumes "sinv (m_store m)" and "get_sandbox st k m = (res, m1)" and "view (m_store m) i = None"
  shows "view (m_store m1) i = None" and "res = Inr sb \<Longrightarrow> sb_id sb \<noteq> i"
  using get_facts [OF assms(1,2)] assms(3) view_id [OF assms(1), of k sb] by (auto simp: store_only_same)

lemma gone_step:
  assumes inv: "busy_inv m ts" and t: "t \<in> set ts" and gone: "view (m_store m) i = None" "\<not> writes i t"
    and step: "task_step rt st t m = (t', m')"
  shows "view (m_store m') i = None \<and> \<not> writes i t'"
proof -
  have s: "sinv (m_store m)" using inv by (simp add: busy_inv_def mgr_inv_def)
  have ok: "maps_ok sb" if "held t = Some sb" for sb using inv t that by (auto simp: busy_inv_def task_ok_def)
  have put: "view s' i = None" if "st_put st sb (m_store m) = (r, s')" "held t = Some sb" "sb_id sb \<noteq> i" for sb r s'
    using put_view_other [OF s ok [OF that(2)] that(1), of i] that(3) gone(1) by simp
  have del: "view s' i = None" if "st_delete st k (m_store m) = (r, s')" for k r s'
    using delete_ok [OF s, of k s'] delete_err [OF s, of k _ s'] that gone(1) by (cases r) auto
  have lst: "view s' i = None" if "st_list st (m_store m) = (r, s')" for r s'
    using list_all [OF s that] gone(1) by simp
  have get: "view (m_store m1) i = None" "res = Inr sb \<Longrightarrow> sb_id sb \<noteq> i"
    if "get_sandbox st k m = (res, m1)" for k res m1 sb using gone_get [OF s that gone(1)] by simp_all
  have claim: "m_store m1 = m_store m" if "claim_from pol pools res m = (got, m1)" for pol pools res got m1
    using that by (auto simp: claim_from_def split: option.splits if_splits prod.splits)
  have found: "m_store m1 = m_store m" if "exec_found rt k sb xo now m = (out, m1)" for k sb xo now out m1
    by (subst exec_found_frame(1) [OF that]) simp
  have found': "m_store m1 = m_store m" if "logs_found k lo m = (out, m1)" for k lo out m1
    by (subst logs_found_frame [OF that]) simp
  show ?thesis
  proof (cases t)
    case (CreatePut warm sb opts)
    obtain r s' where "st_put st sb (m_store m) = (r, s')" by fastforce
    then show ?thesis using put [of sb r s'] step gone(2) CreatePut by (cases r) (auto simp: record_created_def)
  next
    case (CreateFailed sb opts e)
    obtain r s' where "st_put st sb (m_store m) = (r, s')" by fastforce
    then show ?thesis using put [of sb r s'] step gone(2) CreateFailed by (auto simp: record_created_def)
  next
    case (StopPut sb)
    obtain r s' where "st_put st sb (m_store m) = (r, s')" by fastforce
    then show ?thesis using put [of sb r s'] step gone(2) StopPut by (cases r) auto
  next
    case (DeleteRow k)
    obtain r s' where "st_delete st k (m_store m) = (r, s')" by fastforce
    then show ?thesis using del [of k r s'] step gone(2) DeleteRow by (cases r) auto
  next
    case (RefreshList out)
    obtain r s' where "st_list st (m_store m) = (r, s')" by fastforce
    then show ?thesis using lst [of r s'] step gone(2) RefreshList by (cases r) auto
  qed (use step gone get claim found found' in
      \<open>auto simp: record_created_def drop_log_buffer_def split: prod.splits sum.splits option.splits if_splits\<close>)
qed

definition gone :: "string \<Rightarrow> ('r, 's) busy \<Rightarrow> bool" where
  "gone i y \<longleftrightarrow> view (m_store (bs_mgr y)) i = None \<and> (\<forall>t \<in> set (bs_tasks y). \<not> writes i t)"

lemma gone_busy_step:
  assumes inv: "busy_inv (bs_mgr y) (bs_tasks y)" and gone: "gone i y" and ev: "\<And>t. ev = Arrive t \<Longrightarrow> \<not> writes i t"
  shows "gone i (busy_step rt st ev y)"
proof (cases ev)
  case (Run k)
  obtain t' m' where ts: "task_step rt st (bs_tasks y ! k) (bs_mgr y) = (t', m')" by fastforce
  show ?thesis
  proof (cases "k < length (bs_tasks y)")
    case True
    with gone_step [OF inv nth_mem _ _ ts] gone have "view (m_store m') i = None \<and> \<not> writes i t'"
      by (simp add: gone_def)
    with True ts gone Run show ?thesis
      by (auto simp: gone_def dest!: subsetD [OF set_update_subset_insert])
  qed (use Run gone in simp)
next
  case (Background op)
  then show ?thesis using gone rows_frame_background [of op "bs_mgr y" rt st] by (simp add: gone_def rows_frame_def)
qed (use gone ev in \<open>auto simp: gone_def\<close>)

lemma gone_run:
  "busy_inv (bs_mgr y) (bs_tasks y) \<Longrightarrow> gone i y \<Longrightarrow>
   \<forall>ev \<in> set evs. event_ok ev \<and> (\<forall>t. ev = Arrive t \<longrightarrow> \<not> writes i t) \<Longrightarrow> gone i (busy_run rt st evs y)"
  unfolding busy_run_def
proof (induction evs arbitrary: y)
  case (Cons ev evs)
  then show ?case using busy_step_inv [of y ev] gone_busy_step [of y i ev] by (simp del: busy_step.simps)
qed simp

lemma row_deleted:
  assumes inv: "busy_inv m ts" and step: "task_step rt st (DeleteRow i) m = (DeleteLogs i, m')"
  shows "view (m_store m') i = None"
proof -
  obtain r s' where "st_delete st i (m_store m) = (r, s')" by fastforce
  then show ?thesis
    using step inv delete_ok [of "m_store m" i s'] by (cases r) (auto simp: busy_inv_def mgr_inv_def)
qed

end

section \<open>Properties\<close>

text \<open>A stored sandbox, or one that a request under way holds, with its identifier.\<close>

definition has_sandbox ::
    "('s \<Rightarrow> string \<Rightarrow> sandbox option) \<Rightarrow> ('r, 's) busy \<Rightarrow> string \<Rightarrow> sandbox \<Rightarrow> bool" where
  "has_sandbox view y k sb \<longleftrightarrow> view (m_store (bs_mgr y)) k = Some sb
     \<or> (\<exists>t \<in> set (bs_tasks y). held t = Some sb \<and> sb_id sb = k)"

text \<open>C2. No container is shared under requests that overlap. Over any backend and store that meet their
  contracts, whatever the interleaving of the steps of any number of requests and of the background
  work: the container of a stored sandbox, and that of a sandbox that a request still holds, is in no
  warm pool, and every row and every request that has this container has it for the same sandbox.\<close>

theorem overlapping_no_container_shared:
  assumes "manager_env rt live issued rinv st view sinv due"
    and "rinv r" and "sinv s" and "view s = Map.empty" and "busy_reachable rt st r s y"
    and "has_sandbox view y k sb" and "sb_runtime_id sb \<noteq> []"
  shows "(\<forall>p \<in> set (m_heap (bs_mgr y)). sb_runtime_id sb \<notin> set (p_avail p))
    \<and> (\<forall>k' sb'. has_sandbox view y k' sb' \<and> sb_runtime_id sb' = sb_runtime_id sb \<longrightarrow> k' = k)"
proof -
  have inv: "manager_env.busy_inv issued rinv view sinv (bs_mgr y) (bs_tasks y)"
    by (rule manager_env.busy_reachable_inv [OF assms(1,5,2,3,4)])
  have own: "has_sandbox view y k sb \<Longrightarrow> k \<in> manager_env.owners view (bs_mgr y) (bs_tasks y) (sb_runtime_id sb)" for k sb
    unfolding manager_env.owners_def [OF assms(1)] has_sandbox_def by auto
  from own [OF assms(6)] assms(7) inv have "manager_env.apart issued (bs_mgr y) (sb_runtime_id sb)"
    and one: "manager_env.owners view (bs_mgr y) (bs_tasks y) (sb_runtime_id sb) = {k}"
    unfolding manager_env.busy_inv_def [OF assms(1)] manager_env.owned_ok_def [OF assms(1)] by blast+
  moreover have "k' = k" if "has_sandbox view y k' sb'" "sb_runtime_id sb' = sb_runtime_id sb" for k' sb'
    using own [OF that(1)] that(2) one by simp
  ultimately show ?thesis unfolding manager_env.apart_def [OF assms(1)] by blast
qed

text \<open>C24. A deleted sandbox stays deleted: once the row of \<open>i\<close> has been removed by the \<open>Delete\<close> of a request,
  no further event, of any request or of the background, brings it back, as long as no \<open>Stop\<close> has
  looked it up before and no \<open>Create\<close> has drawn the same identifier.\<close>

theorem deleted_stays_deleted:
  assumes "manager_env rt live issued rinv st view sinv due"
    and "rinv r" and "sinv s" and "view s = Map.empty" and "busy_reachable rt st r s y"
    and "k < length (bs_tasks y)" and "bs_tasks y ! k = DeleteRow i"
    and "bs_tasks (busy_step rt st (Run k) y) ! k = DeleteLogs i"
    and "\<forall>t \<in> set (bs_tasks y). \<not> writes i t"
    and "\<forall>ev \<in> set evs. event_ok ev \<and> (\<forall>t. ev = Arrive t \<longrightarrow> \<not> writes i t)"
  shows "view (m_store (bs_mgr (busy_run rt st (Run k # evs) y))) i = None"
proof -
  have inv: "manager_env.busy_inv issued rinv view sinv (bs_mgr y) (bs_tasks y)"
    by (rule manager_env.busy_reachable_inv [OF assms(1,5,2,3,4)])
  obtain t' m' where ts: "task_step rt st (DeleteRow i) (bs_mgr y) = (t', m')" by fastforce
  let ?y = "busy_step rt st (Run k) y"
  have y: "?y = \<lparr> bs_mgr = m', bs_tasks = (bs_tasks y)[k := t'] \<rparr>" using ts assms(6,7) by simp
  with assms(6,8) have t': "t' = DeleteLogs i" by simp
  have "manager_env.gone view i ?y"
    using manager_env.row_deleted [OF assms(1) inv ts [unfolded t']] assms(9) t'
    unfolding manager_env.gone_def [OF assms(1)] y by (auto dest!: subsetD [OF set_update_subset_insert])
  moreover have "manager_env.busy_inv issued rinv view sinv (bs_mgr ?y) (bs_tasks ?y)"
    by (rule manager_env.busy_step_inv [OF assms(1) inv]) simp
  ultimately have "manager_env.gone view i (busy_run rt st evs ?y)"
    by (intro manager_env.gone_run [OF assms(1)] assms(10))
  then show ?thesis by (simp add: manager_env.gone_def [OF assms(1)] busy_run_def del: busy_step.simps)
qed

section \<open>Runs of the fake backend and the sqlite store\<close>

definition demo_busy :: "event list \<Rightarrow> (fake_runtime, sqlite) busy" where
  "demo_busy evs = busy_run fake_ops sqlite_ops evs \<lparr> bs_mgr = demo_manager, bs_tasks = [] \<rparr>"

lemma demo_busy_reachable:
  "\<forall>ev \<in> set evs. event_ok ev \<Longrightarrow> busy_reachable fake_ops sqlite_ops fake_empty sqlite_open (demo_busy evs)"
  unfolding busy_reachable_def demo_busy_def using demo_manager_new by blast

text \<open>A sandbox is created; a stop of it is looked up, and a second create reaches its row.\<close>

definition demo_overlap :: "event list" where
  "demo_overlap = Arrive (CreateCall ''u1'' 0 demo_options) # replicate 5 (Run 0)
     @ [Arrive (StopCall ''u1''), Arrive (CreateCall ''u2'' 1 demo_options), Run 2, Run 1, Run 2, Run 2]"

theorem overlapping_no_container_shared_witness:
  "\<exists>sb opts. bs_tasks (demo_busy demo_overlap) ! 2 = CreatePut False sb opts \<and> sb_runtime_id sb = fake_id 1
     \<and> (\<forall>p \<in> set (m_heap (bs_mgr (demo_busy demo_overlap))). sb_runtime_id sb \<notin> set (p_avail p))
     \<and> (\<forall>k sb'. sqlite_view (m_store (bs_mgr (demo_busy demo_overlap))) k = Some sb' \<and> sb_runtime_id sb' = sb_runtime_id sb
          \<longrightarrow> k = ''u2'')"
proof -
  let ?y = "demo_busy demo_overlap"
  have "length (bs_tasks ?y) = 3 \<and> (case bs_tasks ?y ! 2 of CreatePut w sb opts \<Rightarrow>
      \<not> w \<and> sb_runtime_id sb = fake_id 1 \<and> sb_id sb = ''u2'' | _ \<Rightarrow> False)"
    by code_simp
  then obtain sb opts where t: "bs_tasks ?y ! 2 = CreatePut False sb opts" "sb_runtime_id sb = fake_id 1"
    "sb_id sb = ''u2''" and n: "2 < length (bs_tasks ?y)"
    by (auto split: task.splits)
  have reach: "busy_reachable fake_ops sqlite_ops fake_empty sqlite_open ?y"
    by (rule demo_busy_reachable) (simp add: demo_overlap_def demo_options_def)
  have "has_sandbox sqlite_view ?y ''u2'' sb" using nth_mem [OF n] t by (force simp: has_sandbox_def)
  from overlapping_no_container_shared [OF fake_mgr.manager_env_axioms _ _ _ reach this] t show ?thesis
    by (auto simp: fake_id_def has_sandbox_def)
qed

definition demo_deleting :: "event list" where
  "demo_deleting = Arrive (CreateCall ''u1'' 0 demo_options) # replicate 5 (Run 0)
     @ [Arrive (DeleteCall ''u1''), Run 1, Run 1]"

theorem deleted_stays_deleted_witness:
  "sqlite_view (m_store (bs_mgr (busy_run fake_ops sqlite_ops
     (Run 1 # Arrive (StopCall ''u1'') # replicate 5 (Run 2)) (demo_busy demo_deleting)))) ''u1'' = None"
proof -
  let ?y = "demo_busy demo_deleting"
  have reach: "busy_reachable fake_ops sqlite_ops fake_empty sqlite_open ?y"
    by (rule demo_busy_reachable) (simp add: demo_deleting_def demo_options_def)
  have "length (bs_tasks ?y) = 2 \<and> bs_tasks ?y ! 1 = DeleteRow ''u1'' \<and> list_all (\<lambda>t. \<not> writes ''u1'' t) (bs_tasks ?y)
      \<and> bs_tasks (busy_step fake_ops sqlite_ops (Run 1) ?y) ! 1 = DeleteLogs ''u1''"
    by code_simp
  then show ?thesis
    by (intro deleted_stays_deleted [OF fake_mgr.manager_env_axioms _ _ _ reach]) (auto simp: list_all_iff)
qed

text \<open>\<open>Stop\<close> can undo a \<open>Delete\<close>. A stop that has looked up its row writes it back whatever has happened
  since: with a whole \<open>Delete\<close> of the sandbox in between, which returns without an error, the
  sandbox is listed again, as stopped, with a container that no longer exists.\<close>

definition undo_schedule :: "event list" where
  "undo_schedule = Arrive (CreateCall ''u1'' 0 demo_options) # replicate 5 (Run 0)
     @ [Arrive (StopCall ''u1''), Arrive (DeleteCall ''u1''), Run 1, Run 1]
     @ replicate 6 (Run 2) @ replicate 3 (Run 1)"

theorem stop_undoes_delete:
  "bs_tasks (demo_busy undo_schedule) ! 2 = Finished (Ended None)
 \<and> bs_tasks (demo_busy undo_schedule) ! 1 = Finished (Ended None)
 \<and> fake_live (m_rt (bs_mgr (demo_busy undo_schedule))) = {}
 \<and> (case fst (sqlite_get ''u1'' (m_store (bs_mgr (demo_busy undo_schedule)))) of
      Inr sb \<Rightarrow> sb_state sb = state_stopped \<and> sb_runtime_id sb = fake_id 0
    | Inl e \<Rightarrow> False)"
  by code_simp

text \<open>An \<open>Exec\<close> that has found its sandbox running makes a log buffer for it again after a \<open>Delete\<close> has
  dropped it; nothing drops that buffer later, since the row is gone.\<close>

definition revive_schedule :: "event list" where
  "revive_schedule = Arrive (CreateCall ''u1'' 0 demo_options) # replicate 5 (Run 0)
     @ [Arrive (ExecCall ''u1'' demo_exec 1), Arrive (DeleteCall ''u1''), Run 1] @ replicate 6 (Run 2) @ [Run 1]"

theorem exec_revives_log_buffer:
  "bs_tasks (demo_busy revive_schedule) ! 2 = Finished (Ended None)
 \<and> fst (sqlite_get ''u1'' (m_store (bs_mgr (demo_busy revive_schedule)))) = Inl ErrNotFound
 \<and> map fst (m_logs (bs_mgr (demo_busy revive_schedule))) = [''u1'']"
  by code_simp

text \<open>Two creates that count the running sandboxes in one order and set the gauge in the other.\<close>

definition stale_schedule :: "event list" where
  "stale_schedule = Arrive (CreateCall ''u1'' 0 demo_options) # replicate 5 (Run 0)
     @ [Arrive (CreateCall ''u2'' 0 demo_options)] @ replicate 6 (Run 1) @ [Run 0]"

theorem gauge_goes_stale:
  "list_all (\<lambda>t. case t of Finished (Created sb None) \<Rightarrow> True | _ \<Rightarrow> False) (bs_tasks (demo_busy stale_schedule))
 \<and> map_option mt_active (m_metrics (bs_mgr (demo_busy stale_schedule))) = Some 1
 \<and> map_option count_running (case fst (st_list sqlite_ops (m_store (bs_mgr (demo_busy stale_schedule)))) of
       Inr rows \<Rightarrow> Some rows | Inl e \<Rightarrow> None) = Some 2"
  by code_simp

end
