(* ===== verification/Proxy.thy ===== *)
theory Proxy
  imports Prelude
begin

text \<open>
  The egress proxy: \<open>internal/proxy\<close> (the decision on each CONNECT, the refusal of plain HTTP, the
  two admin paths, the counters) and \<open>cmd/kpproxy\<close> (its configuration from the environment).
  \<open>goproxy\<close> is not under \<open>src/\<close>: it calls the handlers registered here, and the host it passes
  for a CONNECT is the argument \<open>host\<close>. \<open>net.SplitHostPort\<close> is the standard library's and is
  written out.
\<close>

section \<open>Configuration\<close>

record proxy_config =
  px_listen_addr :: string
  px_allowed :: "string list"
  px_deny :: "string list"

definition split_csv :: "string \<Rightarrow> string list" where
  "split_csv s = (if s = [] then [] else filter (\<lambda>p. p \<noteq> []) (map trim_space (split_on (CHR '','') s)))"

text \<open>\<open>os.Getenv\<close> returns the empty string for an unset variable.\<close>

type_synonym environ = smap

definition getenv :: "environ \<Rightarrow> string \<Rightarrow> string" where
  "getenv env k = (case map_of env k of None \<Rightarrow> [] | Some v \<Rightarrow> v)"

definition env_or :: "environ \<Rightarrow> string \<Rightarrow> string \<Rightarrow> string" where
  "env_or env k d = (if getenv env k \<noteq> [] then getenv env k else d)"

definition config_of_env :: "environ \<Rightarrow> proxy_config" where
  "config_of_env env =
     \<lparr> px_listen_addr = '':'' @ env_or env ''KP_PROXY_PORT'' ''8080'',
       px_allowed = split_csv (getenv env ''KP_ALLOWED_HOSTS''),
       px_deny = split_csv (getenv env ''KP_DENY_HOSTS'') \<rparr>"

section \<open>Host names\<close>

definition normalize :: "string list \<Rightarrow> string list" where
  "normalize hs = filter (\<lambda>h. h \<noteq> []) (map (\<lambda>h. to_lower (trim_space h)) hs)"

definition is_allowed :: "string \<Rightarrow> string list \<Rightarrow> bool" where
  "is_allowed host allow = (if allow = [] then False else to_lower host \<in> set allow)"

definition is_denied :: "string \<Rightarrow> string list \<Rightarrow> bool" where
  "is_denied host deny = (to_lower host \<in> set deny)"

text \<open>The errors of \<open>net.SplitHostPort\<close>.\<close>

datatype addr_error =
    MissingPort | TooManyColons | MissingBracket | UnexpectedOpen | UnexpectedClose

fun index_byte :: "char \<Rightarrow> string \<Rightarrow> nat option" where
  "index_byte c [] = None"
| "index_byte c (x # xs) = (if x = c then Some 0 else map_option Suc (index_byte c xs))"

definition last_index_byte :: "char \<Rightarrow> string \<Rightarrow> nat option" where
  "last_index_byte c s = map_option (\<lambda>k. length s - 1 - k) (index_byte c (rev s))"

text \<open>The checks for stray brackets, from positions \<open>j\<close> and \<open>k\<close> on, then the port.\<close>

definition finish_split :: "string \<Rightarrow> string \<Rightarrow> nat \<Rightarrow> nat \<Rightarrow> nat \<Rightarrow> addr_error + string \<times> string" where
  "finish_split s host i j k =
     (if CHR ''['' \<in> set (drop j s) then Inl UnexpectedOpen
      else if CHR '']'' \<in> set (drop k s) then Inl UnexpectedClose
      else Inr (host, drop (Suc i) s))"

definition split_host_port :: "string \<Rightarrow> addr_error + string \<times> string" where
  "split_host_port s =
     (case last_index_byte (CHR '':'') s of
        None \<Rightarrow> Inl MissingPort
      | Some i \<Rightarrow>
          (if hd s = CHR ''['' then
             (case index_byte (CHR '']'') s of
                None \<Rightarrow> Inl MissingBracket
              | Some e \<Rightarrow>
                  (if e + 1 = length s then Inl MissingPort
                   else if e + 1 = i then finish_split s (take (e - 1) (drop 1 s)) i 1 (e + 1)
                   else if s ! (e + 1) = CHR '':'' then Inl TooManyColons
                   else Inl MissingPort))
           else
             (let host = take i s in
              if CHR '':'' \<in> set host then Inl TooManyColons else finish_split s host i 0 0)))"

section \<open>Handlers\<close>

datatype connect_action = OkConnect | RejectConnect

record proxy_metrics =
  pm_allow :: "string \<Rightarrow> nat"
  pm_deny :: "string \<times> string \<Rightarrow> nat"

text \<open>\<open>newMetrics\<close>: no counter has moved.\<close>

definition new_proxy_metrics :: proxy_metrics where
  "new_proxy_metrics = \<lparr> pm_allow = (\<lambda>_. 0), pm_deny = (\<lambda>_. 0) \<rparr>"

definition count_allow :: "string \<Rightarrow> proxy_metrics \<Rightarrow> proxy_metrics" where
  "count_allow h k = k\<lparr> pm_allow := (pm_allow k)(h := pm_allow k h + 1) \<rparr>"

definition count_deny :: "string \<Rightarrow> string \<Rightarrow> proxy_metrics \<Rightarrow> proxy_metrics" where
  "count_deny h reason k = k\<lparr> pm_deny := (pm_deny k)((h, reason) := pm_deny k (h, reason) + 1) \<rparr>"

definition handle_connect ::
    "proxy_config \<Rightarrow> string \<Rightarrow> proxy_metrics \<Rightarrow> (connect_action \<times> string) \<times> proxy_metrics" where
  "handle_connect cfg host k =
     (let allowed = normalize (px_allowed cfg); denied = normalize (px_deny cfg) in
      case split_host_port host of
        Inl e \<Rightarrow> ((RejectConnect, host), count_deny host ''parse_error'' k)
      | Inr (hostname, port) \<Rightarrow>
          (if is_denied hostname denied
           then ((RejectConnect, host), count_deny hostname ''global_deny'' k)
           else if \<not> is_allowed hostname allowed
           then ((RejectConnect, host), count_deny hostname ''not_in_allowlist'' k)
           else ((OkConnect, host), count_allow hostname k)))"

text \<open>A request that reaches the listener, and the answers: the two admin pages, a tunnel to a host,
  a rejected CONNECT, a 403 for plain HTTP, or forwarding by \<open>goproxy\<close>, which the registered
  \<open>DoFunc\<close> allows for CONNECT only.\<close>

record http_request =
  hq_method :: string
  hq_path :: string
  hq_host :: string

datatype proxy_reply = HealthPage | MetricsPage | Tunnel string | Rejected string | Forbidden

definition do_request :: "http_request \<Rightarrow> proxy_reply option" where
  "do_request q = (if hq_method q \<noteq> ''CONNECT'' then Some Forbidden else None)"

definition serve ::
    "proxy_config \<Rightarrow> http_request \<Rightarrow> proxy_metrics \<Rightarrow> proxy_reply option \<times> proxy_metrics" where
  "serve cfg q k =
     (if hq_method q = ''GET'' \<and> hq_path q = ''/_health'' then (Some HealthPage, k)
      else if hq_method q = ''GET'' \<and> hq_path q = ''/_metrics'' then (Some MetricsPage, k)
      else if hq_method q = ''CONNECT'' then
        (case handle_connect cfg (hq_host q) k of
           ((OkConnect, h), k') \<Rightarrow> (Some (Tunnel h), k')
         | ((RejectConnect, h), k') \<Rightarrow> (Some (Rejected h), k'))
      else (do_request q, k))"

section \<open>The process\<close>

text \<open>How \<open>Run\<close> ends: \<open>ListenAndServe\<close> returns, always with an error, or the context ends and
  \<open>Shutdown\<close> returns.\<close>

datatype listen_result = ServerClosed | ListenError string

datatype proxy_end = ListenReturned listen_result | ContextDone "string option"

definition proxy_run :: "proxy_end \<Rightarrow> string option" where
  "proxy_run fin =
     (case fin of
        ListenReturned ServerClosed \<Rightarrow> None
      | ListenReturned (ListenError e) \<Rightarrow> Some e
      | ContextDone e \<Rightarrow> e)"

text \<open>\<open>kpproxy\<close>: the counters after the requests it served, and its exit status.\<close>

definition kpproxy :: "environ \<Rightarrow> http_request list \<Rightarrow> proxy_end \<Rightarrow> proxy_metrics \<times> int" where
  "kpproxy env qs fin =
     (fold (\<lambda>q k. snd (serve (config_of_env env) q k)) qs new_proxy_metrics,
      if proxy_run fin = None then 0 else 1)"

section \<open>Facts\<close>

lemma index_byte_None: "index_byte c s = None \<longleftrightarrow> c \<notin> set s"
  by (induction s) auto

lemma index_byte_append: "c \<notin> set p \<Longrightarrow> index_byte c (p @ c # s) = Some (length p)"
  by (induction p) auto

lemma last_index_byte_append: "c \<notin> set p \<Longrightarrow> last_index_byte c (s @ c # p) = Some (length s)"
  using index_byte_append [of c "rev p" "rev s"] by (simp add: last_index_byte_def)

text \<open>\<open>host:port\<close> with a plain host splits into its two parts.\<close>

lemma split_plain:
  assumes "set host \<inter> {CHR '':'', CHR ''['', CHR '']''} = {}"
    and "set port \<inter> {CHR '':'', CHR ''['', CHR '']''} = {}"
  shows "split_host_port (host @ '':'' @ port) = Inr (host, port)"
proof -
  have "last_index_byte (CHR '':'') (host @ CHR '':'' # port) = Some (length host)"
    by (rule last_index_byte_append) (use assms in auto)
  moreover have "hd (host @ CHR '':'' # port) \<noteq> CHR ''[''"
    using assms by (cases host) auto
  ultimately show ?thesis
    using assms by (auto simp: split_host_port_def finish_split_def Let_def)
qed

lemma trim_space_no_space:
  "\<forall>c \<in> set h. \<not> is_space c \<Longrightarrow> trim_space h = h"
proof -
  assume *: "\<forall>c \<in> set h. \<not> is_space c"
  have "dropWhile is_space xs = xs" if "\<forall>c \<in> set xs. \<not> is_space c" for xs
    using that by (cases xs) auto
  from this [of h] this [of "rev h"] * show ?thesis by (simp add: trim_space_def)
qed

lemma normalize_lower: "h \<in> set (normalize hs) \<Longrightarrow> to_lower h = h \<and> h \<noteq> []"
  by (auto simp: normalize_def)

lemma handle_connect_decision:
  "(fst (handle_connect cfg host k) = (OkConnect, host) \<longleftrightarrow>
      (\<exists>hostname port. split_host_port host = Inr (hostname, port)
         \<and> to_lower hostname \<in> (\<lambda>h. to_lower (trim_space h)) ` set (px_allowed cfg) - {[]}
         \<and> to_lower hostname \<notin> (\<lambda>h. to_lower (trim_space h)) ` set (px_deny cfg) - {[]}))
   \<and> snd (fst (handle_connect cfg host k)) = host
   \<and> (\<exists>h. snd (handle_connect cfg host k) = count_allow h k
        \<and> fst (fst (handle_connect cfg host k)) = OkConnect
      \<or> (\<exists>reason. snd (handle_connect cfg host k) = count_deny h reason k
           \<and> fst (fst (handle_connect cfg host k)) = RejectConnect))"
proof (cases "split_host_port host")
  case (Inl e)
  then show ?thesis by (auto simp: handle_connect_def Let_def)
next
  case (Inr hp)
  obtain hostname port where hp: "hp = (hostname, port)" by (cases hp)
  have mem: "to_lower hostname \<in> set (normalize hs) \<longleftrightarrow>
      to_lower hostname \<in> (\<lambda>h. to_lower (trim_space h)) ` set hs - {[]}" for hs
    by (auto simp: normalize_def)
  have allowed: "is_allowed hostname allow \<longleftrightarrow> to_lower hostname \<in> set allow" for allow
    by (auto simp: is_allowed_def)
  have "handle_connect cfg host k =
     (if to_lower hostname \<in> set (normalize (px_deny cfg))
      then ((RejectConnect, host), count_deny hostname ''global_deny'' k)
      else if to_lower hostname \<notin> set (normalize (px_allowed cfg))
      then ((RejectConnect, host), count_deny hostname ''not_in_allowlist'' k)
      else ((OkConnect, host), count_allow hostname k))"
    by (simp add: handle_connect_def Inr hp is_denied_def allowed Let_def)
  then show ?thesis unfolding mem using Inr hp by auto
qed

section \<open>Properties\<close>


text \<open>Nothing but an admitted CONNECT leaves the proxy: a request that gets a tunnel is a
  CONNECT that \<open>handle_connect\<close> admits, to the host it names; any other method gets a local page
  or 403, and moves no counter.\<close>

theorem only_admitted_tunnels:
  "(\<forall>h k'. serve cfg q k = (Some (Tunnel h), k') \<longrightarrow>
      hq_method q = ''CONNECT'' \<and> h = hq_host q
      \<and> handle_connect cfg h k = ((OkConnect, h), k'))
   \<and> (hq_method q \<noteq> ''CONNECT'' \<longrightarrow>
        serve cfg q k \<in> {(Some HealthPage, k), (Some MetricsPage, k), (Some Forbidden, k)})"
proof -
  have "snd (fst (handle_connect cfg (hq_host q) k)) = hq_host q"
    by (auto simp: handle_connect_def Let_def split: sum.splits prod.splits)
  then show ?thesis
    by (auto simp: serve_def do_request_def split: prod.splits connect_action.splits)
qed

theorem only_admitted_tunnels_witness:
  "serve \<lparr> px_listen_addr = '':8080'', px_allowed = [''Example.com''], px_deny = [] \<rparr>
     \<lparr> hq_method = ''CONNECT'', hq_path = [], hq_host = ''example.com:443'' \<rparr> new_proxy_metrics
   = (Some (Tunnel ''example.com:443''), count_allow ''example.com'' new_proxy_metrics)
   \<and> serve (config_of_env []) \<lparr> hq_method = ''POST'', hq_path = ''/'', hq_host = ''example.com'' \<rparr> new_proxy_metrics
     = (Some Forbidden, new_proxy_metrics)"
proof -
  let ?k = new_proxy_metrics and ?env = "config_of_env []"
  let ?cfg = "\<lparr> px_listen_addr = '':8080'', px_allowed = [''Example.com''], px_deny = [] \<rparr>"
  have "split_host_port ''example.com:443'' = Inr (''example.com'', ''443'')"
    using split_plain [of "''example.com''" "''443''"] by simp
  moreover have lower: "to_lower (trim_space ''Example.com'') = ''example.com''"
    "to_lower ''example.com'' = ''example.com''" by code_simp+
  ultimately have hc: "handle_connect ?cfg ''example.com:443'' ?k = ((OkConnect, ''example.com:443''), count_allow ''example.com'' ?k)"
    using lower by (simp add: handle_connect_def normalize_def is_denied_def is_allowed_def Let_def)
  let ?post = "\<lparr> hq_method = ''POST'', hq_path = ''/'', hq_host = ''example.com'' \<rparr>"
  have "serve ?env ?post ?k \<in> {(Some HealthPage, ?k), (Some MetricsPage, ?k), (Some Forbidden, ?k)}"
    using only_admitted_tunnels [of ?env ?post ?k] by simp
  then have "serve ?env ?post ?k = (Some Forbidden, ?k)"
    by (auto simp: serve_def do_request_def)
  with hc show ?thesis by (simp add: serve_def)
qed

end
