(* ===== verification/Docker.thy ===== *)
theory Docker
  imports Strconv Runtime Proxy
begin

text \<open>
  The Docker backend \<open>internal/runtime/docker\<close>. The Docker client is not under \<open>src/\<close>: it is the
  record \<open>docker\<close> of functions over the daemon's state, and what a property needs of the daemon is
  the predicate \<open>daemon_ok\<close>. Container and network configurations are records; the platform's
  \<open>float64\<close> product in \<open>NanoCPUs\<close> and the elapsed time of an exec are fields of the client record.
\<close>

section \<open>The client\<close>

datatype docker_error = DkNotFound string | DkError string

definition dk_message :: "docker_error \<Rightarrow> string" where
  "dk_message e = (case e of DkNotFound s \<Rightarrow> s | DkError s \<Rightarrow> s)"

record container_config =
  cc_image :: string
  cc_cmd :: "string list"
  cc_user :: string
  cc_env :: "string list"
  cc_labels :: smap

record host_config =
  hf_read_only :: bool
  hf_network_mode :: string
  hf_cap_drop :: "string list"
  hf_security_opt :: "string list"
  hf_runtime :: string
  hf_tmpfs :: smap
  hf_restart :: string
  hf_nano_cpus :: int64
  hf_memory :: int64
  hf_pids :: int64

text \<open>A networking config: each network with the aliases of the endpoint.\<close>

type_synonym net_config = "(string \<times> string list) list"

text \<open>What \<open>ContainerInspect\<close> tells: the labels (unless there is no config), the status, the exit
  code, and the address on each network (unless there are no network settings).\<close>

record inspection =
  ci_labels :: "smap option"
  ci_status :: string
  ci_exit_code :: int
  ci_networks :: "smap option"

text \<open>The options of an exec.\<close>

record exec_config =
  ec_cmd :: "string list"
  ec_env :: "string list"
  ec_work_dir :: string
  ec_attach_stdout :: bool
  ec_attach_stderr :: bool
  ec_attach_stdin :: bool
  ec_tty :: bool

text \<open>What \<open>ImagePull\<close> hands out: the progress messages of the daemon, among them the failure of a pull
  that has begun, and the error that ends their reading, if one does.\<close>

record pull_stream =
  pl_messages :: string
  pl_read_err :: "docker_error option"

record 'd docker =
  dk_create :: "container_config \<Rightarrow> host_config \<Rightarrow> net_config option \<Rightarrow> string \<Rightarrow> 'd
                 \<Rightarrow> (docker_error + string) \<times> 'd"
  dk_start :: "string \<Rightarrow> 'd \<Rightarrow> docker_error option \<times> 'd"
  dk_stop :: "string \<Rightarrow> int \<Rightarrow> 'd \<Rightarrow> docker_error option \<times> 'd"
  dk_remove :: "string \<Rightarrow> bool \<Rightarrow> 'd \<Rightarrow> docker_error option \<times> 'd"
  dk_inspect :: "string \<Rightarrow> 'd \<Rightarrow> docker_error + inspection"
  dk_list :: "string \<Rightarrow> 'd \<Rightarrow> docker_error + string list"
  dk_net_create :: "string \<Rightarrow> bool \<Rightarrow> smap \<Rightarrow> 'd \<Rightarrow> docker_error option \<times> 'd"
  dk_net_remove :: "string \<Rightarrow> 'd \<Rightarrow> docker_error option \<times> 'd"
  dk_net_connect :: "string \<Rightarrow> string \<Rightarrow> 'd \<Rightarrow> docker_error option \<times> 'd"
  dk_net_list :: "string \<Rightarrow> 'd \<Rightarrow> docker_error + string list"
  dk_image_inspect :: "string \<Rightarrow> 'd \<Rightarrow> docker_error option"
  dk_image_pull :: "string \<Rightarrow> 'd \<Rightarrow> (docker_error + pull_stream) \<times> 'd"
  dk_exec_create :: "string \<Rightarrow> exec_config \<Rightarrow> 'd \<Rightarrow> (docker_error + string) \<times> 'd"
  dk_exec_attach :: "string \<Rightarrow> string option \<Rightarrow> 'd \<Rightarrow> (docker_error + entry list \<times> docker_error option) \<times> 'd"
  dk_exec_inspect :: "string \<Rightarrow> 'd \<Rightarrow> docker_error + int"
  dk_ping :: "'d \<Rightarrow> docker_error option"
  dk_nano_cpus :: "f64 \<Rightarrow> int64"
  dk_elapsed :: "'d \<Rightarrow> duration"

section \<open>Constants\<close>

definition container_name_prefix :: string where "container_name_prefix = ''kp-''"
definition proxy_name_prefix :: string where "proxy_name_prefix = ''kp-proxy-''"
definition network_name_prefix :: string where "network_name_prefix = ''kp-net-''"
definition dl_sandbox_id :: string where "dl_sandbox_id = ''kotakpasir.sandbox-id''"
definition dl_role :: string where "dl_role = ''kotakpasir.role''"
definition dl_managed :: string where "dl_managed = ''kotakpasir.managed''"
definition role_proxy :: string where "role_proxy = ''proxy''"
definition role_network :: string where "role_network = ''network''"
definition default_stop_timeout :: int where "default_stop_timeout = 5"
definition default_proxy_image :: string where "default_proxy_image = ''kotakpasir/proxy:dev''"
definition default_keep_alive :: "string list" where
  "default_keep_alive = [''tail'', ''-f'', ''/dev/null'']"
definition default_deny_hosts :: "string list" where
  "default_deny_hosts =
     [''169.254.169.254'', ''metadata.google.internal'', ''metadata.aws.internal'']"

section \<open>Container configuration\<close>

definition network_or_default :: "string \<Rightarrow> string" where
  "network_or_default s = (if s = [] then ''none'' else s)"

definition flatten_env :: "smap \<Rightarrow> string list" where
  "flatten_env env = map (\<lambda>(k, v). k @ ''='' @ v) env"

definition merge_map :: "smap \<Rightarrow> smap \<Rightarrow> smap" where
  "merge_map base extra = maps_copy (maps_copy [] base) extra"

definition proxy_client_env :: "string list" where
  "proxy_client_env =
     [''HTTPS_PROXY=http://proxy:8080'', ''HTTP_PROXY=http://proxy:8080'', ''NO_PROXY='']"

definition build_container_config ::
    "(f64 \<Rightarrow> int64) \<Rightarrow> spec \<Rightarrow> string \<Rightarrow> container_config \<times> host_config \<times> net_config option" where
  "build_container_config nano sp network =
     (let cmd = (if sp_cmd sp = [] then default_keep_alive else sp_cmd sp);
          env = flatten_env (sp_env sp);
          (mode, env', net) =
            (if network \<noteq> [] then (network, env @ proxy_client_env, Some [(network, [])])
             else (network_or_default (sp_network_mode sp), env, None))
      in (\<lparr> cc_image = sp_image sp, cc_cmd = cmd, cc_user = sp_user sp, cc_env = env',
            cc_labels = sp_labels sp \<rparr>,
          \<lparr> hf_read_only = sp_read_only sp, hf_network_mode = mode, hf_cap_drop = [''ALL''],
            hf_security_opt = [''no-new-privileges:true''], hf_runtime = sp_runtime_name sp,
            hf_tmpfs = [(''/tmp'', ''rw,size=64m,mode=1777'')], hf_restart = [],
            hf_nano_cpus = nano (sp_cpus sp), hf_memory = sp_memory_mb sp * 1024 * 1024,
            hf_pids = sp_pids_limit sp \<rparr>,
          net))"

section \<open>Create\<close>

text \<open>Errors are wrapped with a prefix (\<open>fmt.Errorf\<close> with \<open>%w\<close>).\<close>

definition wrap :: "string \<Rightarrow> docker_error \<Rightarrow> rt_error" where
  "wrap prefix_text e = RtError (prefix_text @ '': '' @ dk_message e)"

definition is_not_found :: "docker_error \<Rightarrow> bool" where
  "is_not_found e = (case e of DkNotFound _ \<Rightarrow> True | DkError _ \<Rightarrow> False)"

definition proxy_env :: "string list \<Rightarrow> string list" where
  "proxy_env hosts =
     [''KP_ALLOWED_HOSTS='' @ join_with '','' hosts,
      ''KP_DENY_HOSTS='' @ join_with '','' default_deny_hosts,
      ''KP_PROXY_PORT=8080'']"

definition proxy_config_for :: "string \<Rightarrow> string \<Rightarrow> spec \<Rightarrow> container_config \<times> host_config \<times> net_config option" where
  "proxy_config_for img sandbox_id sp =
     (let network = network_name_prefix @ sandbox_id in
      (\<lparr> cc_image = img, cc_cmd = [], cc_user = [], cc_env = proxy_env (re_hosts (sp_egress sp)),
         cc_labels = merge_map [(dl_sandbox_id, sandbox_id), (dl_managed, ''true'')]
                       [(dl_role, role_proxy)] \<rparr>,
       \<lparr> hf_read_only = True, hf_network_mode = network, hf_cap_drop = [''ALL''],
         hf_security_opt = [''no-new-privileges:true''], hf_runtime = [], hf_tmpfs = [],
         hf_restart = ''unless-stopped'', hf_nano_cpus = 0, hf_memory = 64 * 1024 * 1024,
         hf_pids = 64 \<rparr>,
       Some [(network, [''proxy''])]))"

definition no_proxy_image :: "string \<Rightarrow> rt_error" where
  "no_proxy_image img = RtError (''proxy image '' @ go_quote img @ '' not found '' @ [CHR 0xE2, CHR 0x80, CHR 0x94]
     @ '' build with: docker build -f Dockerfile.kpproxy -t '' @ img @ '' .'')"

definition provision_proxy ::
    "environ \<Rightarrow> 'd docker \<Rightarrow> string \<Rightarrow> spec \<Rightarrow> 'd \<Rightarrow> (rt_error + string \<times> string) \<times> 'd" where
  "provision_proxy env dk sandbox_id sp d =
     (let network = network_name_prefix @ sandbox_id;
          img = env_or env ''KP_PROXY_IMAGE'' default_proxy_image;
          (cfg, host, net) = proxy_config_for img sandbox_id sp
      in case dk_create dk cfg host net (proxy_name_prefix @ sandbox_id) d of
           (Inl e, d1) \<Rightarrow>
             (Inl (if is_not_found e
                   then no_proxy_image img
                   else wrap ''proxy create'' e),
              snd (dk_net_remove dk network d1))
         | (Inr proxy_id, d1) \<Rightarrow>
             (let undo = (\<lambda>d. snd (dk_net_remove dk network (snd (dk_remove dk proxy_id False d))))
              in case dk_start dk proxy_id d1 of
                   (Some e, d2) \<Rightarrow> (Inl (wrap ''proxy start'' e), undo d2)
                 | (None, d2) \<Rightarrow>
                     (case dk_net_connect dk ''bridge'' proxy_id d2 of
                        (Some e, d3) \<Rightarrow> (Inl (wrap ''proxy attach to bridge'' e), undo d3)
                      | (None, d3) \<Rightarrow> (Inr (network, proxy_id), d3))))"

definition maybe_provision_egress ::
    "environ \<Rightarrow> 'd docker \<Rightarrow> string \<Rightarrow> spec \<Rightarrow> 'd \<Rightarrow> (rt_error + string \<times> string) \<times> 'd" where
  "maybe_provision_egress env dk sandbox_id sp d =
     (let mode = re_mode (sp_egress sp) in
      if mode = [] \<or> mode = ''none'' then (Inr ([], []), d)
      else if mode \<noteq> ''allowlist'' then (Inl (RtError (''egress mode '' @ go_quote mode @ '' invalid'')), d)
      else if sandbox_id = []
        then (Inl (RtError ''egress allowlist requires kotakpasir.sandbox-id label on spec''), d)
      else
        (case dk_net_create dk (network_name_prefix @ sandbox_id) True
                [(dl_sandbox_id, sandbox_id), (dl_role, role_network), (dl_managed, ''true'')] d of
           (Some e, d1) \<Rightarrow> (Inl (wrap ''network create'' e), d1)
         | (None, d1) \<Rightarrow> provision_proxy env dk sandbox_id sp d1))"

definition rollback :: "'d docker \<Rightarrow> string \<Rightarrow> string \<Rightarrow> 'd \<Rightarrow> 'd" where
  "rollback dk proxy_id network d =
     (let d1 = (if proxy_id \<noteq> [] then snd (dk_remove dk proxy_id False d) else d)
      in if network \<noteq> [] then snd (dk_net_remove dk network d1) else d1)"

text \<open>A pull reads the messages to their end and throws them away.\<close>

definition pull_image :: "'d docker \<Rightarrow> string \<Rightarrow> 'd \<Rightarrow> docker_error option \<times> 'd" where
  "pull_image dk ref d =
     (case dk_image_pull dk ref d of
        (Inl e, d') \<Rightarrow> (Some e, d')
      | (Inr rc, d') \<Rightarrow> (pl_read_err rc, d'))"

lemma pull_image_daemon [simp]: "snd (pull_image dk ref d) = snd (dk_image_pull dk ref d)"
  by (simp add: pull_image_def split: prod.split sum.split)

text \<open>The container itself: created, after a pull when its image is missing.\<close>

definition create_container ::
    "'d docker \<Rightarrow> container_config \<Rightarrow> host_config \<Rightarrow> net_config option \<Rightarrow> string \<Rightarrow> string \<Rightarrow> 'd
      \<Rightarrow> (rt_error + string) \<times> 'd" where
  "create_container dk cfg host net name img d =
     (case dk_create dk cfg host net name d of
        (Inr i, d1) \<Rightarrow> (Inr i, d1)
      | (Inl e, d1) \<Rightarrow>
          (if is_not_found e then
             (case pull_image dk img d1 of
                (Some pe, d2) \<Rightarrow> (Inl (wrap (''pull image '' @ go_quote img) pe), d2)
              | (None, d2) \<Rightarrow>
                  (case dk_create dk cfg host net name d2 of
                     (Inr i, d3) \<Rightarrow> (Inr i, d3)
                   | (Inl e', d3) \<Rightarrow> (Inl (wrap ''container create'' e'), d3)))
           else (Inl (wrap ''container create'' e), d1)))"

definition docker_create ::
    "environ \<Rightarrow> 'd docker \<Rightarrow> spec \<Rightarrow> 'd \<Rightarrow> (rt_error + handle) \<times> 'd" where
  "docker_create env dk sp d =
     (let sandbox_id = (case map_of (sp_labels sp) dl_sandbox_id of None \<Rightarrow> [] | Some i \<Rightarrow> i) in
      case maybe_provision_egress env dk sandbox_id sp d of
        (Inl e, d1) \<Rightarrow> (Inl e, d1)
      | (Inr (network, proxy_id), d1) \<Rightarrow>
          (let (cfg, host, net) = build_container_config (dk_nano_cpus dk) sp network;
               name = (if sp_name sp \<noteq> [] then container_name_prefix @ sp_name sp else [])
           in case create_container dk cfg host net name (sp_image sp) d1 of
                (Inl e, d2) \<Rightarrow> (Inl e, rollback dk proxy_id network d2)
              | (Inr i, d2) \<Rightarrow>
                  (case dk_start dk i d2 of
                     (Some e, d3) \<Rightarrow>
                       (Inl (wrap ''container start'' e),
                        rollback dk proxy_id network (snd (dk_remove dk i False d3)))
                   | (None, d3) \<Rightarrow> (Inr \<lparr> h_id = i, h_name = name \<rparr>, d3))))"

section \<open>The other operations\<close>

text \<open>Demultiplexed output of an exec: the chunks of streams with a writer, and the text of the
  others.\<close>

definition has_writer :: "exec_spec \<Rightarrow> stream \<Rightarrow> bool" where
  "has_writer x s = (case s of Stdout \<Rightarrow> xs_stdout x | Stderr \<Rightarrow> xs_stderr x)"

definition stream_text :: "stream \<Rightarrow> entry list \<Rightarrow> string" where
  "stream_text s es = concat (map e_data (filter (\<lambda>e. e_stream e = s) es))"

definition exec_config_of :: "exec_spec \<Rightarrow> exec_config" where
  "exec_config_of x =
     \<lparr> ec_cmd = xs_cmd x, ec_env = flatten_env (xs_env x), ec_work_dir = xs_work_dir x, ec_attach_stdout = True,
       ec_attach_stderr = True, ec_attach_stdin = (xs_stdin x \<noteq> None), ec_tty = False \<rparr>"

definition docker_exec ::
    "'d docker \<Rightarrow> string \<Rightarrow> exec_spec \<Rightarrow> 'd \<Rightarrow> entry list \<times> (rt_error + exec_result) \<times> 'd" where
  "docker_exec dk i x d =
     (case dk_exec_create dk i (exec_config_of x) d of
        (Inl e, d1) \<Rightarrow> ([], Inl (wrap ''exec create'' e), d1)
      | (Inr ex, d1) \<Rightarrow>
          (case dk_exec_attach dk ex (xs_stdin x) d1 of
             (Inl e, d2) \<Rightarrow> ([], Inl (wrap ''exec attach'' e), d2)
           | (Inr (out, read_err), d2) \<Rightarrow>
               (let chunks = filter (\<lambda>e. has_writer x (e_stream e)) out in
                case read_err of
                  Some e \<Rightarrow> (chunks, Inl (wrap ''exec read'' e), d2)
                | None \<Rightarrow>
                    (case dk_exec_inspect dk ex d2 of
                       Inl e \<Rightarrow> (chunks, Inl (wrap ''exec inspect'' e), d2)
                     | Inr code \<Rightarrow>
                         (chunks,
                          Inr \<lparr> xr_exit_code = code,
                                xr_stdout = (if xs_stdout x then [] else stream_text Stdout out),
                                xr_stderr = (if xs_stderr x then [] else stream_text Stderr out),
                                xr_duration = dk_elapsed dk d2 \<rparr>,
                          d2)))))"

definition docker_stop :: "'d docker \<Rightarrow> string \<Rightarrow> 'd \<Rightarrow> rt_error option \<times> 'd" where
  "docker_stop dk i d =
     (case dk_stop dk i default_stop_timeout d of
        (Some e, d') \<Rightarrow> (Some (RtError (dk_message e)), d')
      | (None, d') \<Rightarrow> (None, d'))"

definition remove_each :: "'d docker \<Rightarrow> string list \<Rightarrow> 'd \<Rightarrow> 'd" where
  "remove_each dk ids d = fold (\<lambda>i d. snd (dk_remove dk i False d)) ids d"

definition cleanup_sandbox_group :: "'d docker \<Rightarrow> string \<Rightarrow> 'd \<Rightarrow> 'd" where
  "cleanup_sandbox_group dk sandbox_id d =
     (let label = dl_sandbox_id @ ''='' @ sandbox_id;
          d1 = (case dk_list dk label d of Inl _ \<Rightarrow> d | Inr ids \<Rightarrow> remove_each dk ids d)
      in case dk_net_list dk label d1 of
           Inl _ \<Rightarrow> d1
         | Inr nets \<Rightarrow> fold (\<lambda>n d. snd (dk_net_remove dk n d)) nets d1)"

definition docker_remove :: "'d docker \<Rightarrow> string \<Rightarrow> 'd \<Rightarrow> rt_error option \<times> 'd" where
  "docker_remove dk i d =
     (let sandbox_id =
            (case dk_inspect dk i d of
               Inl _ \<Rightarrow> []
             | Inr insp \<Rightarrow>
                 (case ci_labels insp of None \<Rightarrow> []
                  | Some ls \<Rightarrow> (case map_of ls dl_sandbox_id of None \<Rightarrow> [] | Some s \<Rightarrow> s)));
          d1 = snd (dk_remove dk i True d)
      in (None, if sandbox_id = [] then d1 else cleanup_sandbox_group dk sandbox_id d1))"

definition clean_pool_orphans :: "'d docker \<Rightarrow> 'd \<Rightarrow> rt_error option \<times> 'd" where
  "clean_pool_orphans dk d =
     (case dk_list dk (dl_role @ ''=pool-warm'') d of
        Inl e \<Rightarrow> (Some (wrap ''list pool orphans'' e), d)
      | Inr ids \<Rightarrow> (None, remove_each dk ids d))"

record rt_status =
  rs_state :: string
  rs_exit_code :: "int option"

definition docker_status :: "'d docker \<Rightarrow> string \<Rightarrow> 'd \<Rightarrow> docker_error + rt_status" where
  "docker_status dk i d =
     (case dk_inspect dk i d of
        Inl e \<Rightarrow> Inl e
      | Inr insp \<Rightarrow>
          Inr \<lparr> rs_state = ci_status insp,
                rs_exit_code = (if ci_exit_code insp \<noteq> 0 \<or> ci_status insp = ''exited''
                                then Some (ci_exit_code insp) else None) \<rparr>)"

definition docker_proxy_addr :: "'d docker \<Rightarrow> string \<Rightarrow> 'd \<Rightarrow> rt_error + string" where
  "docker_proxy_addr dk sandbox_id d =
     (case dk_inspect dk (proxy_name_prefix @ sandbox_id) d of
        Inl e \<Rightarrow> Inl (if is_not_found e then ErrNoProxy else wrap ''inspect proxy'' e)
      | Inr insp \<Rightarrow>
          (case ci_networks insp of
             None \<Rightarrow> Inl (RtError (''proxy '' @ sandbox_id @ '' has no network settings''))
           | Some nets \<Rightarrow>
               (case map_of nets ''bridge'' of
                  None \<Rightarrow> Inl (RtError (''proxy '' @ sandbox_id @ '' not attached to bridge yet''))
                | Some ip \<Rightarrow>
                    (if ip = [] then Inl (RtError (''proxy '' @ sandbox_id @ '' not attached to bridge yet''))
                     else Inr (ip @ '':8080'')))))"

definition docker_ensure_image :: "'d docker \<Rightarrow> string \<Rightarrow> 'd \<Rightarrow> (rt_error + bool) \<times> 'd" where
  "docker_ensure_image dk ref d =
     (case dk_image_inspect dk ref d of
        None \<Rightarrow> (Inr False, d)
      | Some e \<Rightarrow>
          (if \<not> is_not_found e then (Inl (wrap (''inspect image '' @ go_quote ref) e), d)
           else (case pull_image dk ref d of
                   (Some pe, d') \<Rightarrow> (Inl (wrap (''pull image '' @ go_quote ref) pe), d')
                 | (None, d') \<Rightarrow> (Inr True, d'))))"

definition docker_ping :: "'d docker \<Rightarrow> 'd \<Rightarrow> rt_error option" where
  "docker_ping dk d = map_option (\<lambda>e. RtError (dk_message e)) (dk_ping dk d)"

definition docker_ops :: "environ \<Rightarrow> 'd docker \<Rightarrow> 'd runtime_ops" where
  "docker_ops env dk =
     \<lparr> rt_create = docker_create env dk, rt_exec = docker_exec dk, rt_stop = docker_stop dk,
       rt_remove = docker_remove dk, rt_ping = Some (docker_ping dk),
       rt_clean_orphans = Some (clean_pool_orphans dk),
       rt_ensure_image = Some (docker_ensure_image dk), rt_proxy_addr = Some (docker_proxy_addr dk) \<rparr>"

section \<open>The daemon\<close>

text \<open>What the daemon documents of its calls, over the sets of its containers and of its networks:
  a creation that succeeds adds one new container (or network) and one that fails adds none; a
  removal that succeeds takes exactly its object away; starting, connecting and pulling neither
  add nor remove.\<close>

definition daemon_ok :: "'d docker \<Rightarrow> ('d \<Rightarrow> string set) \<Rightarrow> ('d \<Rightarrow> string set) \<Rightarrow> bool" where
  "daemon_ok dk ctrs nets \<longleftrightarrow>
     (\<forall>cfg host net name d. case dk_create dk cfg host net name d of
        (Inr i, d') \<Rightarrow> i \<noteq> [] \<and> i \<notin> ctrs d \<and> ctrs d' = insert i (ctrs d) \<and> nets d' = nets d
      | (Inl e, d') \<Rightarrow> ctrs d' = ctrs d \<and> nets d' = nets d)
   \<and> (\<forall>i d. ctrs (snd (dk_start dk i d)) = ctrs d \<and> nets (snd (dk_start dk i d)) = nets d)
   \<and> (\<forall>i v d. case dk_remove dk i v d of
        (None, d') \<Rightarrow> ctrs d' = ctrs d - {i} \<and> nets d' = nets d
      | (Some e, d') \<Rightarrow> ctrs d' = ctrs d \<and> nets d' = nets d)
   \<and> (\<forall>n priv ls d. case dk_net_create dk n priv ls d of
        (None, d') \<Rightarrow> n \<notin> nets d \<and> nets d' = insert n (nets d) \<and> ctrs d' = ctrs d
      | (Some e, d') \<Rightarrow> ctrs d' = ctrs d \<and> nets d' = nets d)
   \<and> (\<forall>n d. case dk_net_remove dk n d of
        (None, d') \<Rightarrow> nets d' = nets d - {n} \<and> ctrs d' = ctrs d
      | (Some e, d') \<Rightarrow> ctrs d' = ctrs d \<and> nets d' = nets d)
   \<and> (\<forall>n i d. ctrs (snd (dk_net_connect dk n i d)) = ctrs d \<and> nets (snd (dk_net_connect dk n i d)) = nets d)
   \<and> (\<forall>ref d. ctrs (snd (dk_image_pull dk ref d)) = ctrs d \<and> nets (snd (dk_image_pull dk ref d)) = nets d)"

definition removals_succeed :: "'d docker \<Rightarrow> bool" where
  "removals_succeed dk \<longleftrightarrow> (\<forall>i v d. fst (dk_remove dk i v d) = None)
     \<and> (\<forall>n d. fst (dk_net_remove dk n d) = None)"

text \<open>The world a client of the daemon sees, and the facts in the form the proofs use.\<close>

lemma daemon_create:
  assumes "daemon_ok dk ctrs nets"
  shows "dk_create dk cfg host net name d = (Inr i, d') \<Longrightarrow>
      i \<noteq> [] \<and> i \<notin> ctrs d \<and> ctrs d' = insert i (ctrs d) \<and> nets d' = nets d"
    and "dk_create dk cfg host net name d = (Inl e, d') \<Longrightarrow> ctrs d' = ctrs d \<and> nets d' = nets d"
  using assms unfolding daemon_ok_def
  by (auto dest!: spec [of _ cfg] spec [of _ host] spec [of _ net] spec [of _ name] spec [of _ d])

lemma daemon_net_create:
  assumes "daemon_ok dk ctrs nets"
  shows "dk_net_create dk n priv ls d = (None, d') \<Longrightarrow>
      n \<notin> nets d \<and> nets d' = insert n (nets d) \<and> ctrs d' = ctrs d"
    and "dk_net_create dk n priv ls d = (Some e, d') \<Longrightarrow> ctrs d' = ctrs d \<and> nets d' = nets d"
proof -
  have *: "case dk_net_create dk n priv ls d of
        (None, d') \<Rightarrow> n \<notin> nets d \<and> nets d' = insert n (nets d) \<and> ctrs d' = ctrs d
      | (Some e, d') \<Rightarrow> ctrs d' = ctrs d \<and> nets d' = nets d"
    by (rule assms [unfolded daemon_ok_def, THEN conjunct2, THEN conjunct2, THEN conjunct2, THEN conjunct1,
          THEN spec, THEN spec, THEN spec, THEN spec])
  show "dk_net_create dk n priv ls d = (None, d') \<Longrightarrow>
      n \<notin> nets d \<and> nets d' = insert n (nets d) \<and> ctrs d' = ctrs d" using * by simp
  show "dk_net_create dk n priv ls d = (Some e, d') \<Longrightarrow> ctrs d' = ctrs d \<and> nets d' = nets d"
    using * by simp
qed

lemma daemon_keeps:
  assumes "daemon_ok dk ctrs nets"
  shows "dk_start dk i d = (r, d') \<Longrightarrow> ctrs d' = ctrs d \<and> nets d' = nets d"
    and "dk_net_connect dk n i d = (r, d') \<Longrightarrow> ctrs d' = ctrs d \<and> nets d' = nets d"
    and "pull_image dk ref d = (pr, d') \<Longrightarrow> ctrs d' = ctrs d \<and> nets d' = nets d"
  using assms pull_image_daemon [of dk ref d] unfolding daemon_ok_def by (metis snd_conv)+

lemma daemon_removes:
  assumes "daemon_ok dk ctrs nets" and "removals_succeed dk"
  shows "ctrs (snd (dk_remove dk i v d)) = ctrs d - {i}" "nets (snd (dk_remove dk i v d)) = nets d"
    "nets (snd (dk_net_remove dk n d)) = nets d - {n}" "ctrs (snd (dk_net_remove dk n d)) = ctrs d"
proof -
  have 1: "case dk_remove dk i v d of
        (None, d') \<Rightarrow> ctrs d' = ctrs d - {i} \<and> nets d' = nets d
      | (Some e, d') \<Rightarrow> ctrs d' = ctrs d \<and> nets d' = nets d"
    and 2: "case dk_net_remove dk n d of
        (None, d') \<Rightarrow> nets d' = nets d - {n} \<and> ctrs d' = ctrs d
      | (Some e, d') \<Rightarrow> ctrs d' = ctrs d \<and> nets d' = nets d"
    by (rule assms(1) [unfolded daemon_ok_def, THEN conjunct2, THEN conjunct2, THEN conjunct1,
          THEN spec, THEN spec, THEN spec],
        rule assms(1) [unfolded daemon_ok_def, THEN conjunct2, THEN conjunct2, THEN conjunct2, THEN conjunct2,
          THEN conjunct1, THEN spec, THEN spec])
  have "fst (dk_remove dk i v d) = None" "fst (dk_net_remove dk n d) = None"
    using assms(2) by (simp_all add: removals_succeed_def)
  with 1 2 show "ctrs (snd (dk_remove dk i v d)) = ctrs d - {i}" "nets (snd (dk_remove dk i v d)) = nets d"
    "nets (snd (dk_net_remove dk n d)) = nets d - {n}" "ctrs (snd (dk_net_remove dk n d)) = ctrs d"
    by (simp_all split: prod.splits)
qed

lemma network_name_not_Nil [simp]: "network_name_prefix @ s \<noteq> []"
  by (simp add: network_name_prefix_def)

text \<open>\<open>create_container\<close> adds exactly the container it returns.\<close>

lemma create_container_world:
  assumes "daemon_ok dk ctrs nets"
  shows "create_container dk cfg host net name img d = (res, d') \<Longrightarrow>
    nets d' = nets d \<and> (case res of Inr i \<Rightarrow> i \<notin> ctrs d \<and> ctrs d' = insert i (ctrs d) | Inl e \<Rightarrow> ctrs d' = ctrs d)"
  unfolding create_container_def
  by (auto split: prod.splits sum.splits option.splits if_splits
      dest!: daemon_create [OF assms] daemon_keeps(3) [OF assms])

lemma maybe_provision_world:
  assumes ok: "daemon_ok dk ctrs nets" and rm: "removals_succeed dk"
    and mp: "maybe_provision_egress env dk sandbox_id sp d = (res, d')"
  shows "case res of
      Inl e \<Rightarrow> ctrs d' = ctrs d \<and> nets d' = nets d
    | Inr (network, proxy_id) \<Rightarrow>
        (if re_mode (sp_egress sp) \<in> {[], ''none''} then network = [] \<and> proxy_id = [] \<and> d' = d
         else re_mode (sp_egress sp) = ''allowlist'' \<and> network = network_name_prefix @ sandbox_id
           \<and> proxy_id \<noteq> [] \<and> proxy_id \<notin> ctrs d \<and> network \<notin> nets d
           \<and> ctrs d' = insert proxy_id (ctrs d) \<and> nets d' = insert network (nets d))"
proof (cases "re_mode (sp_egress sp) = ''allowlist'' \<and> sandbox_id \<noteq> []")
  case False
  with mp show ?thesis by (auto simp: maybe_provision_egress_def Let_def split: if_splits)
next
  case True
  let ?n = "network_name_prefix @ sandbox_id"
  obtain nr d1 where nc: "dk_net_create dk ?n True
      [(dl_sandbox_id, sandbox_id), (dl_role, role_network), (dl_managed, ''true'')] d = (nr, d1)"
    by fastforce
  show ?thesis
  proof (cases nr)
    case (Some e)
    with mp True nc daemon_net_create(2) [OF ok nc [unfolded Some]] show ?thesis
      by (auto simp: maybe_provision_egress_def Let_def)
  next
    case None
    note w1 = daemon_net_create(1) [OF ok nc [unfolded None]]
    from mp True nc None have pp: "provision_proxy env dk sandbox_id sp d1 = (res, d')"
      by (simp add: maybe_provision_egress_def Let_def)
    let ?cfg = "proxy_config_for (env_or env ''KP_PROXY_IMAGE'' default_proxy_image) sandbox_id sp"
    obtain cr d2 where cr: "dk_create dk (fst ?cfg) (fst (snd ?cfg)) (snd (snd ?cfg))
        (proxy_name_prefix @ sandbox_id) d1 = (cr, d2)" by fastforce
    show ?thesis
    proof (cases cr)
      case (Inl e)
      with pp cr daemon_create(2) [OF ok cr [unfolded Inl]] daemon_removes [OF ok rm] w1 show ?thesis
        by (auto simp: provision_proxy_def Let_def case_prod_unfold)
    next
      case (Inr p)
      note w2 = daemon_create(1) [OF ok cr [unfolded Inr]]
      obtain sr d3 where sr: "dk_start dk p d2 = (sr, d3)" by fastforce
      note w3 = daemon_keeps(1) [OF ok sr]
      obtain br d4 where br: "dk_net_connect dk ''bridge'' p d3 = (br, d4)" by fastforce
      note w4 = daemon_keeps(2) [OF ok br]
      have "(res, d') = (case sr of
           Some e \<Rightarrow> (Inl (wrap ''proxy start'' e), snd (dk_net_remove dk ?n (snd (dk_remove dk p False d3))))
         | None \<Rightarrow> (case br of
             Some e \<Rightarrow> (Inl (wrap ''proxy attach to bridge'' e),
                snd (dk_net_remove dk ?n (snd (dk_remove dk p False d4))))
           | None \<Rightarrow> (Inr (?n, p), d4)))"
        using pp cr Inr sr br by (simp add: provision_proxy_def Let_def case_prod_unfold split: option.splits)
      then show ?thesis
        using w1 w2 w3 w4 daemon_removes [OF ok rm] True
        by (auto split: option.splits)
    qed
  qed
qed

lemma rollback_world:
  assumes "daemon_ok dk ctrs nets" and "removals_succeed dk"
  shows "ctrs (rollback dk p n d) = (if p \<noteq> [] then ctrs d - {p} else ctrs d)"
    and "nets (rollback dk p n d) = (if n \<noteq> [] then nets d - {n} else nets d)"
  using daemon_removes [OF assms] by (simp_all add: rollback_def Let_def)

section \<open>Properties\<close>

text \<open>C18. Creating a sandbox on Docker is all or nothing. Over a daemon that keeps its documented
  behaviour and whose removals succeed: when \<open>Create\<close> returns an error (a bad mode, a network, the
  proxy, the image, the container or its start), the daemon has the containers and networks it had
  before; when it succeeds, it has one new container, and with an allowlist also one new proxy
  container and the new network of this sandbox, and nothing else.\<close>

theorem docker_create_atomic:
  assumes "daemon_ok dk ctrs nets" and "removals_succeed dk"
    and "docker_create env dk sp d = (res, d')"
  shows "case res of
      Inl e \<Rightarrow> ctrs d' = ctrs d \<and> nets d' = nets d
    | Inr h \<Rightarrow> h_id h \<notin> ctrs d \<and>
        (if re_mode (sp_egress sp) \<in> {[], ''none''}
         then ctrs d' = insert (h_id h) (ctrs d) \<and> nets d' = nets d
         else re_mode (sp_egress sp) = ''allowlist'' \<and>
           (\<exists>p i. map_of (sp_labels sp) dl_sandbox_id = Some i \<and> p \<notin> ctrs d \<and> p \<noteq> h_id h
              \<and> network_name_prefix @ i \<notin> nets d
              \<and> ctrs d' = insert (h_id h) (insert p (ctrs d))
              \<and> nets d' = insert (network_name_prefix @ i) (nets d)))"
proof -
  let ?i = "case map_of (sp_labels sp) dl_sandbox_id of None \<Rightarrow> [] | Some i \<Rightarrow> i"
  obtain pr d1 where pr: "maybe_provision_egress env dk ?i sp d = (pr, d1)" by fastforce
  note world1 = maybe_provision_world [OF assms(1,2) pr]
  show ?thesis
  proof (cases pr)
    case (Inl e)
    with assms(3) pr world1 show ?thesis by (auto simp: docker_create_def Let_def)
  next
    case (Inr np)
    obtain n p where np: "np = (n, p)" by (cases np)
    let ?cfg = "build_container_config (dk_nano_cpus dk) sp n"
    let ?name = "if sp_name sp \<noteq> [] then container_name_prefix @ sp_name sp else []"
    obtain cr d2 where cr: "create_container dk (fst ?cfg) (fst (snd ?cfg)) (snd (snd ?cfg)) ?name
        (sp_image sp) d1 = (cr, d2)" by fastforce
    note world2 = create_container_world [OF assms(1) cr]
    note undo = rollback_world [OF assms(1,2)] daemon_removes [OF assms(1,2)]
    have prov: "if re_mode (sp_egress sp) \<in> {[], ''none''} then n = [] \<and> p = [] \<and> d1 = d
         else re_mode (sp_egress sp) = ''allowlist'' \<and> n = network_name_prefix @ ?i
           \<and> p \<noteq> [] \<and> p \<notin> ctrs d \<and> n \<notin> nets d
           \<and> ctrs d1 = insert p (ctrs d) \<and> nets d1 = insert n (nets d)"
      using world1 by (simp add: Inr np)
    have nn: "re_mode (sp_egress sp) \<notin> {[], ''none''} \<Longrightarrow> n \<noteq> []"
      using prov network_name_not_Nil [of ?i] by metis
    have lab: "re_mode (sp_egress sp) \<notin> {[], ''none''} \<Longrightarrow> ?i \<noteq> []"
      using pr Inr by (auto simp: maybe_provision_egress_def Let_def split: if_splits)
    show ?thesis
    proof (cases cr)
      case (Inl e)
      with assms(3) pr \<open>pr = Inr np\<close> np cr have "res = Inl e" "d' = rollback dk p n d2"
        by (simp_all add: docker_create_def Let_def case_prod_unfold)
      with world2 Inl prov undo nn show ?thesis by (auto split: if_splits)
    next
      case cid: (Inr i)
      obtain sr d3 where sr: "dk_start dk i d2 = (sr, d3)" by fastforce
      note world3 = daemon_keeps(1) [OF assms(1) sr]
      show ?thesis
      proof (cases sr)
        case (Some e)
        with assms(3) pr \<open>pr = Inr np\<close> np cr cid sr have "res = Inl (wrap ''container start'' e)"
          "d' = rollback dk p n (snd (dk_remove dk i False d3))"
          by (simp_all add: docker_create_def Let_def case_prod_unfold)
        with world2 world3 cid prov undo nn show ?thesis by (auto split: if_splits)
      next
        case None
        with assms(3) pr \<open>pr = Inr np\<close> np cr cid sr have res: "res = Inr \<lparr> h_id = i, h_name = ?name \<rparr>" "d' = d3"
          by (simp_all add: docker_create_def Let_def case_prod_unfold)
        show ?thesis
        proof (cases "re_mode (sp_egress sp) \<in> {[], ''none''}")
          case True
          with res world2 world3 cid prov show ?thesis by simp
        next
          case False
          then obtain k where "map_of (sp_labels sp) dl_sandbox_id = Some k"
            using lab by (cases "map_of (sp_labels sp) dl_sandbox_id") auto
          with False res world2 world3 cid prov show ?thesis by auto
        qed
      qed
    qed
  qed
qed

text \<open>A daemon for the witness: it keeps the lists of its containers and networks, answers a
  duplicate network with an error and finds every image.\<close>

record demo_daemon =
  dd_ctrs :: "string list"
  dd_nets :: "string list"

definition demo_fresh :: "demo_daemon \<Rightarrow> string" where
  "demo_fresh d = replicate (Suc (sum_list (map length (dd_ctrs d)))) CHR ''c''"

definition demo_docker :: "demo_daemon docker" where
  "demo_docker =
     \<lparr> dk_create = (\<lambda>cfg host net name d. (Inr (demo_fresh d), d\<lparr> dd_ctrs := demo_fresh d # dd_ctrs d \<rparr>)),
       dk_start = (\<lambda>i d. (None, d)), dk_stop = (\<lambda>i t d. (None, d)),
       dk_remove = (\<lambda>i v d. (None, d\<lparr> dd_ctrs := removeAll i (dd_ctrs d) \<rparr>)),
       dk_inspect = (\<lambda>i d. Inl (DkNotFound i)), dk_list = (\<lambda>l d. Inr []),
       dk_net_create = (\<lambda>n priv ls d. if n \<in> set (dd_nets d) then (Some (DkError ''exists''), d)
          else (None, d\<lparr> dd_nets := n # dd_nets d \<rparr>)),
       dk_net_remove = (\<lambda>n d. (None, d\<lparr> dd_nets := removeAll n (dd_nets d) \<rparr>)),
       dk_net_connect = (\<lambda>n i d. (None, d)), dk_net_list = (\<lambda>l d. Inr []),
       dk_image_inspect = (\<lambda>r d. None), dk_image_pull = (\<lambda>r d. (Inr \<lparr> pl_messages = [], pl_read_err = None \<rparr>, d)),
       dk_exec_create = (\<lambda>i x d. (Inr i, d)), dk_exec_attach = (\<lambda>i s d. (Inr ([], None), d)),
       dk_exec_inspect = (\<lambda>i d. Inr 0), dk_ping = (\<lambda>d. None), dk_nano_cpus = (\<lambda>q. 0),
       dk_elapsed = (\<lambda>d. 0) \<rparr>"

lemma demo_fresh_new: "demo_fresh d \<notin> set (dd_ctrs d) \<and> demo_fresh d \<noteq> []"
proof -
  have "length c \<le> sum_list (map length cs)" if "c \<in> set cs" for c :: string and cs
    using that by (induction cs) auto
  from this [of "demo_fresh d" "dd_ctrs d"] show ?thesis by (auto simp: demo_fresh_def)
qed

lemma demo_daemon_ok:
  "daemon_ok demo_docker (\<lambda>d. set (dd_ctrs d)) (\<lambda>d. set (dd_nets d))" "removals_succeed demo_docker"
  using demo_fresh_new by (auto simp: daemon_ok_def demo_docker_def removals_succeed_def)

definition demo_egress_spec :: spec where
  "demo_egress_spec = \<lparr> sp_name = ''u1'', sp_image = ''alpine'', sp_cmd = [], sp_env = [],
     sp_cpus = Fin 1, sp_memory_mb = 512, sp_pids_limit = 0, sp_user = [], sp_read_only = True,
     sp_network_mode = ''none'', sp_runtime_name = [],
     sp_egress = \<lparr> re_mode = ''allowlist'', re_hosts = [''example.com''] \<rparr>,
     sp_labels = [(''kotakpasir.sandbox-id'', ''u1'')], sp_ttl = 0 \<rparr>"

theorem docker_create_atomic_witness:
  "\<exists>h d'. docker_create [] demo_docker demo_egress_spec \<lparr> dd_ctrs = [], dd_nets = [] \<rparr> = (Inr h, d')
     \<and> set (dd_nets d') = {''kp-net-u1''} \<and> card (set (dd_ctrs d')) = 2"
proof -
  let ?d = "\<lparr> dd_ctrs = [], dd_nets = [] \<rparr>"
  obtain res d' where c: "docker_create [] demo_docker demo_egress_spec ?d = (res, d')" by fastforce
  then obtain h where h: "res = Inr h"
    by (auto simp: docker_create_def maybe_provision_egress_def provision_proxy_def create_container_def
        demo_egress_spec_def demo_docker_def dl_sandbox_id_def Let_def case_prod_unfold)
  from docker_create_atomic [OF demo_daemon_ok c] h obtain p where
    "set (dd_ctrs d') = {h_id h, p}" "p \<noteq> h_id h" "set (dd_nets d') = {network_name_prefix @ ''u1''}"
    by (auto simp: demo_egress_spec_def dl_sandbox_id_def)
  with c h show ?thesis by (auto simp: network_name_prefix_def)
qed

end
