(* ===== verification/Backend.thy ===== *)
theory Backend
  imports Docker Sandboxes
begin

text \<open>
  The Docker backend meets the contract of containers that the pools and the manager rely on: over a
  daemon that keeps its documented behaviour, \<open>docker_ops\<close> is a \<open>managed_runtime\<close>, so what is proved
  of the manager over any backend holds with Docker below it. The containers of the contract are
  those of sandboxes and pools; an egress proxy is a container of the daemon, but belongs to the
  sandbox whose label it carries.
\<close>

section \<open>The daemon and its containers\<close>

text \<open>\<open>made\<close> gives the name and the labels of every container the daemon ever made, by its id, and
  \<open>ctrs\<close> the ids of those that exist. A creation that succeeds makes one container, with an id that
  was never used, the labels of its configuration and a name that no existing container has (the
  requested one, if there is one).\<close>

type_synonym 'd made = "'d \<Rightarrow> string \<Rightarrow> (string \<times> smap) option"

definition adds_container ::
    "'d made \<Rightarrow> ('d \<Rightarrow> string set) \<Rightarrow> string \<Rightarrow> string \<times> smap \<Rightarrow> 'd \<Rightarrow> 'd \<Rightarrow> bool" where
  "adds_container made ctrs i a d d' \<longleftrightarrow> i \<noteq> [] \<and> made d i = None \<and> made d' = (made d)(i \<mapsto> a)
     \<and> ctrs d' = insert i (ctrs d) \<and> (\<forall>c \<in> ctrs d. \<forall>a'. made d c = Some a' \<longrightarrow> fst a' \<noteq> fst a)"

definition same_containers :: "'d made \<Rightarrow> ('d \<Rightarrow> string set) \<Rightarrow> 'd \<Rightarrow> 'd \<Rightarrow> bool" where
  "same_containers made ctrs d d' \<longleftrightarrow> made d' = made d \<and> ctrs d' = ctrs d"

definition creations_documented :: "'d docker \<Rightarrow> 'd made \<Rightarrow> ('d \<Rightarrow> string set) \<Rightarrow> bool" where
  "creations_documented dk made ctrs \<longleftrightarrow>
     (\<forall>cfg host net name d. case dk_create dk cfg host net name d of
        (Inr i, d') \<Rightarrow> \<exists>n. (name \<noteq> [] \<longrightarrow> n = name) \<and> adds_container made ctrs i (n, cc_labels cfg) d d'
      | (Inl e, d') \<Rightarrow> same_containers made ctrs d d')"

text \<open>A removal takes away the container with that id and no other; no other call makes or takes away
  containers.\<close>

definition removals_documented :: "'d docker \<Rightarrow> 'd made \<Rightarrow> ('d \<Rightarrow> string set) \<Rightarrow> bool" where
  "removals_documented dk made ctrs \<longleftrightarrow> (\<forall>i v d. made d i \<noteq> None \<longrightarrow>
     made (snd (dk_remove dk i v d)) = made d \<and> ctrs (snd (dk_remove dk i v d)) = ctrs d - {i})"

definition calls_documented :: "'d docker \<Rightarrow> 'd made \<Rightarrow> ('d \<Rightarrow> string set) \<Rightarrow> bool" where
  "calls_documented dk made ctrs \<longleftrightarrow>
     (\<forall>i d. same_containers made ctrs d (snd (dk_start dk i d)))
   \<and> (\<forall>i t d. same_containers made ctrs d (snd (dk_stop dk i t d)))
   \<and> (\<forall>n priv ls d. same_containers made ctrs d (snd (dk_net_create dk n priv ls d)))
   \<and> (\<forall>n d. same_containers made ctrs d (snd (dk_net_remove dk n d)))
   \<and> (\<forall>n i d. same_containers made ctrs d (snd (dk_net_connect dk n i d)))
   \<and> (\<forall>ref d. same_containers made ctrs d (snd (dk_image_pull dk ref d)))
   \<and> (\<forall>i x d. same_containers made ctrs d (snd (dk_exec_create dk i x d)))
   \<and> (\<forall>i s d. same_containers made ctrs d (snd (dk_exec_attach dk i s d)))"

text \<open>Listing by a label finds exactly the existing containers with this label, and an inspection tells
  the labels of an existing container.\<close>

definition reads_documented :: "'d docker \<Rightarrow> 'd made \<Rightarrow> ('d \<Rightarrow> string set) \<Rightarrow> bool" where
  "reads_documented dk made ctrs \<longleftrightarrow>
     (\<forall>k v d ids. CHR ''='' \<notin> set k \<and> dk_list dk (k @ ''='' @ v) d = Inr ids \<longrightarrow>
        set ids = {c \<in> ctrs d. \<exists>n ls. made d c = Some (n, ls) \<and> map_of ls k = Some v})
   \<and> (\<forall>i d insp a. made d i = Some a \<and> dk_inspect dk i d = Inr insp \<longrightarrow>
        i \<in> ctrs d \<and> (\<forall>ls. ci_labels insp = Some ls \<longrightarrow> map_of ls = map_of (snd a)))"

definition daemon_documented :: "'d docker \<Rightarrow> 'd made \<Rightarrow> ('d \<Rightarrow> string set) \<Rightarrow> bool" where
  "daemon_documented dk made ctrs \<longleftrightarrow> creations_documented dk made ctrs
     \<and> removals_documented dk made ctrs \<and> calls_documented dk made ctrs \<and> reads_documented dk made ctrs"

section \<open>The containers of the contract\<close>

definition is_proxy :: "string \<times> smap \<Rightarrow> bool" where
  "is_proxy a \<longleftrightarrow> (\<exists>s. s \<noteq> [] \<and> fst a = proxy_name_prefix @ s \<and> map_of (snd a) dl_sandbox_id = Some s)"

definition dk_live :: "'d made \<Rightarrow> ('d \<Rightarrow> string set) \<Rightarrow> 'd \<Rightarrow> string set" where
  "dk_live made ctrs d = {c \<in> ctrs d. \<exists>a. made d c = Some a \<and> \<not> is_proxy a}"

definition dk_issued :: "'d made \<Rightarrow> 'd \<Rightarrow> string set" where
  "dk_issued made d = {c. \<exists>a. made d c = Some a \<and> \<not> is_proxy a}"

text \<open>A container labelled with a sandbox is the container or the proxy of this sandbox, by its name.\<close>

definition dk_inv :: "'d made \<Rightarrow> ('d \<Rightarrow> string set) \<Rightarrow> 'd \<Rightarrow> bool" where
  "dk_inv made ctrs d \<longleftrightarrow> ctrs d \<subseteq> dom (made d)
   \<and> (\<forall>c \<in> ctrs d. \<forall>c' \<in> ctrs d. \<forall>a a'. made d c = Some a \<and> made d c' = Some a' \<and> fst a = fst a' \<longrightarrow> c = c')
   \<and> (\<forall>c \<in> ctrs d. \<forall>a s. made d c = Some a \<and> map_of (snd a) dl_sandbox_id = Some s \<and> s \<noteq> [] \<longrightarrow>
        fst a \<in> {container_name_prefix @ s, proxy_name_prefix @ s})"

lemma dk_inv_names:
  "dk_inv made ctrs d \<Longrightarrow> c \<in> ctrs d \<Longrightarrow> c' \<in> ctrs d \<Longrightarrow> made d c = Some a \<Longrightarrow> made d c' = Some a' \<Longrightarrow>
   fst a = fst a' \<Longrightarrow> c = c'"
  unfolding dk_inv_def by blast

definition dk_grows :: "'d made \<Rightarrow> ('d \<Rightarrow> string set) \<Rightarrow> 'd \<Rightarrow> 'd \<Rightarrow> bool" where
  "dk_grows made ctrs d d' \<longleftrightarrow> made d \<subseteq>\<^sub>m made d' \<and> ctrs d' = ctrs d"

lemma grows_refl [simp]: "dk_grows made ctrs d d"
  by (simp add: dk_grows_def)

lemma grows_contract:
  assumes "dk_inv made ctrs d" and "dk_grows made ctrs d d'"
  shows "dk_inv made ctrs d'" and "dk_live made ctrs d' = dk_live made ctrs d"
    and "dk_issued made d \<subseteq> dk_issued made d'"
proof -
  have keep: "made d' c = made d c" if "c \<in> ctrs d" for c
    using assms that unfolding dk_inv_def dk_grows_def map_le_def by (metis subsetD)
  have sub: "made d c = Some a \<Longrightarrow> made d' c = Some a" for c a
    using assms(2) by (auto simp: dk_grows_def map_le_def dom_def)
  have ctrs: "ctrs d' = ctrs d" using assms(2) by (simp add: dk_grows_def)
  show "dk_live made ctrs d' = dk_live made ctrs d" using keep ctrs by (auto simp: dk_live_def)
  show "dk_issued made d \<subseteq> dk_issued made d'" using sub by (auto simp: dk_issued_def)
  have "ctrs d \<subseteq> dom (made d)" using assms(1) by (simp add: dk_inv_def)
  then have "ctrs d \<subseteq> dom (made d')" using sub by (meson domD domI subset_iff)
  moreover have "c = c'" if "c \<in> ctrs d" "c' \<in> ctrs d" "made d' c = Some a" "made d' c' = Some a'" "fst a = fst a'" for c c' a a'
    using that assms(1) unfolding dk_inv_def keep [OF that(1)] keep [OF that(2)] by blast
  moreover have "fst a \<in> {container_name_prefix @ s, proxy_name_prefix @ s}"
    if "c \<in> ctrs d" "made d' c = Some a" "map_of (snd a) dl_sandbox_id = Some s" "s \<noteq> []" for c a s
    using that assms(1) unfolding dk_inv_def keep [OF that(1)] by blast
  ultimately show "dk_inv made ctrs d'" unfolding dk_inv_def ctrs by blast
qed

lemma remove_contract:
  assumes "dk_inv made ctrs d" and "made d' = made d" and "ctrs d' = ctrs d - X"
  shows "dk_inv made ctrs d'" and "dk_live made ctrs d' = dk_live made ctrs d - X"
    and "dk_issued made d' = dk_issued made d"
proof -
  have d': "ctrs d' \<subseteq> ctrs d" using assms(3) by blast
  have "\<forall>c \<in> ctrs d'. \<forall>c' \<in> ctrs d'. \<forall>a a'. made d c = Some a \<and> made d c' = Some a' \<and> fst a = fst a' \<longrightarrow> c = c'"
    using assms(1) d' unfolding dk_inv_def by (metis subsetD)
  moreover have "\<forall>c \<in> ctrs d'. \<forall>a s. made d c = Some a \<and> map_of (snd a) dl_sandbox_id = Some s \<and> s \<noteq> [] \<longrightarrow>
        fst a \<in> {container_name_prefix @ s, proxy_name_prefix @ s}"
    using assms(1) d' unfolding dk_inv_def by (metis subsetD)
  ultimately show "dk_inv made ctrs d'" using assms(1) d' unfolding dk_inv_def assms(2) by blast
  show "dk_live made ctrs d' = dk_live made ctrs d - X" "dk_issued made d' = dk_issued made d"
    by (auto simp: dk_live_def dk_issued_def assms(2,3))
qed

lemma add_contract:
  assumes inv: "dk_inv made ctrs d" and add: "adds_container made ctrs i a d d'"
    and lab: "\<And>s. map_of (snd a) dl_sandbox_id = Some s \<Longrightarrow> s \<noteq> [] \<Longrightarrow>
        fst a \<in> {container_name_prefix @ s, proxy_name_prefix @ s}"
  shows "dk_inv made ctrs d'" and "dk_live made ctrs d' = (if is_proxy a then dk_live made ctrs d else insert i (dk_live made ctrs d))"
    and "dk_issued made d' = (if is_proxy a then dk_issued made d else insert i (dk_issued made d))"
    and "i \<notin> dk_issued made d"
proof -
  have i: "i \<notin> ctrs d" using inv add by (auto simp: dk_inv_def adds_container_def)
  have new: "made d' c = (if c = i then Some a else made d c)" "ctrs d' = insert i (ctrs d)" "made d i = None" for c
    using add by (simp_all add: adds_container_def)
  have other: "fst a' \<noteq> fst a" if "c \<in> ctrs d" "made d c = Some a'" for c a'
    using add that unfolding adds_container_def by blast
  show "dk_live made ctrs d' = (if is_proxy a then dk_live made ctrs d else insert i (dk_live made ctrs d))"
    using i by (cases a) (auto simp: dk_live_def new)
  show "dk_issued made d' = (if is_proxy a then dk_issued made d else insert i (dk_issued made d))"
    using new(3) by (cases a) (auto simp: dk_issued_def new)
  show "i \<notin> dk_issued made d" using new(3) by (simp add: dk_issued_def)
  have "ctrs d' \<subseteq> dom (made d')" using inv by (auto simp: dk_inv_def new)
  moreover have "c = c'" if "c \<in> ctrs d'" "c' \<in> ctrs d'" "made d' c = Some x" "made d' c' = Some y" "fst x = fst y"
    for c c' x y
  proof (cases "c = i \<or> c' = i")
    case True
    then show ?thesis using that other [of c x] other [of c' y] unfolding new by (auto split: if_splits)
  next
    case False
    with that have "c \<in> ctrs d" "c' \<in> ctrs d" "made d c = Some x" "made d c' = Some y" by (auto simp: new)
    then show ?thesis using inv that(5) unfolding dk_inv_def by blast
  qed
  moreover have "fst x \<in> {container_name_prefix @ s, proxy_name_prefix @ s}"
    if "c \<in> ctrs d'" "made d' c = Some x" "map_of (snd x) dl_sandbox_id = Some s" "s \<noteq> []" for c x s
  proof (cases "c = i")
    case True
    with that lab [of s] show ?thesis by (simp add: new)
  next
    case False
    with that have "c \<in> ctrs d" "made d c = Some x" by (auto simp: new)
    then show ?thesis using inv that(3,4) unfolding dk_inv_def by blast
  qed
  ultimately show "dk_inv made ctrs d'" unfolding dk_inv_def by blast
qed

section \<open>The operations keep the contract\<close>

lemma dk_creates:
  assumes "daemon_documented dk made ctrs"
  shows "dk_create dk cfg host net name d = (Inr i, d') \<Longrightarrow>
      \<exists>n. (name \<noteq> [] \<longrightarrow> n = name) \<and> adds_container made ctrs i (n, cc_labels cfg) d d'"
    and "dk_create dk cfg host net name d = (Inl e, d') \<Longrightarrow> same_containers made ctrs d d'"
  using assms unfolding daemon_documented_def creations_documented_def
  by (auto dest!: spec [of _ cfg] spec [of _ host] spec [of _ net] spec [of _ name] spec [of _ d])

lemma dk_same:
  assumes "daemon_documented dk made ctrs"
  shows "same_containers made ctrs d (snd (dk_start dk i d))"
    and "same_containers made ctrs d (snd (dk_stop dk i tm d))"
    and "same_containers made ctrs d (snd (dk_net_create dk n priv ls d))"
    and "same_containers made ctrs d (snd (dk_net_remove dk n d))"
    and "same_containers made ctrs d (snd (dk_net_connect dk n i d))"
    and "same_containers made ctrs d (snd (dk_image_pull dk ref d))"
    and "same_containers made ctrs d (snd (dk_exec_create dk i x d))"
    and "same_containers made ctrs d (snd (dk_exec_attach dk i s d))"
  using assms by (simp_all add: daemon_documented_def calls_documented_def)

lemma same_simps: "same_containers made ctrs d d' \<Longrightarrow> made d' = made d \<and> ctrs d' = ctrs d"
  by (simp add: same_containers_def)

lemma dk_frames:
  assumes "daemon_documented dk made ctrs"
  shows "dk_start dk i d = (r1, d') \<Longrightarrow> made d' = made d \<and> ctrs d' = ctrs d"
    and "dk_stop dk i tm d = (r2, d') \<Longrightarrow> made d' = made d \<and> ctrs d' = ctrs d"
    and "dk_net_create dk n priv ls d = (r3, d') \<Longrightarrow> made d' = made d \<and> ctrs d' = ctrs d"
    and "dk_net_connect dk n i d = (r4, d') \<Longrightarrow> made d' = made d \<and> ctrs d' = ctrs d"
    and "pull_image dk ref d = (r5, d') \<Longrightarrow> made d' = made d \<and> ctrs d' = ctrs d"
    and "dk_exec_create dk i x d = (r6, d') \<Longrightarrow> made d' = made d \<and> ctrs d' = ctrs d"
    and "dk_exec_attach dk i s d = (r7, d') \<Longrightarrow> made d' = made d \<and> ctrs d' = ctrs d"
  using dk_same [OF assms, THEN same_simps] pull_image_daemon [of dk ref d] by (metis snd_conv)+

lemma dk_removes:
  assumes "daemon_documented dk made ctrs"
  shows "made d i \<noteq> None \<Longrightarrow> made (snd (dk_remove dk i v d)) = made d \<and> ctrs (snd (dk_remove dk i v d)) = ctrs d - {i}"
    and "made (snd (dk_net_remove dk n d)) = made d \<and> ctrs (snd (dk_net_remove dk n d)) = ctrs d"
  using assms dk_same(4) [OF assms] by (simp_all add: daemon_documented_def removals_documented_def same_containers_def)

lemma remove_each_removes:
  "daemon_documented dk made ctrs \<Longrightarrow> set ids \<subseteq> dom (made d) \<Longrightarrow>
   made (remove_each dk ids d) = made d \<and> ctrs (remove_each dk ids d) = ctrs d - set ids"
proof (induction ids arbitrary: d)
  case (Cons i ids)
  let ?d = "snd (dk_remove dk i False d)"
  have "made ?d = made d \<and> ctrs ?d = ctrs d - {i}" using Cons.prems by (intro dk_removes(1)) auto
  with Cons.IH [of ?d] Cons.prems show ?case by (auto simp: remove_each_def)
qed (simp add: remove_each_def)

lemma net_removes:
  "daemon_documented dk made ctrs \<Longrightarrow>
   made (fold (\<lambda>n d. snd (dk_net_remove dk n d)) nets d) = made d
   \<and> ctrs (fold (\<lambda>n d. snd (dk_net_remove dk n d)) nets d) = ctrs d"
  by (induction nets arbitrary: d) (simp_all add: dk_removes(2))

lemma labels_no_equals [simp]: "CHR ''='' \<notin> set dl_sandbox_id" "CHR ''='' \<notin> set dl_role"
  by (simp_all add: dl_sandbox_id_def dl_role_def)

lemma lists_documented:
  assumes "daemon_documented dk made ctrs" and "CHR ''='' \<notin> set k" and "dk_list dk (k @ ''='' @ v) d = Inr ids"
  shows "set ids = {c \<in> ctrs d. \<exists>n ls. made d c = Some (n, ls) \<and> map_of ls k = Some v}"
  using assms unfolding daemon_documented_def reads_documented_def by blast

lemma inspects_documented:
  assumes "daemon_documented dk made ctrs" and "made d i = Some a" and "dk_inspect dk i d = Inr insp"
  shows "i \<in> ctrs d" and "ci_labels insp = Some ls \<Longrightarrow> map_of (snd a) = map_of ls"
proof -
  have "i \<in> ctrs d \<and> (\<forall>ls. ci_labels insp = Some ls \<longrightarrow> map_of ls = map_of (snd a))"
    using assms unfolding daemon_documented_def reads_documented_def by blast
  then show "i \<in> ctrs d" "ci_labels insp = Some ls \<Longrightarrow> map_of (snd a) = map_of ls" by simp_all
qed

text \<open>\<open>Remove\<close>: the container goes, and with it everything labelled with its sandbox, which is at most
  proxies.\<close>

lemma docker_remove_world:
  assumes doc: "daemon_documented dk made ctrs" and inv: "dk_inv made ctrs d"
    and i: "i \<in> dk_issued made d" and rm: "docker_remove dk i d = (res, d')"
  shows "made d' = made d \<and> ctrs d' \<subseteq> ctrs d - {i} \<and> dk_live made ctrs d - {i} \<subseteq> ctrs d'"
proof -
  obtain a where a: "made d i = Some a" "\<not> is_proxy a" using i by (auto simp: dk_issued_def)
  let ?d1 = "snd (dk_remove dk i True d)"
  have d1: "made ?d1 = made d" "ctrs ?d1 = ctrs d - {i}" using dk_removes(1) [OF doc] a(1) by auto
  define s where "s = (case dk_inspect dk i d of Inl _ \<Rightarrow> [] | Inr insp \<Rightarrow>
      (case ci_labels insp of None \<Rightarrow> [] | Some ls \<Rightarrow> (case map_of ls dl_sandbox_id of None \<Rightarrow> [] | Some s \<Rightarrow> s)))"
  have d': "d' = (if s = [] then ?d1 else cleanup_sandbox_group dk s ?d1)"
    using rm unfolding docker_remove_def Let_def s_def [symmetric] by simp
  have s: "s \<noteq> [] \<Longrightarrow> \<exists>insp ls. dk_inspect dk i d = Inr insp \<and> ci_labels insp = Some ls \<and> map_of ls dl_sandbox_id = Some s"
    by (auto simp: s_def split: sum.splits option.splits)
  show ?thesis
  proof (cases "s = []")
    case True
    then show ?thesis using d' d1 by (auto simp: dk_live_def)
  next
    case False
    then obtain insp ls where insp: "dk_inspect dk i d = Inr insp" "ci_labels insp = Some ls"
      "map_of ls dl_sandbox_id = Some s" using s by blast
    from inspects_documented [OF doc a(1) insp(1)] insp(2,3)
    have here: "i \<in> ctrs d" "map_of (snd a) dl_sandbox_id = Some s" by (simp_all add: insp)
    have name: "fst b = container_name_prefix @ s"
      if "c \<in> ctrs d" "made d c = Some b" "\<not> is_proxy b" "map_of (snd b) dl_sandbox_id = Some s" for c b
      using inv that False unfolding dk_inv_def is_proxy_def by blast
    let ?X = "{c \<in> ctrs ?d1. \<exists>n ls. made ?d1 c = Some (n, ls) \<and> map_of ls dl_sandbox_id = Some s}"
    have X: "c \<notin> dk_live made ctrs d" if "c \<in> ?X" for c
    proof
      assume "c \<in> dk_live made ctrs d"
      then obtain b where b: "c \<in> ctrs d" "made d c = Some b" "\<not> is_proxy b" by (auto simp: dk_live_def)
      have "c \<in> ctrs d - {i}" "\<exists>n ls. made d c = Some (n, ls) \<and> map_of ls dl_sandbox_id = Some s"
        using that unfolding d1 by simp_all
      then have "c \<noteq> i" "map_of (snd b) dl_sandbox_id = Some s" using b(2) by auto
      with name [OF b this(2)] name [OF here(1) a here(2)] have "fst b = fst a" by simp
      with dk_inv_names [OF inv b(1) here(1) b(2) a(1)] \<open>c \<noteq> i\<close> show False by blast
    qed
    have "made d' = made ?d1 \<and> (ctrs d' = ctrs ?d1 \<or> ctrs d' = ctrs ?d1 - ?X)"
    proof (cases "dk_list dk (dl_sandbox_id @ ''='' @ s) ?d1")
      case (Inl e)
      then show ?thesis using d' False net_removes [OF doc]
        by (auto simp: cleanup_sandbox_group_def Let_def split: sum.splits)
    next
      case (Inr ids)
      have ids: "set ids = ?X" by (rule lists_documented [OF doc _ Inr]) simp
      then have "made (remove_each dk ids ?d1) = made ?d1 \<and> ctrs (remove_each dk ids ?d1) = ctrs ?d1 - ?X"
        using remove_each_removes [OF doc, of ids ?d1] by auto
      then show ?thesis using d' False Inr net_removes [OF doc]
        by (auto simp: cleanup_sandbox_group_def Let_def split: sum.splits)
    qed
    then have "made d' = made d" "ctrs d' \<subseteq> ctrs d - {i}" "ctrs d - {i} - ?X \<subseteq> ctrs d'" using d1(2) unfolding d1(1) by auto
    moreover have "dk_live made ctrs d \<subseteq> ctrs d" by (auto simp: dk_live_def)
    ultimately show ?thesis using X by blast
  qed
qed

text \<open>\<open>Create\<close>: the container, and with an allowlist the proxy of its sandbox; what an attempt that
  fails has made is removed again.\<close>

lemma create_container_adds:
  assumes "daemon_documented dk made ctrs" and "create_container dk cfg host net name img d = (res, d')"
  shows "case res of
      Inr i \<Rightarrow> \<exists>n. (name \<noteq> [] \<longrightarrow> n = name) \<and> adds_container made ctrs i (n, cc_labels cfg) d d'
    | Inl e \<Rightarrow> made d' = made d \<and> ctrs d' = ctrs d"
proof -
  note doc = assms(1)
  obtain r1 d1 where c1: "dk_create dk cfg host net name d = (r1, d1)" by fastforce
  show ?thesis
  proof (cases r1)
    case (Inr i)
    with assms(2) c1 dk_creates(1) [OF doc c1 [unfolded Inr]] show ?thesis by (auto simp: create_container_def)
  next
    case (Inl e)
    note same = dk_creates(2) [OF doc c1 [unfolded Inl], THEN same_simps]
    obtain r2 d2 where p: "pull_image dk img d1 = (r2, d2)" by fastforce
    obtain r3 d3 where c3: "dk_create dk cfg host net name d2 = (r3, d3)" by fastforce
    have same2: "made d2 = made d" "ctrs d2 = ctrs d" using same dk_frames(5) [OF doc p] by simp_all
    show ?thesis
    proof (cases "is_not_found e \<and> r2 = None")
      case True
      then have res: "d' = d3" "(case r3 of Inr i \<Rightarrow> res = Inr i | Inl e' \<Rightarrow> \<exists>e. res = Inl e)"
        using assms(2) c1 Inl p c3 by (auto simp: create_container_def split: sum.splits)
      show ?thesis
      proof (cases r3)
        case (Inr i)
        with res dk_creates(1) [OF doc c3 [unfolded Inr]] same2 show ?thesis by (auto simp: adds_container_def)
      next
        case (Inl e')
        with res dk_creates(2) [OF doc c3 [unfolded Inl], THEN same_simps] same2 show ?thesis by auto
      qed
    next
      case False
      with assms(2) c1 Inl p same same2 show ?thesis
        by (auto simp: create_container_def split: if_splits option.splits)
    qed
  qed
qed

lemma proxy_labels: "map_of (cc_labels (fst (proxy_config_for img s sp))) dl_sandbox_id = Some s"
  by (simp add: proxy_config_for_def Let_def merge_map_def maps_copy_def dl_sandbox_id_def dl_role_def dl_managed_def)

definition adds_proxy :: "'d made \<Rightarrow> ('d \<Rightarrow> string set) \<Rightarrow> string \<Rightarrow> string \<Rightarrow> 'd \<Rightarrow> 'd \<Rightarrow> bool" where
  "adds_proxy made ctrs s p d d' \<longleftrightarrow> (\<exists>ls. map_of ls dl_sandbox_id = Some s
     \<and> adds_container made ctrs p (proxy_name_prefix @ s, ls) d d')"

lemma added_removed:
  assumes doc: "daemon_documented dk made ctrs" and inv: "dk_inv made ctrs d"
    and add: "adds_container made ctrs p a d d1"
    and d2: "made d2 = made d1" "ctrs d2 = ctrs d1"
  shows "dk_grows made ctrs d (snd (dk_remove dk p v d2))"
proof -
  have p: "p \<notin> ctrs d" using inv add by (auto simp: dk_inv_def adds_container_def)
  have "made (snd (dk_remove dk p v d2)) = made d1 \<and> ctrs (snd (dk_remove dk p v d2)) = ctrs d1 - {p}"
    using dk_removes(1) [OF doc, of d2 p v] add d2 by (simp add: adds_container_def)
  with add p show ?thesis by (auto simp: dk_grows_def adds_container_def map_le_def)
qed

lemma grows_same: "dk_grows made ctrs d d1 \<Longrightarrow> made d2 = made d1 \<Longrightarrow> ctrs d2 = ctrs d1 \<Longrightarrow> dk_grows made ctrs d d2"
  by (simp add: dk_grows_def)

lemma grows_trans: "dk_grows made ctrs d d1 \<Longrightarrow> dk_grows made ctrs d1 d2 \<Longrightarrow> dk_grows made ctrs d d2"
  by (auto simp: dk_grows_def intro: map_le_trans)

lemma provision_proxy_world:
  assumes doc: "daemon_documented dk made ctrs" and inv: "dk_inv made ctrs d"
    and pp: "provision_proxy env dk s sp d = (res, d')"
  shows "case res of
      Inl e \<Rightarrow> dk_grows made ctrs d d'
    | Inr (network, p) \<Rightarrow> network \<noteq> [] \<and> p \<noteq> [] \<and> adds_proxy made ctrs s p d d'"
proof -
  let ?img = "env_or env ''KP_PROXY_IMAGE'' default_proxy_image"
  let ?n = "network_name_prefix @ s"
  obtain cfg host net where cfg: "proxy_config_for ?img s sp = (cfg, host, net)" by (cases "proxy_config_for ?img s sp")
  have lab: "map_of (cc_labels cfg) dl_sandbox_id = Some s" using proxy_labels [of ?img s sp] cfg by simp
  obtain cr d1 where cr: "dk_create dk cfg host net (proxy_name_prefix @ s) d = (cr, d1)" by fastforce
  show ?thesis
  proof (cases cr)
    case (Inl e)
    with pp cfg cr dk_creates(2) [OF doc cr [unfolded Inl], THEN same_simps] dk_removes(2) [OF doc] show ?thesis
      by (auto simp: provision_proxy_def Let_def dk_grows_def)
  next
    case (Inr p)
    have add: "adds_container made ctrs p (proxy_name_prefix @ s, cc_labels cfg) d d1"
      using dk_creates(1) [OF doc cr [unfolded Inr]] by (auto simp: proxy_name_prefix_def)
    obtain sr d2 where sr: "dk_start dk p d1 = (sr, d2)" by fastforce
    obtain br d3 where br: "dk_net_connect dk ''bridge'' p d2 = (br, d3)" by fastforce
    have d2: "made d2 = made d1" "ctrs d2 = ctrs d1" using dk_frames(1) [OF doc sr] by auto
    then have d3: "made d3 = made d1" "ctrs d3 = ctrs d1" using dk_frames(4) [OF doc br] by auto
    have undo: "dk_grows made ctrs d (snd (dk_net_remove dk ?n (snd (dk_remove dk p False d'))))"
      if "made d' = made d1" "ctrs d' = ctrs d1" for d'
      using grows_same [OF added_removed [OF doc inv add that, of False]] dk_removes(2) [OF doc] by blast
    have "(res, d') = (case sr of
           Some e \<Rightarrow> (Inl (wrap ''proxy start'' e), snd (dk_net_remove dk ?n (snd (dk_remove dk p False d2))))
         | None \<Rightarrow> (case br of
             Some e \<Rightarrow> (Inl (wrap ''proxy attach to bridge'' e),
                snd (dk_net_remove dk ?n (snd (dk_remove dk p False d3))))
           | None \<Rightarrow> (Inr (?n, p), d3)))"
      using pp cfg cr Inr sr br by (simp add: provision_proxy_def Let_def split: option.splits)
    moreover have "adds_proxy made ctrs s p d d3" "p \<noteq> []"
      using add d3 lab by (auto simp: adds_proxy_def adds_container_def)
    ultimately show ?thesis
      using undo [OF d2] undo [OF d3] by (cases sr; cases br) (simp_all add: network_name_prefix_def)
  qed
qed

lemma maybe_provision_adds:
  assumes doc: "daemon_documented dk made ctrs" and inv: "dk_inv made ctrs d"
    and mp: "maybe_provision_egress env dk s sp d = (res, d')"
  shows "case res of
      Inl e \<Rightarrow> dk_grows made ctrs d d'
    | Inr (network, p) \<Rightarrow> if p = [] then network = [] \<and> d' = d
        else s \<noteq> [] \<and> network \<noteq> [] \<and> adds_proxy made ctrs s p d d'"
proof (cases "re_mode (sp_egress sp) = ''allowlist'' \<and> s \<noteq> []")
  case False
  with mp show ?thesis by (auto simp: maybe_provision_egress_def Let_def split: if_splits)
next
  case True
  obtain nr d1 where nc: "dk_net_create dk (network_name_prefix @ s) True
      [(dl_sandbox_id, s), (dl_role, role_network), (dl_managed, ''true'')] d = (nr, d1)" by fastforce
  have d1: "made d1 = made d" "ctrs d1 = ctrs d" using dk_frames(3) [OF doc nc] by simp_all
  show ?thesis
  proof (cases nr)
    case (Some e)
    with mp True nc d1 show ?thesis by (auto simp: maybe_provision_egress_def Let_def dk_grows_def)
  next
    case None
    with mp True nc have pp: "provision_proxy env dk s sp d1 = (res, d')" by (simp add: maybe_provision_egress_def Let_def)
    have "dk_inv made ctrs d1" by (rule grows_contract(1) [OF inv]) (simp add: dk_grows_def d1)
    from provision_proxy_world [OF doc this pp] True d1 show ?thesis
      by (auto simp: dk_grows_def adds_proxy_def adds_container_def split: sum.splits)
  qed
qed

lemma container_name_not_proxy [simp]: "container_name_prefix @ s \<noteq> proxy_name_prefix @ s"
  by (auto simp: container_name_prefix_def proxy_name_prefix_def dest: arg_cong [where f = length])

lemma rollback_removes:
  assumes doc: "daemon_documented dk made ctrs" and p: "p \<noteq> [] \<Longrightarrow> made d p \<noteq> None"
  shows "made (rollback dk p n d) = made d \<and> ctrs (rollback dk p n d) = (if p = [] then ctrs d else ctrs d - {p})"
  using p dk_removes [OF doc] by (simp add: rollback_def Let_def)

text \<open>With the proxy, if there is one, the contract sees what it saw before.\<close>

lemma provisioned_contract:
  assumes doc: "daemon_documented dk made ctrs" and inv: "dk_inv made ctrs d"
    and mp: "maybe_provision_egress env dk
        (case map_of (sp_labels sp) dl_sandbox_id of None \<Rightarrow> [] | Some i \<Rightarrow> i) sp d = (Inr (n, p), d1)"
  shows "dk_inv made ctrs d1" and "dk_live made ctrs d1 = dk_live made ctrs d" and "dk_issued made d1 = dk_issued made d"
    and "p \<noteq> [] \<Longrightarrow> made d1 p \<noteq> None \<and> p \<notin> dk_live made ctrs d1"
proof -
  define s where "s = (case map_of (sp_labels sp) dl_sandbox_id of None \<Rightarrow> [] | Some i \<Rightarrow> i)"
  note prov = maybe_provision_adds [OF doc inv mp [folded s_def]]
  have "dk_inv made ctrs d1 \<and> dk_live made ctrs d1 = dk_live made ctrs d \<and> dk_issued made d1 = dk_issued made d
    \<and> (p \<noteq> [] \<longrightarrow> made d1 p \<noteq> None \<and> p \<notin> dk_live made ctrs d1)"
  proof (cases "p = []")
    case True
    then show ?thesis using prov inv by simp
  next
    case False
    then obtain ls where s: "s \<noteq> []" "map_of ls dl_sandbox_id = Some s"
      and add: "adds_container made ctrs p (proxy_name_prefix @ s, ls) d d1"
      using prov by (auto simp: adds_proxy_def)
    have pr: "is_proxy (proxy_name_prefix @ s, ls)" using s by (auto simp: is_proxy_def)
    have "made d1 p = Some (proxy_name_prefix @ s, ls)" using add by (simp add: adds_container_def)
    with pr have "p \<notin> dk_live made ctrs d1" "made d1 p \<noteq> None" by (auto simp: dk_live_def)
    then show ?thesis using add_contract(1-3) [OF inv add] pr s(2) by simp
  qed
  then show "dk_inv made ctrs d1" "dk_live made ctrs d1 = dk_live made ctrs d" "dk_issued made d1 = dk_issued made d"
    "p \<noteq> [] \<Longrightarrow> made d1 p \<noteq> None \<and> p \<notin> dk_live made ctrs d1"
    by blast+
qed

lemma docker_create_contract:
  assumes doc: "daemon_documented dk made ctrs" and inv: "dk_inv made ctrs d" and sp: "named_spec sp"
    and cr: "docker_create env dk sp d = (res, d')"
  shows "case res of
      Inl e \<Rightarrow> dk_inv made ctrs d' \<and> dk_live made ctrs d' = dk_live made ctrs d \<and> dk_issued made d \<subseteq> dk_issued made d'
    | Inr h \<Rightarrow> dk_inv made ctrs d' \<and> h_id h \<notin> dk_issued made d
        \<and> insert (h_id h) (dk_issued made d) \<subseteq> dk_issued made d'
        \<and> dk_live made ctrs d' = insert (h_id h) (dk_live made ctrs d)"
proof -
  define s where "s = (case map_of (sp_labels sp) dl_sandbox_id of None \<Rightarrow> [] | Some i \<Rightarrow> i)"
  obtain pr d1 where pr: "maybe_provision_egress env dk s sp d = (pr, d1)" by fastforce
  note prov = maybe_provision_adds [OF doc inv pr]
  show ?thesis
  proof (cases pr)
    case (Inl e)
    then have "res = Inl e" "d' = d1" using cr pr by (simp_all add: docker_create_def Let_def s_def [symmetric])
    with Inl prov grows_contract [OF inv, of d1] show ?thesis by simp
  next
    case (Inr np)
    obtain n p where np: "np = (n, p)" by (cases np)
    obtain cfg host net where cfg: "build_container_config (dk_nano_cpus dk) sp n = (cfg, host, net)"
      by (cases "build_container_config (dk_nano_cpus dk) sp n")
    let ?name = "if sp_name sp \<noteq> [] then container_name_prefix @ sp_name sp else []"
    have lab: "cc_labels cfg = sp_labels sp" using cfg by (auto simp: build_container_config_def Let_def split: if_splits)
    note proxy = provisioned_contract [OF doc inv pr [unfolded Inr np s_def]]
    obtain c2 d2 where c2: "create_container dk cfg host net ?name (sp_image sp) d1 = (c2, d2)" by fastforce
    note made = create_container_adds [OF doc c2]
    have d': "(res, d') = (case c2 of
        Inl e \<Rightarrow> (Inl e, rollback dk p n d2)
      | Inr i \<Rightarrow> (case dk_start dk i d2 of
          (Some e, d3) \<Rightarrow> (Inl (wrap ''container start'' e), rollback dk p n (snd (dk_remove dk i False d3)))
        | (None, d3) \<Rightarrow> (Inr \<lparr> h_id = i, h_name = ?name \<rparr>, d3)))"
      using cr pr Inr np cfg c2 by (simp add: docker_create_def Let_def s_def [symmetric])
    have undo: "dk_inv made ctrs (rollback dk p n d3) \<and> dk_live made ctrs (rollback dk p n d3) = dk_live made ctrs d
        \<and> dk_issued made d \<subseteq> dk_issued made (rollback dk p n d3)" if g: "dk_grows made ctrs d1 d3" for d3
    proof -
      note c3 = grows_contract [OF proxy(1) g]
      have "p \<noteq> [] \<Longrightarrow> made d3 p \<noteq> None" using proxy(4) g by (auto simp: dk_grows_def map_le_def dom_def)
      note rb = rollback_removes [OF doc this, of n]
      show ?thesis using remove_contract [OF c3(1), of "rollback dk p n d3" "if p = [] then {} else {p}"] rb c3(2,3) proxy
        by (auto split: if_splits)
    qed
    show ?thesis
    proof (cases c2)
      case (Inl e)
      with made have "dk_grows made ctrs d1 d2" by (simp add: dk_grows_def)
      from undo [OF this] d' Inl show ?thesis by simp
    next
      case c: (Inr i)
      obtain m where m: "?name \<noteq> [] \<longrightarrow> m = ?name" and add: "adds_container made ctrs i (m, sp_labels sp) d1 d2"
        using made by (auto simp: c lab)
      have name: "m = container_name_prefix @ k" if "map_of (sp_labels sp) dl_sandbox_id = Some k" "k \<noteq> []" for k
        using sp m that by (auto simp: named_spec_def dl_sandbox_id_def)
      then have np: "\<not> is_proxy (m, sp_labels sp)"
        by (auto simp: is_proxy_def container_name_prefix_def proxy_name_prefix_def)
      note added = add_contract [OF proxy(1) add, unfolded fst_conv snd_conv]
      obtain st d3 where st: "dk_start dk i d2 = (st, d3)" by fastforce
      have d3: "made d3 = made d2" "ctrs d3 = ctrs d2" using dk_frames(1) [OF doc st] by simp_all
      show ?thesis
      proof (cases st)
        case (Some e)
        have "dk_grows made ctrs d1 (snd (dk_remove dk i False d3))"
          by (rule added_removed [OF doc proxy(1) add d3])
        from undo [OF this] d' c st Some show ?thesis by simp
      next
        case None
        have "dk_grows made ctrs d2 d3" by (simp add: dk_grows_def d3)
        from grows_contract [OF added(1) this] added(2-4) np name proxy(2,3) d' c st None show ?thesis by auto
      qed
    qed
  qed
qed

section \<open>Docker as a backend of the manager\<close>

lemma dk_inv_same:
  assumes "dk_inv made ctrs d" and "made d' = made d" and "ctrs d' = ctrs d"
  shows "dk_inv made ctrs d' \<and> dk_issued made d' = dk_issued made d"
  using grows_contract [OF assms(1), of d'] assms(2,3) by (simp add: dk_grows_def dk_issued_def)

lemma docker_exec_frame:
  assumes doc: "daemon_documented dk made ctrs" and "docker_exec dk i x d = (chunks, res, d')"
  shows "made d' = made d \<and> ctrs d' = ctrs d"
proof -
  obtain r1 d1 where ec: "dk_exec_create dk i (exec_config_of x) d = (r1, d1)" by fastforce
  note f1 = dk_frames(6) [OF doc ec]
  show ?thesis
  proof (cases r1)
    case (Inr ex)
    obtain r2 d2 where ea: "dk_exec_attach dk ex (xs_stdin x) d1 = (r2, d2)" by fastforce
    have "d' = d2" using assms(2) ec Inr ea
      by (auto simp: docker_exec_def Let_def split: sum.splits prod.splits option.splits)
    then show ?thesis using f1 dk_frames(7) [OF doc ea] by simp
  qed (use assms(2) ec f1 in \<open>simp add: docker_exec_def\<close>)
qed

lemma docker_stop_frame:
  assumes doc: "daemon_documented dk made ctrs" and "docker_stop dk i d = (res, d')"
  shows "made d' = made d \<and> ctrs d' = ctrs d"
proof -
  obtain r1 d1 where st: "dk_stop dk i default_stop_timeout d = (r1, d1)" by fastforce
  then have "d' = d1" using assms(2) by (cases r1) (simp_all add: docker_stop_def)
  then show ?thesis using dk_frames(2) [OF doc st] by simp
qed

lemma clean_pool_orphans_world:
  assumes doc: "daemon_documented dk made ctrs" and inv: "dk_inv made ctrs d"
    and "clean_pool_orphans dk d = (res, d')"
  shows "dk_inv made ctrs d' \<and> dk_issued made d' = dk_issued made d"
proof (cases "dk_list dk (dl_role @ ''=pool-warm'') d")
  case (Inr ids)
  then have "dk_list dk (dl_role @ ''='' @ ''pool-warm'') d = Inr ids" by simp
  from lists_documented [OF doc _ this] have "set ids \<subseteq> dom (made d)" by auto
  from remove_each_removes [OF doc this] assms(3) Inr
  have "made d' = made d" "ctrs d' = ctrs d - set ids" by (simp_all add: clean_pool_orphans_def)
  from remove_contract [OF inv this] show ?thesis by simp
qed (use assms in \<open>simp add: clean_pool_orphans_def\<close>)

lemma docker_ensure_frame:
  assumes doc: "daemon_documented dk made ctrs" and "docker_ensure_image dk ref d = (res, d')"
  shows "made d' = made d \<and> ctrs d' = ctrs d"
proof -
  obtain r1 d1 where p: "pull_image dk ref d = (r1, d1)" by fastforce
  then have "d' = d \<or> d' = d1" using assms(2)
    by (auto simp: docker_ensure_image_def split: option.splits if_splits)
  then show ?thesis using dk_frames(5) [OF doc p] by auto
qed

lemma docker_contract:
  assumes doc: "daemon_documented dk made ctrs"
  shows "container_runtime (docker_create env dk) (docker_remove dk) (dk_live made ctrs) (dk_issued made) (dk_inv made ctrs)"
proof
  show "dk_inv made ctrs r' \<and> h_id h \<notin> dk_issued made r \<and> insert (h_id h) (dk_issued made r) \<subseteq> dk_issued made r'
      \<and> dk_live made ctrs r' = insert (h_id h) (dk_live made ctrs r)"
    if "dk_inv made ctrs r" "named_spec sp" "docker_create env dk sp r = (Inr h, r')" for r sp h r'
    using docker_create_contract [OF doc that] by simp
  show "dk_inv made ctrs r' \<and> dk_live made ctrs r' = dk_live made ctrs r \<and> dk_issued made r \<subseteq> dk_issued made r'"
    if "dk_inv made ctrs r" "named_spec sp" "docker_create env dk sp r = (Inl e, r')" for r sp e r'
    using docker_create_contract [OF doc that] by simp
  show "dk_inv made ctrs r' \<and> dk_issued made r' = dk_issued made r \<and> dk_live made ctrs r' \<subseteq> dk_live made ctrs r
      \<and> dk_live made ctrs r - {i} \<subseteq> dk_live made ctrs r' \<and> (res = None \<longrightarrow> i \<notin> dk_live made ctrs r')"
    if "dk_inv made ctrs r" "i \<in> dk_issued made r" "docker_remove dk i r = (res, r')" for r i res r'
  proof -
    note w = docker_remove_world [OF doc that]
    have "ctrs r' = ctrs r - (ctrs r - ctrs r')" using w by blast
    with w remove_contract [OF that(1), of r' "ctrs r - ctrs r'"] show ?thesis by (auto simp: dk_live_def)
  qed
  show "dk_live made ctrs r \<subseteq> dk_issued made r" for r by (auto simp: dk_live_def dk_issued_def)
qed

lemma docker_managed:
  assumes doc: "daemon_documented dk made ctrs"
  shows "managed_runtime (docker_ops env dk) (dk_live made ctrs) (dk_issued made) (dk_inv made ctrs)"
proof (intro managed_runtime.intro managed_runtime_axioms.intro)
  show "container_runtime (rt_create (docker_ops env dk)) (rt_remove (docker_ops env dk)) (dk_live made ctrs)
      (dk_issued made) (dk_inv made ctrs)"
    using docker_contract [OF doc, of env] by (simp add: docker_ops_def)
  fix r r' :: 'a and i x chunks xres and sres :: "rt_error option" and eres ref clean ensure
  assume inv: "dk_inv made ctrs r"
  show "dk_inv made ctrs r' \<and> dk_issued made r' = dk_issued made r"
    if "rt_exec (docker_ops env dk) i x r = (chunks, xres, r')"
    using docker_exec_frame [OF doc, of i x r chunks xres r'] dk_inv_same [OF inv, of r'] that by (simp add: docker_ops_def)
  show "dk_inv made ctrs r' \<and> dk_issued made r' = dk_issued made r"
    if "rt_stop (docker_ops env dk) i r = (sres, r')"
    using docker_stop_frame [OF doc, of i r sres r'] dk_inv_same [OF inv, of r'] that by (simp add: docker_ops_def)
  show "dk_inv made ctrs r' \<and> dk_issued made r' = dk_issued made r"
    if "rt_clean_orphans (docker_ops env dk) = Some clean" "clean r = (sres, r')"
    using clean_pool_orphans_world [OF doc inv, of sres r'] that by (auto simp: docker_ops_def)
  show "dk_inv made ctrs r' \<and> dk_issued made r' = dk_issued made r"
    if "rt_ensure_image (docker_ops env dk) = Some ensure" "ensure ref r = (eres, r')"
    using docker_ensure_frame [OF doc, of ref r eres r'] dk_inv_same [OF inv, of r'] that by (auto simp: docker_ops_def)
qed

lemma docker_manager_env:
  assumes doc: "daemon_documented dk made ctrs"
  shows "manager_env (docker_ops env dk) (dk_live made ctrs) (dk_issued made) (dk_inv made ctrs)
      sqlite_ops sqlite_view sqlite_ok sqlite_due"
proof -
  note m = docker_managed [OF doc, of env]
  show ?thesis
    by (intro manager_env.intro m pool_backend.intro managed_runtime.axioms(1) [OF m] sqlite.sandbox_store_axioms)
qed

section \<open>Properties\<close>

text \<open>A daemon for the witness: it remembers every container it made, refuses a name in use, and answers
  reads from what it remembers.\<close>

record memo_daemon =
  md_made :: "(string \<times> string \<times> smap) list"
  md_ctrs :: "string list"

definition longer :: "string list \<Rightarrow> string" where
  "longer xs = replicate (Suc (sum_list (map length xs))) CHR ''c''"

lemma longer_new [simp]: "longer xs \<notin> set xs" "longer xs \<noteq> []"
proof -
  have "length c \<le> sum_list (map length xs)" if "c \<in> set xs" for c
    using that by (induction xs) auto
  from this [of "longer xs"] show "longer xs \<notin> set xs" by (auto simp: longer_def)
qed (simp add: longer_def)

definition md_names :: "memo_daemon \<Rightarrow> string list" where
  "md_names d = map (\<lambda>(i, n, ls). n) (md_made d)"

definition md_create ::
    "container_config \<Rightarrow> host_config \<Rightarrow> net_config option \<Rightarrow> string \<Rightarrow> memo_daemon
      \<Rightarrow> (docker_error + string) \<times> memo_daemon" where
  "md_create cfg host net name d =
     (if name \<in> set (md_names d) then (Inl (DkError ''name in use''), d)
      else (let i = longer (map fst (md_made d)); n = (if name = [] then longer (md_names d) else name)
            in (Inr i, d\<lparr> md_made := (i, n, cc_labels cfg) # md_made d, md_ctrs := i # md_ctrs d \<rparr>)))"

definition md_matches :: "string \<Rightarrow> string \<times> smap \<Rightarrow> bool" where
  "md_matches l a = (map_of (snd a) (takeWhile (\<lambda>c. c \<noteq> CHR ''='') l) = Some (tl (dropWhile (\<lambda>c. c \<noteq> CHR ''='') l)))"

definition md_list :: "string \<Rightarrow> memo_daemon \<Rightarrow> docker_error + string list" where
  "md_list l d = Inr (filter (\<lambda>i. case map_of (md_made d) i of None \<Rightarrow> False | Some a \<Rightarrow> md_matches l a) (md_ctrs d))"

definition md_inspect :: "string \<Rightarrow> memo_daemon \<Rightarrow> docker_error + inspection" where
  "md_inspect i d = (case map_of (md_made d) i of
       Some a \<Rightarrow> (if i \<in> set (md_ctrs d)
         then Inr \<lparr> ci_labels = Some (snd a), ci_status = ''running'', ci_exit_code = 0, ci_networks = Some [] \<rparr>
         else Inl (DkNotFound i))
     | None \<Rightarrow> Inl (DkNotFound i))"

definition memo_docker :: "memo_daemon docker" where
  "memo_docker = \<lparr> dk_create = md_create, dk_start = (\<lambda>i d. (None, d)), dk_stop = (\<lambda>i t d. (None, d)),
     dk_remove = (\<lambda>i v d. (None, d\<lparr> md_ctrs := removeAll i (md_ctrs d) \<rparr>)), dk_inspect = md_inspect,
     dk_list = md_list, dk_net_create = (\<lambda>n priv ls d. (None, d)), dk_net_remove = (\<lambda>n d. (None, d)),
     dk_net_connect = (\<lambda>n i d. (None, d)), dk_net_list = (\<lambda>l d. Inr []),
     dk_image_inspect = (\<lambda>r d. None), dk_image_pull = (\<lambda>r d. (Inr \<lparr> pl_messages = [], pl_read_err = None \<rparr>, d)),
     dk_exec_create = (\<lambda>i x d. (Inr i, d)), dk_exec_attach = (\<lambda>i s d. (Inr ([], None), d)),
     dk_exec_inspect = (\<lambda>i d. Inr 0), dk_ping = (\<lambda>d. None), dk_nano_cpus = (\<lambda>q. 0), dk_elapsed = (\<lambda>d. 0) \<rparr>"

definition md_view :: "memo_daemon made" where
  "md_view d = map_of (md_made d)"

definition md_set :: "memo_daemon \<Rightarrow> string set" where
  "md_set d = set (md_ctrs d)"

lemma md_name: "md_view d c = Some a \<Longrightarrow> fst a \<in> set (md_names d)"
  by (cases a) (force simp: md_view_def md_names_def dest: map_of_SomeD)

lemma md_create_documented: "creations_documented memo_docker md_view md_set"
proof -
  have "\<exists>n. (name \<noteq> [] \<longrightarrow> n = name) \<and> adds_container md_view md_set i (n, cc_labels cfg) d d'"
    if c: "md_create cfg host net name d = (Inr i, d')" for cfg host net name d i d'
  proof -
    let ?n = "if name = [] then longer (md_names d) else name"
    have i: "i = longer (map fst (md_made d))" and free: "?n \<notin> set (md_names d)"
      and d': "d' = d\<lparr> md_made := (i, ?n, cc_labels cfg) # md_made d, md_ctrs := i # md_ctrs d \<rparr>"
      using c by (auto simp: md_create_def Let_def split: if_splits)
    have "map_of (md_made d) i = None"
      using longer_new(1) [of "map fst (md_made d)"] i by (metis map_of_eq_None_iff list.set_map)
    moreover have "fst a' \<noteq> ?n" if "md_view d c = Some a'" for c a'
      using md_name [OF that] free by auto
    ultimately have "adds_container md_view md_set i (?n, cc_labels cfg) d d'"
      using i unfolding adds_container_def by (auto simp: d' md_view_def md_set_def)
    then show ?thesis by (intro exI [of _ ?n]) simp
  qed
  then show ?thesis
    unfolding creations_documented_def
    by (auto simp: memo_docker_def same_containers_def md_create_def Let_def split: prod.splits sum.splits if_splits)
qed

lemma md_list_documented:
  assumes "CHR ''='' \<notin> set k" and "md_list (k @ ''='' @ v) d = Inr ids"
  shows "set ids = {c \<in> md_set d. \<exists>n ls. md_view d c = Some (n, ls) \<and> map_of ls k = Some v}"
proof -
  have "takeWhile (\<lambda>c. c \<noteq> CHR ''='') (k @ ''='' @ v) = k" "dropWhile (\<lambda>c. c \<noteq> CHR ''='') (k @ ''='' @ v) = ''='' @ v"
    using assms(1) by (auto simp: takeWhile_append dropWhile_append)
  then have "md_matches (k @ ''='' @ v) a = (map_of (snd a) k = Some v)" for a by (simp add: md_matches_def)
  then show ?thesis using assms(2) by (auto simp: md_list_def md_set_def md_view_def split: option.splits)
qed

lemma memo_documented: "daemon_documented memo_docker md_view md_set"
  unfolding daemon_documented_def
proof (intro conjI md_create_documented)
  show "removals_documented memo_docker md_view md_set"
    by (auto simp: removals_documented_def memo_docker_def md_view_def md_set_def)
  show "calls_documented memo_docker md_view md_set"
    by (simp add: calls_documented_def memo_docker_def same_containers_def)
  have "i \<in> md_set d \<and> (\<forall>ls. ci_labels insp = Some ls \<longrightarrow> map_of ls = map_of (snd a))"
    if "md_view d i = Some a" "md_inspect i d = Inr insp" for i d insp a
    using that by (auto simp: md_inspect_def md_view_def md_set_def split: if_splits)
  then show "reads_documented memo_docker md_view md_set"
    unfolding reads_documented_def using md_list_documented by (auto simp: memo_docker_def)
qed




definition demo_on_docker :: "(memo_daemon, sqlite) manager" where
  "demo_on_docker = mgr_run (docker_ops [] memo_docker) sqlite_ops
     [OpCreate ''u1'' 0 demo_options, OpCreate ''u2'' 1 demo_options]
     \<lparr> m_rt = \<lparr> md_made = [], md_ctrs = [] \<rparr>, m_store = sqlite_open, m_policy = sample_policy,
       m_pools = [], m_heap = [], m_retiring = [], m_started = False, m_metrics = None,
       m_log_cap = 4096, m_logs = [] \<rparr>"


end
