(* ===== verification/Conformance.thy ===== *)
theory Conformance
  imports Backend
begin

text \<open>
  The conformance suite \<open>internal/runtime/runtimetest\<close>: four subtests that any backend has to pass, and
  what of the package \<open>testing\<close> they use. A test that calls \<open>Fatalf\<close> or \<open>Skipf\<close> goes no further; the
  functions registered with \<open>Cleanup\<close> run in any case, the last one first, and after the context of
  the test has been cancelled. A backend is therefore given twice: its operations under a live
  context and under one that is done.
\<close>

section \<open>Tests\<close>

datatype cleanup = CleanClose | CleanRemove string

text \<open>The values of a message, apart from its format.\<close>

datatype tvalue = TErr rt_error | TStr string | TInt int | TDur duration

record 'r test_run =
  tr_rt :: 'r
  tr_log :: "(string \<times> tvalue list) list"
  tr_failed :: bool
  tr_skipped :: bool
  tr_cleanups :: "cleanup list"

record 'r suite_rt =
  su_ops :: "bool \<Rightarrow> 'r runtime_ops"
  su_status :: "string \<Rightarrow> 'r \<Rightarrow> rt_error + rt_status"
  su_close :: "'r \<Rightarrow> rt_error option \<times> 'r"

definition start_test :: "'r \<Rightarrow> 'r test_run" where
  "start_test r = \<lparr> tr_rt = r, tr_log = [], tr_failed = False, tr_skipped = False, tr_cleanups = [] \<rparr>"

definition errorf :: "string \<Rightarrow> tvalue list \<Rightarrow> 'r test_run \<Rightarrow> 'r test_run" where
  "errorf fmt vs t = t\<lparr> tr_log := tr_log t @ [(fmt, vs)], tr_failed := True \<rparr>"

definition skipf :: "string \<Rightarrow> tvalue list \<Rightarrow> 'r test_run \<Rightarrow> 'r test_run" where
  "skipf fmt vs t = t\<lparr> tr_log := tr_log t @ [(fmt, vs)], tr_skipped := True \<rparr>"

definition error_if :: "bool \<Rightarrow> string \<Rightarrow> tvalue list \<Rightarrow> 'r test_run \<Rightarrow> 'r test_run" where
  "error_if c fmt vs t = (if c then errorf fmt vs t else t)"

definition on_cleanup :: "cleanup \<Rightarrow> 'r test_run \<Rightarrow> 'r test_run" where
  "on_cleanup c t = t\<lparr> tr_cleanups := c # tr_cleanups t \<rparr>"

definition run_cleanup :: "'r suite_rt \<Rightarrow> cleanup \<Rightarrow> 'r \<Rightarrow> 'r" where
  "run_cleanup s c r =
     (case c of
        CleanClose \<Rightarrow> snd (su_close s r)
      | CleanRemove i \<Rightarrow> snd (rt_remove (su_ops s True) i r))"

definition finish_test :: "'r suite_rt \<Rightarrow> 'r test_run \<Rightarrow> 'r test_run" where
  "finish_test s t = t\<lparr> tr_rt := fold (run_cleanup s) (tr_cleanups t) (tr_rt t), tr_cleanups := [] \<rparr>"

definition passed :: "'r test_run \<Rightarrow> bool" where
  "passed t \<longleftrightarrow> \<not> tr_failed t \<and> \<not> tr_skipped t"

section \<open>The subtests\<close>

definition test_image :: string where
  "test_image = ''alpine:latest''"

definition basic_spec :: spec where
  "basic_spec = \<lparr> sp_name = [], sp_image = test_image, sp_cmd = [], sp_env = [], sp_cpus = Fin 1,
     sp_memory_mb = 256, sp_pids_limit = 256, sp_user = ''1000:1000'', sp_read_only = True,
     sp_network_mode = ''none'', sp_runtime_name = [], sp_egress = \<lparr> re_mode = [], re_hosts = [] \<rparr>,
     sp_labels = [], sp_ttl = 0 \<rparr>"

definition sandbox_id_spec :: "string \<Rightarrow> spec" where
  "sandbox_id_spec i = basic_spec\<lparr> sp_name := i, sp_labels := [(''kotakpasir.sandbox-id'', i)] \<rparr>"

definition cmd_spec :: "string list \<Rightarrow> exec_spec" where
  "cmd_spec cmd = \<lparr> xs_cmd = cmd, xs_env = [], xs_work_dir = [], xs_stdin = None, xs_stdout = False, xs_stderr = False \<rparr>"

text \<open>The beginning of each test: the container, removed in the end, or what happens without it.\<close>

definition with_container ::
    "'r suite_rt \<Rightarrow> spec \<Rightarrow> (rt_error \<Rightarrow> 'r test_run \<Rightarrow> 'r test_run) \<Rightarrow> (handle \<Rightarrow> 'r test_run \<Rightarrow> 'r test_run)
      \<Rightarrow> 'r test_run \<Rightarrow> 'r test_run" where
  "with_container s sp fails body t =
     (let t1 = on_cleanup CleanClose t in
      case rt_create (su_ops s False) sp (tr_rt t1) of
        (Inl e, r) \<Rightarrow> fails e (t1\<lparr> tr_rt := r \<rparr>)
      | (Inr h, r) \<Rightarrow> body h (on_cleanup (CleanRemove (h_id h)) (t1\<lparr> tr_rt := r \<rparr>)))"

text \<open>An exec whose error ends the test.\<close>

definition exec_or_fatal ::
    "'r suite_rt \<Rightarrow> string \<Rightarrow> string list \<Rightarrow> string \<Rightarrow> (exec_result \<Rightarrow> 'r test_run \<Rightarrow> 'r test_run)
      \<Rightarrow> 'r test_run \<Rightarrow> 'r test_run" where
  "exec_or_fatal s i cmd fmt body t =
     (case rt_exec (su_ops s False) i (cmd_spec cmd) (tr_rt t) of
        (chunks, Inl e, r) \<Rightarrow> errorf fmt [TErr e] (t\<lparr> tr_rt := r \<rparr>)
      | (chunks, Inr res, r) \<Rightarrow> body res (t\<lparr> tr_rt := r \<rparr>))"

definition sh :: "string \<Rightarrow> string list" where
  "sh line = [''sh'', ''-c'', line]"

definition lifecycle_end :: "'r suite_rt \<Rightarrow> string \<Rightarrow> 'r test_run \<Rightarrow> 'r test_run" where
  "lifecycle_end s i t =
     (case rt_stop (su_ops s False) i (tr_rt t) of
        (Some e, r) \<Rightarrow> errorf ''Stop: %v'' [TErr e] (t\<lparr> tr_rt := r \<rparr>)
      | (None, r) \<Rightarrow>
          (case su_status s i r of
             Inl e \<Rightarrow> errorf ''Status after Stop: %v'' [TErr e] (t\<lparr> tr_rt := r \<rparr>)
           | Inr st \<Rightarrow>
               (let t1 = error_if (rs_state st = ''running'') ''State after Stop = %q, want non-running'' [TStr (rs_state st)]
                           (t\<lparr> tr_rt := r \<rparr>)
                in case rt_remove (su_ops s False) i (tr_rt t1) of
                     (Some e, r') \<Rightarrow> errorf ''Remove: %v'' [TErr e] (t1\<lparr> tr_rt := r' \<rparr>)
                   | (None, r') \<Rightarrow> t1\<lparr> tr_rt := r' \<rparr>)))"

definition test_lifecycle :: "'r suite_rt \<Rightarrow> 'r test_run \<Rightarrow> 'r test_run" where
  "test_lifecycle s =
     with_container s basic_spec (\<lambda>e. errorf ''Create: %v'' [TErr e])
       (\<lambda>h t. if h_id h = [] then errorf ''Create returned empty ID'' [] t
         else exec_or_fatal s (h_id h) (sh ''echo hi'') ''Exec: %v''
           (\<lambda>res t. lifecycle_end s (h_id h)
              (error_if (xr_duration res \<le>s 0) ''Duration=%v, want >0'' [TDur (xr_duration res)]
                (error_if (xr_stdout res \<noteq> ''hi'' @ [CHR 0x0A]) ''Stdout=%q, want %q'' [TStr (xr_stdout res), TStr (''hi'' @ [CHR 0x0A])]
                  (error_if (xr_exit_code res \<noteq> 0) ''ExitCode=%d, want 0'' [TInt (xr_exit_code res)] t)))) t)"

definition quoted :: "string \<Rightarrow> string" where
  "quoted x = [CHR 0x27] @ x @ [CHR 0x27]"

definition test_exec_streams :: "'r suite_rt \<Rightarrow> 'r test_run \<Rightarrow> 'r test_run" where
  "test_exec_streams s =
     with_container s basic_spec (\<lambda>e. errorf ''Create: %v'' [TErr e])
       (\<lambda>h. exec_or_fatal s (h_id h) (sh ''echo out; echo err >&2; exit 7'') ''Exec: %v''
         (\<lambda>res t.
            error_if (str_contains (xr_stdout res) ''err'') ''Stderr leaked into Stdout: %q'' [TStr (xr_stdout res)]
              (error_if (\<not> str_contains (xr_stderr res) ''err'') (''Stderr=%q, want to contain '' @ quoted ''err'') [TStr (xr_stderr res)]
                (error_if (\<not> str_contains (xr_stdout res) ''out'') (''Stdout=%q, want to contain '' @ quoted ''out'') [TStr (xr_stdout res)]
                  (error_if (xr_exit_code res \<noteq> 7) ''ExitCode=%d, want 7'' [TInt (xr_exit_code res)] t)))))"

definition test_hardening :: "'r suite_rt \<Rightarrow> 'r test_run \<Rightarrow> 'r test_run" where
  "test_hardening s =
     with_container s basic_spec (\<lambda>e. errorf ''Create: %v'' [TErr e])
       (\<lambda>h. exec_or_fatal s (h_id h) (sh ''touch /opt/x 2>&1; echo done'') ''Exec ro: %v'' (\<lambda>ro t.
          exec_or_fatal s (h_id h) (sh ''touch /tmp/y && echo tmp-ok'') ''Exec tmpfs: %v'' (\<lambda>tmp t.
            exec_or_fatal s (h_id h) [''id'', ''-u''] ''Exec id -u: %v'' (\<lambda>uid t.
              exec_or_fatal s (h_id h) (sh ''wget -qO- --timeout=2 http://1.1.1.1 2>&1; echo done'') ''Exec net: %v''
                (\<lambda>net. error_if (\<not> str_contains (xr_stdout net) ''unreachable'' \<and> \<not> str_contains (xr_stdout net) ''bad address''
                      \<and> \<not> str_contains (xr_stdout net) ''timed out'')
                   ''network=none not enforced: stdout=%q'' [TStr (xr_stdout net)])
                (error_if (trim_space (xr_stdout uid) \<noteq> ''1000'') ''UID=%q, want 1000'' [TStr (trim_space (xr_stdout uid))] t))
              (error_if (\<not> str_contains (xr_stdout tmp) ''tmp-ok'') ''/tmp not writable: stdout=%q'' [TStr (xr_stdout tmp)] t))
            (error_if (\<not> str_contains (xr_stdout ro) ''Read-only'' \<and> \<not> str_contains (xr_stdout ro) ''Permission denied'')
               ''Read-only rootfs not enforced: stdout=%q'' [TStr (xr_stdout ro)] t)))"

text \<open>\<open>randHex\<close>, from the readings of the clock in nanoseconds.\<close>

definition rand_hex :: "nat \<Rightarrow> (nat \<Rightarrow> nat) \<Rightarrow> string" where
  "rand_hex n clock = map (\<lambda>i. ''0123456789abcdef'' ! (clock i mod 16)) [0..<n]"

definition connect_line :: "string \<Rightarrow> string" where
  "connect_line host =
     (let crlf = [CHR 0x5C, CHR ''r'', CHR 0x5C, CHR ''n'']
      in ''printf '' @ [CHR 0x27] @ ''CONNECT '' @ host @ '':443 HTTP/1.1'' @ crlf @ ''Host: '' @ host @ '':443'' @ crlf @ crlf
           @ [CHR 0x27] @ '' | nc -w 3 proxy 8080 | head -1'')"

definition no_proxy_note :: string where
  "no_proxy_note = ''egress proxy not available (build with: docker build -f Dockerfile.kpproxy -t kotakpasir/proxy:dev .): %v''"

definition egress_spec :: "(nat \<Rightarrow> nat) \<Rightarrow> spec" where
  "egress_spec clock = (sandbox_id_spec (''egress-test-'' @ rand_hex 8 clock))
     \<lparr> sp_egress := \<lparr> re_mode = ''allowlist'', re_hosts = [''example.com''] \<rparr> \<rparr>"

definition test_egress :: "(nat \<Rightarrow> nat) \<Rightarrow> 'r suite_rt \<Rightarrow> 'r test_run \<Rightarrow> 'r test_run" where
  "test_egress clock s =
     with_container s (egress_spec clock)
       (\<lambda>e. skipf no_proxy_note [TErr e])
       (\<lambda>h. exec_or_fatal s (h_id h) (sh ''nc -w 2 proxy 8080 </dev/null >/dev/null 2>&1; echo exit=$?'') ''Exec proxy-reach: %v'' (\<lambda>reach t.
          exec_or_fatal s (h_id h) (sh ''nc -w 2 1.1.1.1 443 </dev/null >/dev/null 2>&1; echo exit=$?'') ''Exec direct-egress: %v'' (\<lambda>direct t.
            exec_or_fatal s (h_id h) (sh (connect_line ''example.com'')) ''Exec connect-allowed: %v'' (\<lambda>allowed t.
              exec_or_fatal s (h_id h) (sh (connect_line ''1.1.1.1'')) ''Exec connect-denied: %v''
                (\<lambda>denied. error_if (str_contains (xr_stdout denied) ''200'') ''proxy allowed non-allowlisted host: stdout=%q'' [TStr (xr_stdout denied)])
                (error_if (\<not> str_contains (xr_stdout allowed) ''200'') ''proxy did not allow allowlisted host (want 200): stdout=%q'' [TStr (xr_stdout allowed)] t))
              (error_if (str_contains (xr_stdout direct) ''exit=0'') ''sandbox reached internet directly without proxy: stdout=%q'' [TStr (xr_stdout direct)] t))
            (error_if (\<not> str_contains (xr_stdout reach) ''exit=0'') ''sandbox cannot reach proxy: stdout=%q'' [TStr (xr_stdout reach)] t)))"

section \<open>The suite\<close>

text \<open>\<open>makeRuntime\<close> may fail the subtest it is called for, with a message.\<close>

definition subtest ::
    "'r suite_rt \<Rightarrow> ('r \<Rightarrow> (string \<times> tvalue list) option \<times> 'r) \<Rightarrow> ('r test_run \<Rightarrow> 'r test_run) \<Rightarrow> 'r \<Rightarrow> 'r test_run" where
  "subtest s mk body r =
     (case mk r of
        (Some (fmt, vs), r') \<Rightarrow> finish_test s (errorf fmt vs (start_test r'))
      | (None, r') \<Rightarrow> finish_test s (body (start_test r')))"

fun run_subtests ::
    "'r suite_rt \<Rightarrow> ('r \<Rightarrow> (string \<times> tvalue list) option \<times> 'r) \<Rightarrow> (string \<times> ('r test_run \<Rightarrow> 'r test_run)) list \<Rightarrow> 'r
      \<Rightarrow> (string \<times> 'r test_run) list \<times> 'r" where
  "run_subtests s mk [] r = ([], r)"
| "run_subtests s mk ((name, body) # rest) r =
     (let t = subtest s mk body r; (ts, r') = run_subtests s mk rest (tr_rt t) in ((name, t) # ts, r'))"

definition suite ::
    "(nat \<Rightarrow> nat) \<Rightarrow> 'r suite_rt \<Rightarrow> ('r \<Rightarrow> (string \<times> tvalue list) option \<times> 'r) \<Rightarrow> 'r
      \<Rightarrow> (string \<times> 'r test_run) list \<times> 'r" where
  "suite clock s mk r =
     run_subtests s mk
       [(''Lifecycle'', test_lifecycle s), (''ExecStreams'', test_exec_streams s),
        (''Hardening'', test_hardening s), (''EgressAllowlist'', test_egress clock s)] r"

section \<open>Facts about tests\<close>

lemma error_simps [simp]:
  "tr_rt (errorf fmt vs t) = tr_rt t" "tr_failed (errorf fmt vs t)" "tr_skipped (errorf fmt vs t) = tr_skipped t"
  "tr_cleanups (errorf fmt vs t) = tr_cleanups t"
  "tr_rt (error_if c fmt vs t) = tr_rt t" "tr_failed (error_if c fmt vs t) = (tr_failed t \<or> c)"
  "tr_skipped (error_if c fmt vs t) = tr_skipped t" "tr_cleanups (error_if c fmt vs t) = tr_cleanups t"
  by (simp_all add: errorf_def error_if_def)

lemma start_simps [simp]:
  "tr_rt (start_test r) = r" "\<not> tr_failed (start_test r)" "\<not> tr_skipped (start_test r)" "tr_cleanups (start_test r) = []"
  by (simp_all add: start_test_def)

lemma cleanup_simps [simp]:
  "tr_rt (on_cleanup c t) = tr_rt t" "tr_failed (on_cleanup c t) = tr_failed t" "tr_skipped (on_cleanup c t) = tr_skipped t"
  "tr_cleanups (on_cleanup c t) = c # tr_cleanups t"
  by (simp_all add: on_cleanup_def)

lemma finish_simps [simp]:
  "tr_rt (finish_test s t) = fold (run_cleanup s) (tr_cleanups t) (tr_rt t)" "passed (finish_test s t) = passed t"
  by (simp_all add: finish_test_def passed_def)

text \<open>What an exec that may end the test keeps: whatever the backend's exec and the rest of the test keep.\<close>

lemma exec_or_fatal_keeps:
  assumes "P t" and "\<And>x r chunks res t r'. P t \<Longrightarrow> rt_exec (su_ops s False) i x (tr_rt t) = (chunks, res, r') \<Longrightarrow> P (t\<lparr> tr_rt := r' \<rparr>)"
    and "\<And>fmt vs t. P t \<Longrightarrow> P (errorf fmt vs t)" and "\<And>res t. P t \<Longrightarrow> P (body res t)"
  shows "P (exec_or_fatal s i cmd fmt body t)"
proof -
  obtain chunks res r' where x: "rt_exec (su_ops s False) i (cmd_spec cmd) (tr_rt t) = (chunks, res, r')"
    by (cases "rt_exec (su_ops s False) i (cmd_spec cmd) (tr_rt t)")
  with assms(2) [OF assms(1) x] assms(3,4) show ?thesis by (cases res) (simp_all add: exec_or_fatal_def)
qed

text \<open>The lifecycle subtest, read as the conditions on its calls.\<close>

definition lifecycle_calls :: "'r suite_rt \<Rightarrow> 'r \<Rightarrow> handle \<Rightarrow> 'r \<Rightarrow> bool" where
  "lifecycle_calls s r h r' \<longleftrightarrow> (\<exists>r1 chunks x r2 r3 st.
     rt_create (su_ops s False) basic_spec r = (Inr h, r1) \<and> h_id h \<noteq> []
   \<and> rt_exec (su_ops s False) (h_id h) (cmd_spec (sh ''echo hi'')) r1 = (chunks, Inr x, r2)
   \<and> xr_exit_code x = 0 \<and> xr_stdout x = ''hi'' @ [CHR 0x0A] \<and> 0 <s xr_duration x
   \<and> rt_stop (su_ops s False) (h_id h) r2 = (None, r3)
   \<and> su_status s (h_id h) r3 = Inr st \<and> rs_state st \<noteq> ''running''
   \<and> rt_remove (su_ops s False) (h_id h) r3 = (None, r'))"

lemma lifecycle_end_passed:
  "passed (lifecycle_end s i t) \<longleftrightarrow> passed t \<and> (\<exists>r3 st r'. rt_stop (su_ops s False) i (tr_rt t) = (None, r3)
     \<and> su_status s i r3 = Inr st \<and> rs_state st \<noteq> ''running'' \<and> rt_remove (su_ops s False) i r3 = (None, r'))"
proof -
  obtain e1 r3 where st: "rt_stop (su_ops s False) i (tr_rt t) = (e1, r3)" by fastforce
  obtain e2 r' where rm: "rt_remove (su_ops s False) i r3 = (e2, r')" by fastforce
  show ?thesis
    using st rm by (cases e1; cases "su_status s i r3"; cases e2)
      (auto simp: lifecycle_end_def passed_def Let_def error_if_def errorf_def)
qed

lemma lifecycle_end_run:
  "rt_stop (su_ops s False) i (tr_rt t) = (None, r3) \<Longrightarrow> su_status s i r3 = Inr st \<Longrightarrow> rs_state st \<noteq> ''running'' \<Longrightarrow>
   rt_remove (su_ops s False) i r3 = (None, r') \<Longrightarrow> lifecycle_end s i t = t\<lparr> tr_rt := r' \<rparr>"
  by (simp add: lifecycle_end_def Let_def error_if_def)

lemma lifecycle_passed:
  "passed (test_lifecycle s (start_test r)) \<longleftrightarrow> (\<exists>h r'. lifecycle_calls s r h r')"
  "lifecycle_calls s r h r' \<Longrightarrow> tr_rt (test_lifecycle s (start_test r)) = r'
     \<and> tr_cleanups (test_lifecycle s (start_test r)) = [CleanRemove (h_id h), CleanClose]"
proof -
  have "(passed (test_lifecycle s (start_test r)) \<longleftrightarrow> (\<exists>h r'. lifecycle_calls s r h r'))
    \<and> (\<forall>h r'. lifecycle_calls s r h r' \<longrightarrow> tr_rt (test_lifecycle s (start_test r)) = r'
         \<and> tr_cleanups (test_lifecycle s (start_test r)) = [CleanRemove (h_id h), CleanClose])"
  proof (cases "rt_create (su_ops s False) basic_spec r")
    case (Pair cres r1)
    show ?thesis
    proof (cases "\<exists>h. cres = Inr h \<and> h_id h \<noteq> []")
      case False
      then show ?thesis using Pair
        by (cases cres) (auto simp: test_lifecycle_def with_container_def Let_def passed_def lifecycle_calls_def)
    next
      case True
      then obtain h where h: "cres = Inr h" "h_id h \<noteq> []" by blast
      obtain chunks xres r2 where x: "rt_exec (su_ops s False) (h_id h) (cmd_spec (sh ''echo hi'')) r1 = (chunks, xres, r2)"
        by (cases "rt_exec (su_ops s False) (h_id h) (cmd_spec (sh ''echo hi'')) r1")
      show ?thesis
      proof (cases xres)
        case (Inl e)
        then show ?thesis using Pair h x
          by (auto simp: test_lifecycle_def with_container_def Let_def passed_def lifecycle_calls_def exec_or_fatal_def)
      next
        case (Inr res)
        let ?t = "error_if (xr_duration res \<le>s 0) ''Duration=%v, want >0'' [TDur (xr_duration res)]
                (error_if (xr_stdout res \<noteq> ''hi'' @ [CHR 0x0A]) ''Stdout=%q, want %q'' [TStr (xr_stdout res), TStr (''hi'' @ [CHR 0x0A])]
                  (error_if (xr_exit_code res \<noteq> 0) ''ExitCode=%d, want 0'' [TInt (xr_exit_code res)]
                    ((on_cleanup (CleanRemove (h_id h)) ((on_cleanup CleanClose (start_test r))\<lparr> tr_rt := r1 \<rparr>))\<lparr> tr_rt := r2 \<rparr>)))"
        have t: "test_lifecycle s (start_test r) = lifecycle_end s (h_id h) ?t"
          using Pair h x Inr by (simp add: test_lifecycle_def with_container_def Let_def exec_or_fatal_def)
        have ok: "passed ?t \<longleftrightarrow> xr_exit_code res = 0 \<and> xr_stdout res = ''hi'' @ [CHR 0x0A] \<and> 0 <s xr_duration res"
          by (auto simp: passed_def not_le[symmetric] word_sless_alt word_sle_eq)
        have rt: "tr_rt ?t = r2" "tr_cleanups ?t = [CleanRemove (h_id h), CleanClose]" by simp_all
        have calls: "lifecycle_calls s r h' r' \<longleftrightarrow> h' = h \<and> passed ?t \<and> (\<exists>r3 st. rt_stop (su_ops s False) (h_id h) r2 = (None, r3)
            \<and> su_status s (h_id h) r3 = Inr st \<and> rs_state st \<noteq> ''running'' \<and> rt_remove (su_ops s False) (h_id h) r3 = (None, r'))" for h' r'
          unfolding ok lifecycle_calls_def using Pair h x Inr by auto
        show ?thesis
          unfolding t lifecycle_end_passed [of s "h_id h" ?t] calls rt(1)
          using rt(2) lifecycle_end_run [of s "h_id h" ?t, unfolded rt(1)] by auto
      qed
    qed
  qed
  then show "passed (test_lifecycle s (start_test r)) \<longleftrightarrow> (\<exists>h r'. lifecycle_calls s r h r')"
    "lifecycle_calls s r h r' \<Longrightarrow> tr_rt (test_lifecycle s (start_test r)) = r'
      \<and> tr_cleanups (test_lifecycle s (start_test r)) = [CleanRemove (h_id h), CleanClose]" by blast+
qed

section \<open>Docker under the suite\<close>

text \<open>The client of the Docker daemon under a context that is done: a call is not made and fails.\<close>

definition client_done :: "'d docker \<Rightarrow> bool" where
  "client_done dk \<longleftrightarrow> (\<forall>i d. \<exists>e. dk_inspect dk i d = Inl e) \<and> (\<forall>i v d. \<exists>e. dk_remove dk i v d = (Some e, d))"

definition docker_suite :: "environ \<Rightarrow> (bool \<Rightarrow> 'd docker) \<Rightarrow> ('d \<Rightarrow> rt_error option \<times> 'd) \<Rightarrow> 'd suite_rt" where
  "docker_suite env dkc close = \<lparr> su_ops = (\<lambda>done. docker_ops env (dkc done)),
     su_status = (\<lambda>i d. map_sum (\<lambda>e. RtError (dk_message e)) id (docker_status (dkc False) i d)), su_close = close \<rparr>"

lemma docker_remove_done: "client_done dk \<Longrightarrow> docker_remove dk i d = (None, d)"
proof -
  assume cd: "client_done dk"
  then obtain e where "dk_inspect dk i d = Inl e" unfolding client_done_def by blast
  moreover obtain e' where "dk_remove dk i True d = (Some e', d)" using cd unfolding client_done_def by blast
  ultimately show ?thesis by (simp add: docker_remove_def)
qed

definition holds_container :: "'d made \<Rightarrow> ('d \<Rightarrow> string set) \<Rightarrow> string \<Rightarrow> 'd test_run \<Rightarrow> bool" where
  "holds_container made ctrs i t \<longleftrightarrow> i \<in> dk_live made ctrs (tr_rt t) \<and> tr_cleanups t = [CleanRemove i, CleanClose]"

lemma holds_simps [simp]:
  "holds_container made ctrs i (errorf fmt vs t) = holds_container made ctrs i t"
  "holds_container made ctrs i (error_if c fmt vs t) = holds_container made ctrs i t"
  by (simp_all add: holds_container_def)

lemma docker_exec_holds:
  assumes doc: "daemon_documented (dkc False) made ctrs" and t: "holds_container made ctrs i t"
    and body: "\<And>res t. holds_container made ctrs i t \<Longrightarrow> holds_container made ctrs i (body res t)"
  shows "holds_container made ctrs i (exec_or_fatal (docker_suite env dkc close) j cmd fmt body t)"
proof (rule exec_or_fatal_keeps [OF t _ _ body])
  fix x k chunks res r' and t :: "'a test_run"
  assume t: "holds_container made ctrs i t"
    and "rt_exec (su_ops (docker_suite env dkc close) False) k x (tr_rt t) = (chunks, res, r')"
  then have "docker_exec (dkc False) k x (tr_rt t) = (chunks, res, r')" by (simp add: docker_suite_def docker_ops_def)
  from docker_exec_frame [OF doc this] t show "holds_container made ctrs i (t\<lparr> tr_rt := r' \<rparr>)"
    by (simp add: holds_container_def dk_live_def)
qed simp_all

lemma subtest_holds:
  assumes doc: "daemon_documented (dkc False) made ctrs" and cd: "client_done (dkc True)"
    and close: "\<And>d. same_containers made ctrs d (snd (close d))" and inv: "dk_inv made ctrs d"
    and mk: "mk d0 = (None, d)" and sp: "named_spec sp"
    and cr: "docker_create env (dkc False) sp d = (Inr h, d1)"
    and body: "\<And>t. holds_container made ctrs (h_id h) t \<Longrightarrow> holds_container made ctrs (h_id h) (body h t)"
  shows "h_id h \<in> dk_live made ctrs (tr_rt (subtest (docker_suite env dkc close) mk
     (with_container (docker_suite env dkc close) sp fails body) d0))"
proof -
  let ?s = "docker_suite env dkc close"
  let ?t = "on_cleanup (CleanRemove (h_id h)) ((on_cleanup CleanClose (start_test d))\<lparr> tr_rt := d1 \<rparr>)"
  have "h_id h \<in> dk_live made ctrs d1" using docker_create_contract [OF doc inv sp cr] by simp
  then have "holds_container made ctrs (h_id h) ?t" by (simp add: holds_container_def)
  then have t: "holds_container made ctrs (h_id h) (body h ?t)" by (rule body)
  have "with_container ?s sp fails body (start_test d) = body h ?t"
    using cr by (simp add: with_container_def Let_def docker_suite_def docker_ops_def)
  moreover have "run_cleanup ?s (CleanRemove (h_id h)) r = r" for r
    by (simp add: run_cleanup_def docker_suite_def docker_ops_def docker_remove_done [OF cd])
  moreover have "made (run_cleanup ?s CleanClose r) = made r" "ctrs (run_cleanup ?s CleanClose r) = ctrs r" for r
    using same_simps [OF close [of r]] by (simp_all add: run_cleanup_def docker_suite_def)
  ultimately show ?thesis
    using t mk by (simp add: subtest_def holds_container_def dk_live_def)
qed

lemma suite_specs_named [simp]: "named_spec basic_spec" "named_spec (egress_spec clock)"
  by (simp_all add: named_spec_def basic_spec_def egress_spec_def sandbox_id_spec_def)

section \<open>Properties\<close>

text \<open>What the lifecycle subtest certifies. It passes exactly on a backend on which the container is
  created with an identifier, \<open>echo hi\<close> runs in it with exit code 0, the output it should have and a
  positive duration, it is stopped, its status is then not "running", and it is removed; and over
  a backend that meets the contract of containers the container is then gone, whatever the
  cleanups do under the cancelled context.\<close>

theorem lifecycle_certifies:
  assumes "container_runtime (rt_create (su_ops s False)) (rt_remove (su_ops s False)) live issued invar"
    and "\<And>i x r chunks res r'. invar r \<Longrightarrow> rt_exec (su_ops s False) i x r = (chunks, res, r') \<Longrightarrow> invar r' \<and> issued r' = issued r"
    and "\<And>i r res r'. invar r \<Longrightarrow> rt_stop (su_ops s False) i r = (res, r') \<Longrightarrow> invar r' \<and> issued r' = issued r"
    and "\<And>i r. live (snd (rt_remove (su_ops s True) i r)) \<subseteq> live r" and "\<And>r. live (snd (su_close s r)) \<subseteq> live r"
    and "mk r0 = (None, r)" and "invar r"
  shows "if passed (subtest s mk (test_lifecycle s) r0)
    then \<exists>h r'. lifecycle_calls s r h r' \<and> h_id h \<notin> live (tr_rt (subtest s mk (test_lifecycle s) r0))
    else \<forall>h r'. \<not> lifecycle_calls s r h r'"
proof -
  let ?t = "test_lifecycle s (start_test r)"
  have sub: "subtest s mk (test_lifecycle s) r0 = finish_test s ?t" using assms(6) by (simp add: subtest_def)
  show ?thesis
  proof (cases "passed ?t")
    case True
    then obtain h r' where calls: "lifecycle_calls s r h r'" by (auto simp: lifecycle_passed(1))
    obtain r1 chunks x r2 r3 where c: "rt_create (su_ops s False) basic_spec r = (Inr h, r1)"
      "rt_exec (su_ops s False) (h_id h) (cmd_spec (sh ''echo hi'')) r1 = (chunks, Inr x, r2)"
      "rt_stop (su_ops s False) (h_id h) r2 = (None, r3)" "rt_remove (su_ops s False) (h_id h) r3 = (None, r')"
      using calls unfolding lifecycle_calls_def by blast
    have r1: "invar r1" "h_id h \<in> issued r1"
      using container_runtime.create_ok [OF assms(1) assms(7) suite_specs_named(1) c(1)] by auto
    have r3: "invar r3" "h_id h \<in> issued r3" using assms(2) [OF r1(1) c(2)] assms(3) [OF _ c(3)] r1(2) by auto
    have "h_id h \<notin> live r'" using container_runtime.remove [OF assms(1) r3 c(4)] by simp
    moreover have "live (tr_rt (finish_test s ?t)) \<subseteq> live r'"
      using lifecycle_passed(2) [OF calls] assms(4,5) by (simp add: run_cleanup_def) (meson subset_trans)
    ultimately show ?thesis using True calls unfolding sub by auto
  qed (simp add: sub lifecycle_passed(1))
qed

text \<open>A fake backend that answers as the subtest expects.\<close>

definition echo_suite :: "fake_runtime suite_rt" where
  "echo_suite = \<lparr> su_ops = (\<lambda>_. fake_ops\<lparr> rt_exec := (\<lambda>i x r. ([], Inr \<lparr> xr_exit_code = 0,
       xr_stdout = ''hi'' @ [CHR 0x0A], xr_stderr = [], xr_duration = 1 \<rparr>, r)) \<rparr>),
     su_status = (\<lambda>i r. Inr \<lparr> rs_state = ''exited'', rs_exit_code = None \<rparr>), su_close = (\<lambda>r. (None, r)) \<rparr>"

theorem lifecycle_certifies_witness:
  "passed (subtest echo_suite (\<lambda>r. (None, r)) (test_lifecycle echo_suite) fake_empty)
   \<and> fake_id 0 \<notin> fake_live (tr_rt (subtest echo_suite (\<lambda>r. (None, r)) (test_lifecycle echo_suite) fake_empty))"
proof -
  have ops: "rt_create (su_ops echo_suite b) = fake_create" "rt_remove (su_ops echo_suite b) = fake_remove"
    "rt_stop (su_ops echo_suite b) = fake_stop" for b
    by (simp_all add: echo_suite_def fake_ops_def)
  have pass: "passed (subtest echo_suite (\<lambda>r. (None, r)) (test_lifecycle echo_suite) fake_empty)"
    by code_simp
  let ?t = "subtest echo_suite (\<lambda>r. (None, r)) (test_lifecycle echo_suite) fake_empty"
  have c: "container_runtime (rt_create (su_ops echo_suite False)) (rt_remove (su_ops echo_suite False))
      fake_live fake_issued fake_invar" using fake.container_runtime_axioms by (simp add: ops)
  have "if passed ?t then \<exists>h r'. lifecycle_calls echo_suite fake_empty h r' \<and> h_id h \<notin> fake_live (tr_rt ?t)
      else \<forall>h r'. \<not> lifecycle_calls echo_suite fake_empty h r'"
    by (rule lifecycle_certifies [OF c]) (auto simp: ops fake_ops_def fake_stop_def fake_remove_def fake_live_def fake_issued_def echo_suite_def
        fake_invar_def fake_empty_def)
  then obtain h r' where h: "lifecycle_calls echo_suite fake_empty h r'" "h_id h \<notin> fake_live (tr_rt ?t)"
    using pass by auto
  then have "h_id h = fake_id 0" by (auto simp: lifecycle_calls_def ops fake_create_def fake_empty_def)
  with h(2) pass show ?thesis by simp
qed

text \<open>C39. The other subtests leave their container running on Docker. Their only removal of the container
  is a \<open>Cleanup\<close> that uses the context of the test, which is done by then, and a client under such
  a context makes no call: whatever the outcome of the test, the container it created is still
  there when the test has ended.\<close>

theorem suite_leaves_containers:
  assumes "daemon_documented (dkc False) made ctrs" and "client_done (dkc True)"
    and "\<And>d. same_containers made ctrs d (snd (close d))" and "dk_inv made ctrs d" and "mk d0 = (None, d)"
    and "s = docker_suite env dkc close"
    and "(body, sp) \<in> {(test_exec_streams s, basic_spec), (test_hardening s, basic_spec), (test_egress clock s, egress_spec clock)}"
    and "docker_create env (dkc False) sp d = (Inr h, d1)"
  shows "h_id h \<in> dk_live made ctrs (tr_rt (subtest s mk body d0))"
proof -
  note holds = subtest_holds [where dkc = dkc and made = made and ctrs = ctrs and close = close and d = d and mk = mk
      and ?d0.0 = d0, OF assms(1-5)]
  note exec = docker_exec_holds [where dkc = dkc and made = made and ctrs = ctrs, OF assms(1)]
  from assms(7) consider "body = test_exec_streams s" "sp = basic_spec" | "body = test_hardening s" "sp = basic_spec"
    | "body = test_egress clock s" "sp = egress_spec clock" by blast
  then show ?thesis
  proof cases
    case 1
    then show ?thesis using assms(8) unfolding assms(6) 1 test_exec_streams_def by (intro holds exec) simp_all
  next
    case 2
    then show ?thesis using assms(8) unfolding assms(6) 2 test_hardening_def by (intro holds exec) simp_all
  next
    case 3
    then show ?thesis using assms(8) unfolding assms(6) 3 test_egress_def by (intro holds exec) simp_all
  qed
qed

definition memo_client :: "bool \<Rightarrow> memo_daemon docker" where
  "memo_client cancelled = (if cancelled
     then memo_docker\<lparr> dk_inspect := (\<lambda>i d. Inl (DkError ''context canceled'')),
            dk_remove := (\<lambda>i v d. (Some (DkError ''context canceled''), d)) \<rparr>
     else memo_docker)"

theorem suite_leaves_containers_witness:
  "\<exists>h d1. docker_create [] memo_docker basic_spec \<lparr> md_made = [], md_ctrs = [] \<rparr> = (Inr h, d1)
     \<and> h_id h \<in> dk_live md_view md_set (tr_rt (subtest (docker_suite [] memo_client (\<lambda>d. (None, d))) (\<lambda>d. (None, d))
         (test_exec_streams (docker_suite [] memo_client (\<lambda>d. (None, d)))) \<lparr> md_made = [], md_ctrs = [] \<rparr>))"
proof -
  let ?d = "\<lparr> md_made = [], md_ctrs = [] \<rparr>"
  have live: "memo_client False = memo_docker" by (simp add: memo_client_def)
  obtain h d1 where cr: "docker_create [] (memo_client False) basic_spec ?d = (Inr h, d1)"
    by (auto simp: live docker_create_def maybe_provision_egress_def create_container_def basic_spec_def
        memo_docker_def md_create_def md_names_def Let_def case_prod_unfold)
  have "client_done (memo_client True)" by (simp add: client_done_def memo_client_def)
  moreover have "dk_inv md_view md_set ?d" by (simp add: dk_inv_def md_set_def)
  moreover have "daemon_documented (memo_client False) md_view md_set" using memo_documented by (simp add: live)
  ultimately show ?thesis
    using suite_leaves_containers [of memo_client md_view md_set "\<lambda>d. (None, d)" ?d "\<lambda>d. (None, d)" ?d _ "[]"
        "test_exec_streams (docker_suite [] memo_client (\<lambda>d. (None, d)))" basic_spec, OF _ _ _ _ _ refl _ cr] cr
    by (simp add: same_containers_def live)
qed

end
