(* ===== verification/Messages.thy ===== *)
theory Messages
  imports Manager
begin

text \<open>
  The texts of the errors that the front ends show: what \<open>Error()\<close> returns for the error values of
  the policy, the store, the backend and the manager, with the wrapping that \<open>fmt.Errorf\<close> and
  \<open>errors.Join\<close> add on the way, and the two tests the front ends make with \<open>errors.Is\<close>.
\<close>

definition policy_message :: "policy_violation \<Rightarrow> string" where
  "policy_message v = ''policy violation: '' @ (case v of
       ProfileNotFound n \<Rightarrow> ''profile '' @ go_quote n @ '' not found''
     | ImageRequired \<Rightarrow> ''image is required (set request.Image or use a profile)''
     | ImageNotAllowed img \<Rightarrow> ''image '' @ go_quote img @ '' not in policy.images allowlist'')"

definition mode_message :: "string \<Rightarrow> string" where
  "mode_message m = ''mode='' @ go_quote m @ '' invalid (want none|allowlist)''"

definition validate_message :: "validate_error \<Rightarrow> string" where
  "validate_message e = (case e of
       UnsupportedVersion v \<Rightarrow> ''unsupported version '' @ itoa v @ '' (want '' @ itoa current_version @ '')''
     | ImageNameRequired i \<Rightarrow> ''images['' @ itoa (int i) @ '']: name is required''
     | DuplicateImage i n \<Rightarrow> ''images['' @ itoa (int i) @ '']: duplicate image '' @ go_quote n
     | ImageEgressInvalid n m \<Rightarrow> ''images['' @ n @ ''].egress: '' @ mode_message m
     | PoolNegative n \<Rightarrow> ''images['' @ n @ '']: pool must be >= 0''
     | PoolWithEgress n m \<Rightarrow> ''images['' @ n @ '']: pool not supported with egress.mode='' @ go_quote m
         @ '' (per-sandbox proxy is incompatible with pre-warming)''
     | ProfileImageRequired n \<Rightarrow> ''profiles['' @ n @ '']: image is required''
     | ProfileImageNotListed n img \<Rightarrow> ''profiles['' @ n @ '']: image '' @ go_quote img @ '' not in images list''
     | ProfileEgressInvalid n m \<Rightarrow> ''profiles['' @ n @ ''].egress: '' @ mode_message m
     | DefaultEgressInvalid m \<Rightarrow> ''egress.default: '' @ mode_message m
     | NetworkModeInvalid nm \<Rightarrow> ''defaults.network_mode='' @ go_quote nm @ '' invalid (want none|bridge)'')"

definition load_message :: "load_error \<Rightarrow> string" where
  "load_message e = (case e of
       ReadPolicy path err \<Rightarrow> ''read policy '' @ go_quote path @ '': '' @ err
     | ParsePolicy path err \<Rightarrow> ''parse policy '' @ go_quote path @ '': '' @ err
     | InvalidPolicy path v \<Rightarrow> ''invalid policy '' @ go_quote path @ '': '' @ validate_message v)"

definition joined :: "string list \<Rightarrow> string" where
  "joined = join_with [CHR 0x0A]"

definition mgr_message :: "mgr_error \<Rightarrow> string" where
  "mgr_message e = (case e of
       RuntimeRequired \<Rightarrow> ''runtime is required''
     | StoreRequired \<Rightarrow> ''store is required''
     | PolicyRequired \<Rightarrow> ''policy is required''
     | PolicyInvalid v \<Rightarrow> validate_message v
     | PolicyDenied v \<Rightarrow> policy_message v
     | EnsureImage img err \<Rightarrow> ''ensure image '' @ img @ '': '' @ rt_message err
     | PoolFailed img err \<Rightarrow> ''pool '' @ img @ '': '' @ rt_message err
     | WarmPool img err \<Rightarrow> ''warm pool '' @ img @ '': '' @ rt_message err
     | ShutdownFailed fs \<Rightarrow> joined (map (\<lambda>(img, es). ''pool '' @ img @ '': '' @ joined (map rt_message es)) fs)
     | StorePut err \<Rightarrow> ''store put: '' @ store_message err
     | StoreFailed err \<Rightarrow> store_message err
     | RuntimeCreate err \<Rightarrow> ''runtime create: '' @ rt_message err
     | RuntimeFailed err \<Rightarrow> rt_message err
     | NotRunning i st \<Rightarrow> ''sandbox '' @ i @ '' is '' @ st @ '', not running'')"

text \<open>\<open>errors.Is(err, sandbox.ErrNotFound)\<close>, \<open>errors.Is(err, policy.ErrPolicyViolation)\<close> and
  \<open>errors.Is(err, rt.ErrNoProxy)\<close>.\<close>

definition says_not_found :: "mgr_error \<Rightarrow> bool" where
  "says_not_found e \<longleftrightarrow> e = StoreFailed ErrNotFound \<or> e = StorePut ErrNotFound"

definition says_policy :: "mgr_error \<Rightarrow> bool" where
  "says_policy e \<longleftrightarrow> (\<exists>v. e = PolicyDenied v)"

definition says_no_proxy :: "mgr_error \<Rightarrow> bool" where
  "says_no_proxy e \<longleftrightarrow> e = RuntimeFailed ErrNoProxy \<or> e = RuntimeCreate ErrNoProxy"

lemma says_policy_code [code]: "says_policy e = (case e of PolicyDenied v \<Rightarrow> True | _ \<Rightarrow> False)"
  by (cases e) (auto simp: says_policy_def)

lemma policy_message_not_Nil [simp]: "policy_message v \<noteq> []"
  by (simp add: policy_message_def)

end
