(* ===== verification/Jsonv.thy ===== *)
theory Jsonv
  imports Strconv
begin

text \<open>
  JSON documents as \<open>encoding/json\<close> reads and writes them: values, the compact text that
  \<open>Marshal\<close> produces, the reader behind \<open>Unmarshal\<close> and \<open>Decoder\<close>, and the access to the members
  of an object that decoding into a struct makes. A number is kept as its literal. The reader's
  recursion is bounded by fuel, and more fuel than the document has characters changes nothing.
\<close>

datatype json =
    JNull
  | JBool bool
  | JNum string
  | JStr string
  | JArr "json list"
  | JObj "(string \<times> json) list"

section \<open>Writing\<close>

fun json_text :: "json \<Rightarrow> string" and json_texts :: "json list \<Rightarrow> string"
    and json_fields :: "(string \<times> json) list \<Rightarrow> string" where
  "json_text JNull = ''null''"
| "json_text (JBool b) = (if b then ''true'' else ''false'')"
| "json_text (JNum s) = s"
| "json_text (JStr s) = json_string s"
| "json_text (JArr vs) = CHR ''['' # (case vs of [] \<Rightarrow> '']'' | v # vs' \<Rightarrow> json_text v @ json_texts vs')"
| "json_text (JObj ms) = CHR ''{'' # (case ms of [] \<Rightarrow> ''}''
     | (k, v) # ms' \<Rightarrow> json_string k @ CHR '':'' # json_text v @ json_fields ms')"
| "json_texts [] = '']''"
| "json_texts (v # vs) = CHR '','' # json_text v @ json_texts vs"
| "json_fields [] = ''}''"
| "json_fields ((k, v) # ms) = CHR '','' # json_string k @ CHR '':'' # json_text v @ json_fields ms"

section \<open>Reading\<close>

definition is_ws :: "char \<Rightarrow> bool" where
  "is_ws c \<longleftrightarrow> c \<in> {CHR '' '', CHR 0x09, CHR 0x0A, CHR 0x0D}"

definition skip_ws :: "string \<Rightarrow> string" where
  "skip_ws = dropWhile is_ws"

definition is_digit :: "char \<Rightarrow> bool" where
  "is_digit c \<longleftrightarrow> digit_val c \<noteq> None"

text \<open>The parts of a number literal: each returns what it took and what follows.\<close>

definition scan_int :: "string \<Rightarrow> (string \<times> string) option" where
  "scan_int cs =
     (let ds = takeWhile is_digit cs; r = dropWhile is_digit cs
      in case ds of
           [] \<Rightarrow> None
         | d # ds' \<Rightarrow> if d = CHR ''0'' then Some ([d], ds' @ r) else Some (ds, r))"

definition scan_frac :: "string \<Rightarrow> (string \<times> string) option" where
  "scan_frac cs =
     (case cs of
        c # r \<Rightarrow>
          (if c = CHR ''.'' then
             (if takeWhile is_digit r = [] then None
              else Some (c # takeWhile is_digit r, dropWhile is_digit r))
           else Some ([], cs))
      | [] \<Rightarrow> Some ([], []))"

definition scan_exp :: "string \<Rightarrow> (string \<times> string) option" where
  "scan_exp cs =
     (case cs of
        c # r \<Rightarrow>
          (if c = CHR ''e'' \<or> c = CHR ''E'' then
             (let (sign, r') = (case r of
                    s # r'' \<Rightarrow> if s = CHR ''+'' \<or> s = CHR ''-'' then ([s], r'') else ([], r)
                  | [] \<Rightarrow> ([], []))
              in if takeWhile is_digit r' = [] then None
                 else Some (c # sign @ takeWhile is_digit r', dropWhile is_digit r'))
           else Some ([], cs))
      | [] \<Rightarrow> Some ([], []))"

definition scan_unsigned :: "string \<Rightarrow> (string \<times> string) option" where
  "scan_unsigned cs =
     (case scan_int cs of None \<Rightarrow> None
      | Some (i, r1) \<Rightarrow>
          (case scan_frac r1 of None \<Rightarrow> None
           | Some (f, r2) \<Rightarrow>
               (case scan_exp r2 of None \<Rightarrow> None | Some (e, r3) \<Rightarrow> Some (i @ f @ e, r3))))"

definition scan_number :: "string \<Rightarrow> (string \<times> string) option" where
  "scan_number cs =
     (if cs \<noteq> [] \<and> hd cs = CHR ''-'' then map_option (map_prod ((#) (hd cs)) id) (scan_unsigned (tl cs))
      else scan_unsigned cs)"

fun json_value :: "nat \<Rightarrow> string \<Rightarrow> (json \<times> string) option"
    and json_elems :: "nat \<Rightarrow> string \<Rightarrow> (json list \<times> string) option"
    and json_members :: "nat \<Rightarrow> string \<Rightarrow> ((string \<times> json) list \<times> string) option" where
  "json_value 0 cs = None"
| "json_value (Suc n) cs =
     (case skip_ws cs of
        [] \<Rightarrow> None
      | c # r \<Rightarrow>
          (if c = quote then map_option (map_prod JStr id) (json_chars r)
           else if c = CHR ''{'' then
             (if skip_ws r \<noteq> [] \<and> hd (skip_ws r) = CHR ''}'' then Some (JObj [], tl (skip_ws r))
              else map_option (map_prod JObj id) (json_members n r))
           else if c = CHR ''['' then
             (if skip_ws r \<noteq> [] \<and> hd (skip_ws r) = CHR '']'' then Some (JArr [], tl (skip_ws r))
              else map_option (map_prod JArr id) (json_elems n r))
           else if has_prefix (c # r) ''null'' then Some (JNull, drop 4 (c # r))
           else if has_prefix (c # r) ''true'' then Some (JBool True, drop 4 (c # r))
           else if has_prefix (c # r) ''false'' then Some (JBool False, drop 5 (c # r))
           else map_option (map_prod JNum id) (scan_number (c # r))))"
| "json_elems 0 cs = None"
| "json_elems (Suc n) cs =
     (case json_value n cs of
        None \<Rightarrow> None
      | Some (v, r) \<Rightarrow>
          (case skip_ws r of
             [] \<Rightarrow> None
           | c # r' \<Rightarrow>
               if c = CHR '']'' then Some ([v], r')
               else if c = CHR '','' then map_option (map_prod ((#) v) id) (json_elems n r')
               else None))"
| "json_members 0 cs = None"
| "json_members (Suc n) cs =
     (case parse_string (skip_ws cs) of
        None \<Rightarrow> None
      | Some (k, r) \<Rightarrow>
          (case skip_ws r of
             [] \<Rightarrow> None
           | c # r' \<Rightarrow>
               if c \<noteq> CHR '':'' then None
               else (case json_value n r' of
                       None \<Rightarrow> None
                     | Some (v, r2) \<Rightarrow>
                         (case skip_ws r2 of
                            [] \<Rightarrow> None
                          | d # r3 \<Rightarrow>
                              if d = CHR ''}'' then Some ([(k, v)], r3)
                              else if d = CHR '','' then map_option (map_prod ((#) (k, v)) id) (json_members n r3)
                              else None))))"

text \<open>\<open>Unmarshal\<close> wants one value and nothing but white space after it; a \<open>Decoder\<close> reads one
  value and leaves the rest, and reports \<open>io.EOF\<close> when there is none.\<close>

definition json_parse :: "string \<Rightarrow> json option" where
  "json_parse cs =
     (case json_value (2 * length cs + 1) cs of
        Some (v, r) \<Rightarrow> if skip_ws r = [] then Some v else None
      | None \<Rightarrow> None)"

datatype decoded = AtEof | BadJson | Decoded json

definition json_decode :: "string \<Rightarrow> decoded" where
  "json_decode cs =
     (if skip_ws cs = [] then AtEof
      else case json_value (2 * length cs + 1) cs of Some (v, r) \<Rightarrow> Decoded v | None \<Rightarrow> BadJson)"

section \<open>Members of an object\<close>

text \<open>Decoding into a struct takes, for a field, every member whose name is the field's up to case,
  in order; \<open>null\<close> changes nothing and a value of another kind is an error. The field names of the
  program are in lower case.\<close>

fun json_field :: "(json \<Rightarrow> 'a option) \<Rightarrow> string \<Rightarrow> (string \<times> json) list \<Rightarrow> 'a \<Rightarrow> 'a option" where
  "json_field dec k [] a = Some a"
| "json_field dec k ((k', v) # ms) a =
     (if to_lower k' \<noteq> k \<or> v = JNull then json_field dec k ms a
      else case dec v of None \<Rightarrow> None | Some a' \<Rightarrow> json_field dec k ms a')"

text \<open>The same when the caller ignores the error: a value of another kind changes nothing.\<close>

fun json_field_lax :: "(json \<Rightarrow> 'a option) \<Rightarrow> string \<Rightarrow> (string \<times> json) list \<Rightarrow> 'a \<Rightarrow> 'a" where
  "json_field_lax dec k [] a = a"
| "json_field_lax dec k ((k', v) # ms) a =
     (if to_lower k' \<noteq> k \<or> v = JNull then json_field_lax dec k ms a
      else json_field_lax dec k ms (case dec v of None \<Rightarrow> a | Some a' \<Rightarrow> a'))"

fun as_string :: "json \<Rightarrow> string option" where
  "as_string (JStr s) = Some s"
| "as_string _ = None"

fun as_int :: "json \<Rightarrow> int option" where
  "as_int (JNum s) = atoi s"
| "as_int _ = None"

text \<open>In an array or a map \<open>null\<close> stands for the zero value.\<close>

definition or_null :: "'a \<Rightarrow> (json \<Rightarrow> 'a option) \<Rightarrow> json \<Rightarrow> 'a option" where
  "or_null z dec v = (if v = JNull then Some z else dec v)"

fun as_strings :: "json \<Rightarrow> string list option" where
  "as_strings (JArr vs) = those (map (or_null [] as_string) vs)"
| "as_strings _ = None"

fun as_smap :: "json \<Rightarrow> smap option" where
  "as_smap (JObj ms) =
     map_option (\<lambda>vs. maps_copy [] (zip (map fst ms) vs)) (those (map (or_null [] as_string \<circ> snd) ms))"
| "as_smap _ = None"

text \<open>The encodings of a slice of strings and of a map: nil is \<open>null\<close>, and the keys are sorted.\<close>

definition strings_json :: "string list \<Rightarrow> json" where
  "strings_json xs = (if xs = [] then JNull else JArr (map JStr xs))"

definition smap_json :: "smap \<Rightarrow> json" where
  "smap_json m = (if m = [] then JNull else JObj (map (map_prod id JStr) (sort_key fst m)))"

section \<open>What is written is read back\<close>

text \<open>Numbers are literals of the grammar.\<close>

fun json_ok :: "json \<Rightarrow> bool" where
  "json_ok (JNum s) = (scan_number s = Some (s, []))"
| "json_ok (JArr vs) = (\<forall>v \<in> set vs. json_ok v)"
| "json_ok (JObj ms) = (\<forall>kv \<in> set ms. json_ok (snd kv))"
| "json_ok _ = True"

text \<open>What may follow a value: nothing that would continue a number.\<close>

definition stops :: "string \<Rightarrow> bool" where
  "stops r \<longleftrightarrow> (case r of [] \<Rightarrow> True
     | c # _ \<Rightarrow> \<not> is_digit c \<and> c \<noteq> CHR ''.'' \<and> c \<noteq> CHR ''e'' \<and> c \<noteq> CHR ''E'')"

lemma is_digit_code: "is_digit c \<longleftrightarrow> 48 \<le> (of_char c :: nat) \<and> (of_char c :: nat) \<le> 57"
  by (auto simp: is_digit_def digit_val_def Let_def)

lemma stops_simps [simp]:
  "stops []" "stops (CHR '','' # r)" "stops (CHR ''}'' # r)" "stops (CHR '']'' # r)"
  by (simp_all add: stops_def is_digit_code)

lemma skip_ws_simps [simp]:
  "skip_ws [] = []" "\<not> is_ws c \<Longrightarrow> skip_ws (c # cs) = c # cs"
  by (simp_all add: skip_ws_def)

lemma skip_ws_delims [simp]:
  "skip_ws (CHR '','' # r) = CHR '','' # r" "skip_ws (CHR '':'' # r) = CHR '':'' # r"
  "skip_ws (CHR ''}'' # r) = CHR ''}'' # r" "skip_ws (CHR '']'' # r) = CHR '']'' # r"
  "skip_ws (quote # r) = quote # r"
  by (simp_all add: is_ws_def quote_def)

lemma digits_then_stop:
  "stops t \<Longrightarrow> takeWhile is_digit (xs @ t) = takeWhile is_digit xs
     \<and> dropWhile is_digit (xs @ t) = dropWhile is_digit xs @ t"
  by (induction xs) (auto simp: stops_def split: list.splits)

lemma scan_int_append: "scan_int cs = Some (i, r) \<Longrightarrow> stops t \<Longrightarrow> scan_int (cs @ t) = Some (i, r @ t)"
  using digits_then_stop [of t cs] by (auto simp: scan_int_def Let_def split: list.splits if_splits)

lemma scan_frac_append: "scan_frac cs = Some (f, r) \<Longrightarrow> stops t \<Longrightarrow> scan_frac (cs @ t) = Some (f, r @ t)"
proof (cases cs)
  case (Cons c cs')
  assume "scan_frac cs = Some (f, r)" "stops t"
  then show ?thesis using digits_then_stop [of t cs']
    by (auto simp: scan_frac_def Cons split: if_splits)
qed (auto simp: scan_frac_def stops_def split: list.splits)

lemma scan_exp_append: "scan_exp cs = Some (f, r) \<Longrightarrow> stops t \<Longrightarrow> scan_exp (cs @ t) = Some (f, r @ t)"
proof (cases cs)
  case (Cons c cs')
  assume *: "scan_exp cs = Some (f, r)" "stops t"
  show ?thesis
  proof (cases cs')
    case Nil
    with * show ?thesis by (auto simp: scan_exp_def Cons split: if_splits)
  next
    case (Cons d ds)
    with * show ?thesis using digits_then_stop [of t ds] digits_then_stop [of t cs']
      by (auto simp: scan_exp_def \<open>cs = c # cs'\<close> split: if_splits)
  qed
qed (auto simp: scan_exp_def stops_def split: list.splits)

lemma scan_unsigned_append:
  assumes "scan_unsigned cs = Some (l, r)" and t: "stops t"
  shows "scan_unsigned (cs @ t) = Some (l, r @ t)"
proof -
  obtain i r1 f r2 e where "scan_int cs = Some (i, r1)" "scan_frac r1 = Some (f, r2)"
    "scan_exp r2 = Some (e, r)" "l = i @ f @ e"
    using assms(1) by (auto simp: scan_unsigned_def split: option.splits)
  from this(4) scan_int_append [OF this(1) t] scan_frac_append [OF this(2) t] scan_exp_append [OF this(3) t]
  show ?thesis by (simp add: scan_unsigned_def)
qed

lemma scan_unsigned_digit: "scan_unsigned cs = Some (l, r) \<Longrightarrow> \<exists>c cs'. cs = c # cs' \<and> is_digit c"
  by (cases cs) (auto simp: scan_unsigned_def scan_int_def split: option.splits if_splits)

lemma scan_number_append:
  "scan_number cs = Some (l, r) \<Longrightarrow> stops t \<Longrightarrow> scan_number (cs @ t) = Some (l, r @ t)"
  using scan_unsigned_append [of "tl cs" "tl l" r t] scan_unsigned_append [of cs l r t] scan_unsigned_digit [of cs l r]
  by (cases cs) (auto simp: scan_number_def split: if_splits)

lemma scan_number_start:
  "scan_number cs = Some (l, r) \<Longrightarrow> \<exists>c cs'. cs = c # cs' \<and> (c = CHR ''-'' \<or> is_digit c)"
  using scan_unsigned_digit [of cs l r] by (cases cs) (auto simp: scan_number_def split: if_splits)

lemma scan_number_itoa: "scan_number (itoa i) = Some (itoa i, [])"
proof -
  have digs: "scan_unsigned (digits n) = Some (digits n, [])" for n
  proof -
    have all: "\<forall>c \<in> set (digits n). is_digit c"
      using digits_chars [of _ n] digit_val_digit by (fastforce simp: is_digit_def)
    then have tw: "takeWhile is_digit (digits n) = digits n" "dropWhile is_digit (digits n) = []"
      by (simp_all add: dropWhile_eq_Nil_conv)
    have lead: "digits n = [CHR ''0'']" if "hd (digits n) = CHR ''0''"
      using that
    proof (induction n rule: digits.induct)
      case (1 n)
      show ?case
      proof (cases "n < 10")
        case True
        then show ?thesis using 1(2) by (simp add: digits.simps [of n])
      next
        case False
        then have "digits n = digits (n div 10) @ [digit (n mod 10)]" by (subst digits.simps) simp
        with 1 False have "digits (n div 10) = [CHR ''0'']" by simp
        then have "n div 10 = 0" using digits_val_digits [of "n div 10"] by (simp add: digit_val_def)
        with False show ?thesis by simp
      qed
    qed
    obtain d ds where ds: "digits n = d # ds" by (cases "digits n") auto
    have "scan_int (digits n) = Some (digits n, [])"
    proof (cases "d = CHR ''0''")
      case True
      with lead ds have "ds = []" by simp
      then show ?thesis unfolding scan_int_def tw Let_def by (simp add: ds True)
    next
      case False
      then show ?thesis unfolding scan_int_def tw Let_def by (simp add: ds)
    qed
    then show ?thesis by (simp add: scan_unsigned_def scan_frac_def scan_exp_def)
  qed
  have "hd (digits n) \<noteq> CHR ''-''" for n
  proof -
    obtain d where "hd (digits n) = digit d" "d < 10" using digits_chars [OF hd_in_set] by auto
    then show ?thesis by (simp add: digit_not_special)
  qed
  with digs show ?thesis by (simp add: itoa_def scan_number_def)
qed

lemma json_text_start:
  "json_ok v \<Longrightarrow> \<exists>c cs. json_text v = c # cs \<and> \<not> is_ws c"
proof (cases v)
  case (JNum s)
  assume "json_ok v"
  then obtain c cs where "s = c # cs" "c = CHR ''-'' \<or> is_digit c"
    using scan_number_start [of s s "[]"] by (auto simp: JNum)
  then show ?thesis by (auto simp: JNum is_digit_code is_ws_def)
qed (simp_all add: is_ws_def json_string_def quote_def)

lemma digit_not_delim:
  "is_digit c \<Longrightarrow> c \<noteq> quote \<and> c \<noteq> CHR ''{'' \<and> c \<noteq> CHR ''['' \<and> c \<noteq> CHR ''n'' \<and> c \<noteq> CHR ''t'' \<and> c \<noteq> CHR ''f'' \<and> \<not> is_ws c"
  by (auto simp: is_digit_code quote_def is_ws_def)

lemma has_prefix_Cons: "has_prefix (c # cs) (d # ds) \<longleftrightarrow> c = d \<and> has_prefix cs ds"
  by (simp add: has_prefix_def)

lemma json_value_number:
  assumes "scan_number s = Some (s, [])" and "stops r" and "n \<noteq> 0"
  shows "json_value n (s @ r) = Some (JNum s, r)"
proof -
  obtain c cs where s: "s = c # cs" "c = CHR ''-'' \<or> is_digit c" using scan_number_start [OF assms(1)] by blast
  have c: "c \<noteq> quote \<and> c \<noteq> CHR ''{'' \<and> c \<noteq> CHR ''['' \<and> c \<noteq> CHR ''n'' \<and> c \<noteq> CHR ''t'' \<and> c \<noteq> CHR ''f'' \<and> \<not> is_ws c"
  proof (cases "c = CHR ''-''")
    case True
    then show ?thesis by (simp add: quote_def is_ws_def)
  next
    case False
    with s(2) show ?thesis using digit_not_delim [of c] by blast
  qed
  obtain m where n: "n = Suc m" using assms(3) by (cases n) auto
  have "scan_number (c # cs @ r) = Some (s, r)" using scan_number_append [OF assms(1,2)] by (simp add: s(1))
  then show ?thesis using c by (simp add: s(1) n has_prefix_Cons)
qed

lemma json_text_not_close:
  "json_ok v \<Longrightarrow> \<exists>c cs. json_text v = c # cs \<and> \<not> is_ws c \<and> c \<noteq> CHR '']''"
  by (cases v) (auto simp: is_ws_def json_string_def quote_def is_digit_code dest!: scan_number_start)

lemma skip_ws_string: "skip_ws (json_string s @ r) = json_string s @ r"
  by (simp add: json_string_def)

text \<open>The three readers together, on what the three writers produce. The fuel needed is linear in
  the length of the text.\<close>

lemma json_reads:
  "json_ok v \<Longrightarrow> stops r \<Longrightarrow> 2 * length (json_text v @ r) < n \<Longrightarrow>
     json_value n (json_text v @ r) = Some (v, r)"
  "\<forall>v \<in> set vs. json_ok v \<Longrightarrow> json_ok v0 \<Longrightarrow> 2 * length (json_text v0 @ json_texts vs @ r) + 1 < n \<Longrightarrow>
     (\<And>r n. stops r \<Longrightarrow> 2 * length (json_text v0 @ r) < n \<Longrightarrow> json_value n (json_text v0 @ r) = Some (v0, r)) \<Longrightarrow>
     json_elems n (json_text v0 @ json_texts vs @ r) = Some (v0 # vs, r)"
  "\<forall>kv \<in> set ms. json_ok (snd kv) \<Longrightarrow> json_ok v0 \<Longrightarrow>
     2 * length (json_string k0 @ CHR '':'' # json_text v0 @ json_fields ms @ r) + 1 < n \<Longrightarrow>
     (\<And>r n. stops r \<Longrightarrow> 2 * length (json_text v0 @ r) < n \<Longrightarrow> json_value n (json_text v0 @ r) = Some (v0, r)) \<Longrightarrow>
     json_members n (json_string k0 @ CHR '':'' # json_text v0 @ json_fields ms @ r) = Some ((k0, v0) # ms, r)"
proof (induction v and vs and ms arbitrary: r n and v0 r n and k0 v0 r n
    rule: json_text_json_texts_json_fields.induct)
  case 1
  then show ?case by (cases n) (simp_all add: is_ws_def quote_def has_prefix_def)
next
  case (2 b)
  then show ?case by (cases n; cases b) (simp_all add: is_ws_def quote_def has_prefix_def)
next
  case (3 s)
  then show ?case using json_value_number [of s r n] by simp
next
  case (4 s)
  then show ?case using json_chars_body [of s r] by (cases n) (simp_all add: json_string_def)
next
  case (5 vs)
  obtain m where n: "n = Suc m" using 5 by (cases n) auto
  show ?case
  proof (cases vs)
    case Nil
    then show ?thesis by (simp add: n is_ws_def quote_def)
  next
    case (Cons v vs')
    have v: "json_ok v" "\<forall>v \<in> set vs'. json_ok v" using 5(3) by (simp_all add: Cons)
    have "json_elems m (json_text v @ json_texts vs' @ r) = Some (v # vs', r)"
      by (rule 5(2) [OF Cons v(2) v(1)]) (use 5(5) n in \<open>simp add: Cons\<close>, rule 5(1) [OF Cons v(1)])
    then show ?thesis using json_text_not_close [OF v(1)]
      by (auto simp: n Cons is_ws_def quote_def has_prefix_def)
  qed
next
  case (6 ms)
  obtain m where n: "n = Suc m" using 6 by (cases n) auto
  show ?case
  proof (cases ms)
    case Nil
    then show ?thesis by (simp add: n is_ws_def quote_def)
  next
    case (Cons kv ms')
    obtain k v where kv: "kv = (k, v)" by (cases kv)
    have v: "json_ok v" "\<forall>kv \<in> set ms'. json_ok (snd kv)" using 6(3) by (simp_all add: Cons kv)
    have "json_members m (json_string k @ CHR '':'' # json_text v @ json_fields ms' @ r) = Some ((k, v) # ms', r)"
      by (rule 6(2) [OF Cons kv [symmetric] v(2) v(1)])
        (use 6(5) n in \<open>simp add: Cons kv\<close>, rule 6(1) [OF Cons kv [symmetric] v(1)])
    then show ?thesis by (simp add: n Cons kv json_string_def is_ws_def quote_def)
  qed
next
  case (7 v0 r n)
  obtain m where n: "n = Suc m" using 7 by (cases n) auto
  have "json_value m (json_text v0 @ CHR '']'' # r) = Some (v0, CHR '']'' # r)"
    by (rule 7(4)) (use 7(3) n in simp_all)
  then show ?case by (simp add: n)
next
  case (8 v vs v0 r n)
  obtain m where n: "n = Suc m" using 8 by (cases n) auto
  have v: "json_ok v" "\<forall>v \<in> set vs. json_ok v" using 8(3) by simp_all
  have "json_value m (json_text v0 @ CHR '','' # json_text v @ json_texts vs @ r)
      = Some (v0, CHR '','' # json_text v @ json_texts vs @ r)"
    by (rule 8(6)) (use 8(5) n in simp_all)
  moreover have "json_elems m (json_text v @ json_texts vs @ r) = Some (v # vs, r)"
    by (rule 8(2) [OF v(2) v(1)]) (use 8(5) n in simp, rule 8(1) [OF v(1)])
  ultimately show ?case by (simp add: n)
next
  case (9 k0 v0 r n)
  obtain m where n: "n = Suc m" using 9 by (cases n) auto
  have "json_value m (json_text v0 @ CHR ''}'' # r) = Some (v0, CHR ''}'' # r)"
    by (rule 9(4)) (use 9(3) n in simp_all)
  then show ?case using parse_json_string [of k0 "CHR '':'' # json_text v0 @ CHR ''}'' # r"]
    by (simp add: n skip_ws_string)
next
  case (10 k v ms k0 v0 r n)
  obtain m where n: "n = Suc m" using 10 by (cases n) auto
  have v: "json_ok v" "\<forall>kv \<in> set ms. json_ok (snd kv)" using 10(3) by simp_all
  let ?rest = "json_string k @ CHR '':'' # json_text v @ json_fields ms @ r"
  have "json_value m (json_text v0 @ CHR '','' # ?rest) = Some (v0, CHR '','' # ?rest)"
    by (rule 10(6)) (use 10(5) n in simp_all)
  moreover have "json_members m ?rest = Some ((k, v) # ms, r)"
    by (rule 10(2) [OF v(2) v(1)]) (use 10(5) n in simp, rule 10(1) [OF v(1)])
  ultimately show ?case using parse_json_string [of k0 "CHR '':'' # json_text v0 @ CHR '','' # ?rest"]
    by (simp add: n skip_ws_string)
qed

lemma json_text_parse: "json_ok v \<Longrightarrow> json_parse (json_text v) = Some v"
  using json_reads(1) [of v "[]" "2 * length (json_text v) + 1"] by (simp add: json_parse_def)

lemma json_text_decode: "json_ok v \<Longrightarrow> json_decode (json_text v) = Decoded v"
  using json_reads(1) [of v "[]" "2 * length (json_text v) + 1"] json_text_start [of v]
  by (auto simp: json_decode_def)

section \<open>The fuel is enough\<close>

lemma skip_ws_le: "length (skip_ws cs) \<le> length cs"
  by (simp add: skip_ws_def length_dropWhile_le)

lemma skip_ws_length: "skip_ws cs = c # r \<Longrightarrow> length r < length cs"
  using skip_ws_le [of cs] by simp

lemma scan_number_length: "scan_number cs = Some (l, r) \<Longrightarrow> length r < length cs"
proof -
  have int: "length r1 < length xs" if "scan_int xs = Some (i, r1)" for xs i r1
  proof -
    have "takeWhile is_digit xs @ dropWhile is_digit xs = xs" by simp
    then have "length (takeWhile is_digit xs) + length (dropWhile is_digit xs) = length xs"
      by (metis length_append)
    with that show ?thesis by (auto simp: scan_int_def Let_def split: list.splits if_splits)
  qed
  have frac: "length r2 \<le> length xs" if "scan_frac xs = Some (f, r2)" for xs f r2
    using that by (auto simp: scan_frac_def split: list.splits if_splits simp: le_SucI length_dropWhile_le)
  have exp: "length r3 \<le> length xs" if "scan_exp xs = Some (e, r3)" for xs e r3
    using that by (auto simp: scan_exp_def Let_def le_SucI length_dropWhile_le
        split: list.splits if_splits)
  have "length r < length xs" if "scan_unsigned xs = Some (l, r)" for xs l
    using that by (auto simp: scan_unsigned_def split: option.splits dest!: int frac exp)
  then show "scan_number cs = Some (l, r) \<Longrightarrow> length r < length cs"
    by (cases cs) (fastforce simp: scan_number_def split: if_splits)+
qed

lemma json_shrinks:
  "json_value n cs = Some (v, r) \<Longrightarrow> length r < length cs"
  "json_elems n cs = Some (vs, r) \<Longrightarrow> length r < length cs"
  "json_members n cs = Some (ms, r) \<Longrightarrow> length r < length cs"
proof (induction n cs and n cs and n cs arbitrary: v r and vs r and ms r
    rule: json_value_json_elems_json_members.induct)
  case (2 n cs)
  show ?case
  proof (cases "skip_ws cs")
    case (Cons c r')
    have le: "length r' < length cs" by (rule skip_ws_length [OF Cons])
    have tl: "length (tl (skip_ws r')) \<le> length r'"
      by (metis skip_ws_def length_dropWhile_le length_tl diff_le_self le_trans)
    show ?thesis
      using 2(3) le tl 2(1) [OF Cons] 2(2) [OF Cons] unfolding json_value.simps Cons list.case
      by (auto split: if_splits dest!: json_chars_length scan_number_length intro: less_trans le_less_trans)
  qed (use 2 in simp)
next
  case (4 n cs)
  obtain v0 r0 where v: "json_value n cs = Some (v0, r0)" using 4(3) by (auto split: option.splits)
  then have "length r0 < length cs" by (rule 4(1))
  moreover obtain c r1 where c: "skip_ws r0 = c # r1" using 4(3) v by (auto split: list.splits)
  moreover have "length r1 < length r0" by (rule skip_ws_length [OF c])
  moreover have "length r' < length r1" if "c = CHR '',''" "json_elems n r1 = Some (vs', r')" for vs' r'
    using 4(2) [OF v refl c] that by auto
  ultimately show ?case
    using 4(3) v by (fastforce split: if_splits)
next
  case (6 n cs)
  obtain k r0 where k: "parse_string (skip_ws cs) = Some (k, r0)" using 6(3) by (auto split: option.splits)
  have "length r0 < length cs" using parse_string_length [OF k] skip_ws_le [of cs] by simp
  moreover obtain r1 where c: "skip_ws r0 = CHR '':'' # r1"
    using 6(3) k by (auto split: list.splits if_splits)
  moreover have "length r1 < length r0" by (rule skip_ws_length [OF c])
  moreover obtain v0 r2 where v: "json_value n r1 = Some (v0, r2)"
    using 6(3) k c by (auto split: option.splits)
  moreover have "length r2 < length r1" using 6(1) [OF k refl c] v by simp
  moreover obtain d r3 where d: "skip_ws r2 = d # r3" using 6(3) k c v by (auto split: list.splits)
  moreover have "length r3 < length r2" by (rule skip_ws_length [OF d])
  moreover have "length r' < length r3" if "d = CHR '',''" "json_members n r3 = Some (ms', r')" for ms' r'
    using 6(2) [OF k refl c _ v refl d] that by auto
  ultimately show ?case
    using 6(3) k by (fastforce split: if_splits)
qed simp_all

text \<open>With more fuel than twice the length of the text, the readers do not depend on it.\<close>

lemma json_fuel:
  "2 * length cs < n \<Longrightarrow> 2 * length cs < m \<Longrightarrow> json_value n cs = json_value m cs"
  "2 * length cs + 1 < n \<Longrightarrow> 2 * length cs + 1 < m \<Longrightarrow> json_elems n cs = json_elems m cs"
  "2 * length cs + 1 < n \<Longrightarrow> 2 * length cs + 1 < m \<Longrightarrow> json_members n cs = json_members m cs"
proof (induction n cs and n cs and n cs arbitrary: m and m and m
    rule: json_value_json_elems_json_members.induct)
  case (2 n cs)
  obtain m' where m: "m = Suc m'" using 2(4) by (cases m) auto
  show ?case
  proof (cases "skip_ws cs")
    case (Cons c r)
    have "length r < length cs" by (rule skip_ws_length [OF Cons])
    then have b: "2 * length r + 1 < n" "2 * length r + 1 < m'" using 2(3,4) m by simp_all
    have mem: "json_members n r = json_members m' r" if "c = CHR ''{''" "\<not> (skip_ws r \<noteq> [] \<and> hd (skip_ws r) = CHR ''}'')"
      using 2(1) [OF Cons _ that b] that by (simp add: quote_def)
    have el: "json_elems n r = json_elems m' r" if "c = CHR ''[''" "\<not> (skip_ws r \<noteq> [] \<and> hd (skip_ws r) = CHR '']'')"
      using 2(2) [OF Cons _ _ that b] that by (simp add: quote_def)
    show ?thesis using mem el unfolding m json_value.simps Cons list.case
      by (cases "c = CHR ''{''"; cases "c = CHR ''[''") simp_all
  qed (simp add: m)
next
  case (4 n cs)
  obtain m' where m: "m = Suc m'" using 4(4) by (cases m) auto
  have v: "json_value n cs = json_value m' cs" by (rule 4(1)) (use 4(3,4) m in simp_all)
  show ?case
  proof (cases "json_value n cs")
    case (Some vr)
    obtain v0 r0 where vr: "vr = (v0, r0)" by (cases vr)
    show ?thesis
    proof (cases "skip_ws r0")
      case (Cons c r1)
      have "length r1 < length cs"
        using skip_ws_length [OF Cons] json_shrinks(1) [of n cs v0 r0] Some vr by simp
      then have "json_elems n r1 = json_elems m' r1" if "c = CHR '',''"
        using 4(2) [OF Some vr [symmetric] Cons _ that, of m'] 4(3,4) m that by simp
      then show ?thesis using Some v by (simp add: m vr Cons)
    qed (use Some v in \<open>simp add: m vr\<close>)
  qed (use v in \<open>simp add: m\<close>)
next
  case (6 n cs)
  obtain m' where m: "m = Suc m'" using 6(4) by (cases m) auto
  show ?case
  proof (cases "parse_string (skip_ws cs)")
    case (Some kr)
    obtain k r0 where kr: "kr = (k, r0)" by (cases kr)
    show ?thesis
    proof (cases "skip_ws r0")
      case (Cons c r1)
      have r1: "length r1 < length cs"
        using skip_ws_length [OF Cons] parse_string_length [of "skip_ws cs" k r0] Some kr skip_ws_le [of cs] by simp
      have v: "json_value n r1 = json_value m' r1" if "c = CHR '':''"
        using 6(1) [OF Some kr [symmetric] Cons, of m'] 6(3,4) m r1 that by simp
      have "json_members n r3 = json_members m' r3"
        if c: "c = CHR '':''" and v0: "json_value n r1 = Some (v0, r2)" and d: "skip_ws r2 = CHR '','' # r3" for v0 r2 r3
      proof -
        have "length r3 < length cs"
          using skip_ws_length [OF d] json_shrinks(1) [OF v0] r1 by simp
        then show ?thesis
          using 6(2) [OF Some kr [symmetric] Cons _ v0 refl d, of m'] 6(3,4) m c by simp
      qed
      then show ?thesis
        using v by (auto simp: m Some kr Cons split: option.splits prod.splits list.splits)
    qed (simp add: m Some kr)
  qed (simp add: m)
qed simp_all

end
