(* ===== verification/Sse.thy ===== *)
theory Sse
  imports Jsonv Runtime
begin

text \<open>
  The event stream between the daemon and its client: the encoder of
  \<open>internal/api/handlers.go\<close> (\<open>sseWriter\<close>) with the bodies of the two streaming handlers, and the
  client's parser \<open>parseSSE\<close> of \<open>pkg/kotakpasir/exec_stream.go\<close>. The round trip is proved on the
  bytes: what the parser makes of what the encoder wrote.
\<close>

definition newline :: char where "newline = CHR 0x0A"
definition carriage :: char where "carriage = CHR 0x0D"

definition millisecond :: int64 where "millisecond = 1000000"

text \<open>\<open>Duration.Milliseconds()\<close>: the quotient, towards zero.\<close>

definition milliseconds :: "duration \<Rightarrow> int" where
  "milliseconds d = (if sint d < 0 then - ((- sint d) div 1000000) else sint d div 1000000)"

section \<open>The encoder\<close>

definition data_line :: "string \<Rightarrow> string" where
  "data_line l = ''data: '' @ l @ [newline]"

definition sse_send :: "string \<Rightarrow> string \<Rightarrow> string" where
  "sse_send event data =
     (if event \<noteq> [] then ''event: '' @ event @ [newline] else [])
     @ concat (map data_line (split_on newline data)) @ [newline]"

text \<open>The \<open>io.Writer\<close> returned by \<open>tagged\<close>.\<close>

definition tagged_write :: "string \<Rightarrow> string \<Rightarrow> string" where
  "tagged_write event p = (if p = [] then [] else sse_send event p)"

definition stream_event :: "stream \<Rightarrow> string" where
  "stream_event s = (case s of Stdout \<Rightarrow> ''stdout'' | Stderr \<Rightarrow> ''stderr'')"

definition exit_json :: "exec_result \<Rightarrow> json" where
  "exit_json res = JObj [(''duration_ms'', JNum (itoa (milliseconds (xr_duration res)))),
     (''exit_code'', JNum (itoa (xr_exit_code res)))]"

text \<open>The events of an exec with the given output: the last one is \<open>exit\<close>, or \<open>error\<close> with the
  message (\<open>None\<close> stands for "not found").\<close>

definition exec_stream_body :: "entry list \<Rightarrow> string option + exec_result \<Rightarrow> string" where
  "exec_stream_body chunks outcome =
     concat (map (\<lambda>e. tagged_write (stream_event (e_stream e)) (e_data e)) chunks)
     @ (case outcome of
          Inl None \<Rightarrow> sse_send ''error'' (CHR ''{'' # go_quote ''error'' @ CHR '':'' # go_quote ''not found'' @ ''}'')
        | Inl (Some msg) \<Rightarrow> sse_send ''error'' (CHR ''{'' # go_quote ''error'' @ CHR '':'' # go_quote msg @ ''}'')
        | Inr res \<Rightarrow> sse_send ''exit'' (json_text (exit_json res)))"

text \<open>The events of a followed log.\<close>

definition log_stream_body :: "entry list \<Rightarrow> string" where
  "log_stream_body es = concat (map (\<lambda>e. sse_send (stream_event (e_stream e)) (e_data e)) es)"

section \<open>The parser\<close>

datatype sse_error =
    WriteError string | ExitParse | ServerStream string | UnexpectedEof | ReadError string

text \<open>The local variables of \<open>parseSSE\<close>, and what was written so far to the caller's writers.\<close>

record sse_state =
  ss_event :: string
  ss_data :: string
  ss_res :: "exec_result option"
  ss_err :: "sse_error option"
  ss_out :: "(stream \<times> string) list"

definition sse_init :: sse_state where
  "sse_init = \<lparr> ss_event = [], ss_data = [], ss_res = None, ss_err = None, ss_out = [] \<rparr>"

text \<open>The caller's writers: whether each is there, and the error of a write after the writes so
  far.\<close>

record writers =
  w_has :: "stream \<Rightarrow> bool"
  w_fail :: "(stream \<times> string) list \<Rightarrow> stream \<Rightarrow> string \<Rightarrow> string option"

definition write_to :: "writers \<Rightarrow> stream \<Rightarrow> string \<Rightarrow> sse_state \<Rightarrow> sse_error option \<times> sse_state" where
  "write_to w s dt st =
     (if w_has w s then
        (case w_fail w (ss_out st) s dt of
           Some e \<Rightarrow> (Some (WriteError e), st)
         | None \<Rightarrow> (None, st\<lparr> ss_out := ss_out st @ [(s, dt)] \<rparr>))
      else (None, st))"

text \<open>Decoding of the \<open>exit\<close> and \<open>error\<close> payloads into their structs.\<close>

definition decode_exit :: "string \<Rightarrow> exec_result option" where
  "decode_exit dt =
     (let make = (\<lambda>code ms. \<lparr> xr_exit_code = code, xr_stdout = [], xr_stderr = [],
                    xr_duration = word_of_int ms * millisecond \<rparr>)
      in case json_parse dt of
           Some JNull \<Rightarrow> Some (make 0 0)
         | Some (JObj ms) \<Rightarrow>
             (case (json_field as_int ''exit_code'' ms 0, json_field as_int ''duration_ms'' ms 0) of
                (Some c, Some d) \<Rightarrow> Some (make c d)
              | _ \<Rightarrow> None)
         | _ \<Rightarrow> None)"

definition decode_error :: "string \<Rightarrow> string" where
  "decode_error dt =
     (case json_parse dt of
        Some (JObj ms) \<Rightarrow> json_field_lax as_string ''error'' ms []
      | _ \<Rightarrow> [])"

definition sse_flush :: "writers \<Rightarrow> sse_state \<Rightarrow> sse_error option \<times> sse_state" where
  "sse_flush w st =
     (let ev = ss_event st; dt = ss_data st; st' = st\<lparr> ss_event := [], ss_data := [] \<rparr>
      in if ev = [] \<and> dt = [] then (None, st')
         else if ev = ''stdout'' then write_to w Stdout dt st'
         else if ev = ''stderr'' then write_to w Stderr dt st'
         else if ev = ''exit'' then
           (case decode_exit dt of
              None \<Rightarrow> (Some ExitParse, st')
            | Some r \<Rightarrow> (None, st'\<lparr> ss_res := Some r \<rparr>))
         else if ev = ''error'' then
           (let x = decode_error dt
            in (None, st'\<lparr> ss_err := Some (ServerStream (if x = [] then dt else x)) \<rparr>))
         else (None, st'))"

type_synonym sse_result = "exec_result option \<times> sse_error option"

text \<open>The checks after a flush: the parser returns once it has an exit or an error.\<close>

definition sse_check :: "sse_error option \<times> sse_state \<Rightarrow> (sse_result \<times> sse_state) + sse_state" where
  "sse_check = (\<lambda>(ferr, st).
     case ferr of
       Some e \<Rightarrow> Inl ((None, Some e), st)
     | None \<Rightarrow>
         (if ss_res st \<noteq> None then Inl ((ss_res st, ss_err st), st)
          else if ss_err st \<noteq> None then Inl ((None, ss_err st), st)
          else Inr st))"

definition add_data :: "string \<Rightarrow> string \<Rightarrow> string" where
  "add_data data l = (if data \<noteq> [] then data @ newline # l else l)"

definition sse_line :: "writers \<Rightarrow> string \<Rightarrow> sse_state \<Rightarrow> (sse_result \<times> sse_state) + sse_state" where
  "sse_line w raw st =
     (let line = trim_right raw {carriage, newline}
      in if line = [] then sse_check (sse_flush w st)
         else if has_prefix line ''event: '' then
           Inr (st\<lparr> ss_event := ss_event st @ trim_prefix line ''event: '' \<rparr>)
         else if has_prefix line ''data: '' then
           Inr (st\<lparr> ss_data := add_data (ss_data st) (trim_prefix line ''data: '') \<rparr>)
         else Inr st)"

fun sse_lines :: "writers \<Rightarrow> string list \<Rightarrow> sse_state \<Rightarrow> (sse_result \<times> sse_state) + sse_state" where
  "sse_lines w [] st = Inr st"
| "sse_lines w (l # ls) st =
     (case sse_line w l st of Inl r \<Rightarrow> Inl r | Inr st' \<Rightarrow> sse_lines w ls st')"

text \<open>\<open>ReadString\<close> yields the lines one by one with their newline; the last call returns what is
  left, if anything, together with the error that ended the stream (\<open>None\<close> is \<open>io.EOF\<close>). The
  newline itself is cut by the trimming.\<close>

definition parse_sse :: "writers \<Rightarrow> string \<Rightarrow> string option \<Rightarrow> sse_result \<times> sse_state" where
  "parse_sse w content read_err =
     (let ls = split_on newline content
      in case sse_lines w (butlast ls @ (if last ls = [] then [] else [last ls])) sse_init of
           Inl r \<Rightarrow> r
         | Inr st \<Rightarrow>
             (case read_err of
                Some e \<Rightarrow> ((None, Some (ReadError e)), st)
              | None \<Rightarrow>
                  (case sse_check (sse_flush w st) of
                     Inl r \<Rightarrow> r
                   | Inr st' \<Rightarrow> ((None, Some UnexpectedEof), st'))))"

section \<open>Lines\<close>

lemma newline_carriage [simp]: "newline \<noteq> carriage" "carriage \<noteq> newline"
  by (simp_all add: newline_def carriage_def)

definition unlines :: "string list \<Rightarrow> string" where
  "unlines ls = concat (map (\<lambda>l. l @ [newline]) ls)"

lemma unlines_simps [simp]:
  "unlines [] = []" "unlines (l # ls) = l @ newline # unlines ls"
  "unlines (xs @ ys) = unlines xs @ unlines ys"
  by (simp_all add: unlines_def)

lemma split_unlines: "\<forall>l \<in> set ls. newline \<notin> set l \<Longrightarrow> split_on newline (unlines ls) = ls @ [[]]"
  by (induction ls) (simp_all add: split_on_append_sep)

lemma parse_unlines:
  assumes "\<forall>l \<in> set ls. newline \<notin> set l"
  shows "parse_sse w (unlines ls) e =
    (case sse_lines w ls sse_init of
       Inl r \<Rightarrow> r
     | Inr st \<Rightarrow> (case e of
         Some x \<Rightarrow> ((None, Some (ReadError x)), st)
       | None \<Rightarrow> (case sse_check (sse_flush w st) of Inl r \<Rightarrow> r | Inr st' \<Rightarrow> ((None, Some UnexpectedEof), st'))))"
  by (simp add: parse_sse_def split_unlines [OF assms])

lemma sse_lines_append:
  "sse_lines w (xs @ ys) st = (case sse_lines w xs st of Inl r \<Rightarrow> Inl r | Inr st' \<Rightarrow> sse_lines w ys st')"
  by (induction xs arbitrary: st) (auto split: sum.splits)

lemma trim_right_append:
  "p \<noteq> [] \<Longrightarrow> last p \<notin> cs \<Longrightarrow> trim_right (p @ l) cs = p @ trim_right l cs"
proof (induction l rule: rev_induct)
  case (snoc c l)
  then show ?case
    using trim_right_snoc [of "p @ l" c cs] trim_right_snoc [of l c cs] by simp
qed (use trim_right_last [of p cs] trim_right_last [of "[]" cs] in simp)

definition cut_line :: "string \<Rightarrow> string" where
  "cut_line l = trim_right l {carriage, newline}"

text \<open>The data of an event as the parser reassembles it.\<close>

definition sse_text :: "string \<Rightarrow> string" where
  "sse_text s = foldl add_data [] (map cut_line (split_on newline s))"

lemma sse_data_line:
  "sse_line w (''data: '' @ l) st = Inr (st\<lparr> ss_data := add_data (ss_data st) (cut_line l) \<rparr>)"
proof -
  have "trim_right (''data: '' @ l) {carriage, newline} = ''data: '' @ cut_line l"
    unfolding cut_line_def by (rule trim_right_append) (simp_all add: carriage_def newline_def)
  moreover have "\<not> has_prefix (''data: '' @ x) ''event: ''" for x by (simp add: has_prefix_def)
  moreover have "has_prefix (''data: '' @ x) ''data: ''" "trim_prefix (''data: '' @ x) ''data: '' = x" for x
    by (rule has_prefix_append, rule trim_prefix_append)
  ultimately show ?thesis by (simp add: sse_line_def Let_def del: append.simps)
qed

lemma sse_data_lines:
  "sse_lines w (map ((@) ''data: '') ls) st
     = Inr (st\<lparr> ss_data := foldl add_data (ss_data st) (map cut_line ls) \<rparr>)"
  by (induction ls arbitrary: st) (simp_all add: sse_data_line del: append.simps)

lemma sse_empty_line: "sse_line w [] st = sse_check (sse_flush w st)"
  by (simp add: sse_line_def trim_right_def)

text \<open>The names of the program's events.\<close>

definition event_names :: "string set" where
  "event_names = {''stdout'', ''stderr'', ''exit'', ''error''}"

lemma sse_event_line:
  assumes "ev \<in> event_names"
  shows "sse_line w (''event: '' @ ev) st = Inr (st\<lparr> ss_event := ss_event st @ ev \<rparr>)"
proof -
  have "cut_line ev = ev" using assms
    unfolding cut_line_def by (intro trim_right_last) (auto simp: event_names_def carriage_def newline_def)
  then have "trim_right (''event: '' @ ev) {carriage, newline} = ''event: '' @ ev"
    using trim_right_append [of "''event: ''" "{carriage, newline}" ev]
    by (simp add: cut_line_def carriage_def newline_def)
  moreover have "has_prefix (''event: '' @ x) ''event: ''" "trim_prefix (''event: '' @ x) ''event: '' = x" for x
    by (rule has_prefix_append, rule trim_prefix_append)
  ultimately show ?thesis by (simp add: sse_line_def Let_def del: append.simps)
qed

definition event_lines :: "string \<Rightarrow> string \<Rightarrow> string list" where
  "event_lines ev data = (''event: '' @ ev) # map ((@) ''data: '') (split_on newline data) @ [[]]"

lemma sse_send_lines: "ev \<noteq> [] \<Longrightarrow> sse_send ev data = unlines (event_lines ev data)"
proof -
  have "concat (map data_line ls) = unlines (map ((@) ''data: '') ls)" for ls
    by (induction ls) (simp_all add: data_line_def)
  then show "ev \<noteq> [] \<Longrightarrow> sse_send ev data = unlines (event_lines ev data)"
    by (simp add: sse_send_def event_lines_def)
qed

lemma event_lines_plain: "ev \<in> event_names \<Longrightarrow> l \<in> set (event_lines ev data) \<Longrightarrow> newline \<notin> set l"
  using split_on_no_sep [of _ newline data] by (auto simp: event_lines_def event_names_def newline_def)

lemma sse_event:
  assumes "ev \<in> event_names" and "ss_event st = []" and "ss_data st = []"
  shows "sse_lines w (event_lines ev data) st
    = sse_check (sse_flush w (st\<lparr> ss_event := ev, ss_data := sse_text data \<rparr>))"
proof -
  have "ss_event st @ ev = ev" using assms(2) by simp
  then show ?thesis
    by (simp add: event_lines_def sse_event_line [OF assms(1)] sse_lines_append sse_data_lines
        sse_empty_line sse_text_def assms(3) del: append_Cons split: sum.splits)
qed

section \<open>The text of an event\<close>

text \<open>A chunk that comes through unchanged: it does not start with a newline, and no line of it
  ends in a carriage return.\<close>

definition sse_plain :: "string \<Rightarrow> bool" where
  "sse_plain s \<longleftrightarrow> (s = [] \<or> hd s \<noteq> newline)
     \<and> (\<forall>l \<in> set (split_on newline s). l = [] \<or> last l \<noteq> carriage)"

lemma foldl_add_data: "d \<noteq> [] \<Longrightarrow> foldl add_data d ls = join_with [newline] (d # ls)"
proof (induction ls arbitrary: d)
  case (Cons l ls)
  have "add_data d l = d @ newline # l" using Cons.prems by (simp add: add_data_def)
  with Cons.IH [of "d @ newline # l"] show ?case by (cases ls) simp_all
qed simp

lemma cut_line_plain: "newline \<notin> set l \<Longrightarrow> l = [] \<or> last l \<noteq> carriage \<Longrightarrow> cut_line l = l"
  unfolding cut_line_def by (rule trim_right_last) (metis insertE last_in_set singletonD)

lemma sse_text_plain: "sse_plain s \<Longrightarrow> sse_text s = s"
proof -
  assume plain: "sse_plain s"
  obtain l ls where ls: "split_on newline s = l # ls" by (cases "split_on newline s") auto
  have "map cut_line (split_on newline s) = split_on newline s"
    using plain split_on_no_sep [of _ newline s] by (intro map_idI cut_line_plain) (auto simp: sse_plain_def)
  then have t: "sse_text s = foldl add_data l ls" by (simp add: sse_text_def ls add_data_def)
  show ?thesis
  proof (cases "l = []")
    case True
    have "s = join_with [newline] (l # ls)" using join_split_on [of newline s] by (simp add: ls)
    then have "s = []" using True plain by (cases ls) (auto simp: sse_plain_def)
    with ls True t show ?thesis by auto
  next
    case False
    then show ?thesis using join_split_on [of newline s] by (simp add: t foldl_add_data ls)
  qed
qed

section \<open>The round trip\<close>

lemma sse_chunk:
  assumes "\<forall>out s dt. w_fail w out s dt = None" and "ss_event st = []" "ss_data st = []"
    "ss_res st = None" "ss_err st = None"
  shows "sse_lines w (event_lines (stream_event s) data) st
    = Inr (st\<lparr> ss_out := ss_out st @ (if w_has w s then [(s, sse_text data)] else []) \<rparr>)"
proof -
  have "stream_event s \<in> event_names" by (cases s) (simp_all add: stream_event_def event_names_def)
  from sse_event [OF this assms(2,3)] assms show ?thesis
    by (cases s) (auto simp: sse_flush_def sse_check_def write_to_def stream_event_def Let_def)
qed

lemma sse_chunks:
  assumes "\<forall>out s dt. w_fail w out s dt = None"
  shows "ss_event st = [] \<Longrightarrow> ss_data st = [] \<Longrightarrow> ss_res st = None \<Longrightarrow> ss_err st = None \<Longrightarrow>
    sse_lines w (concat (map (\<lambda>e. event_lines (stream_event (e_stream e)) (e_data e)) es)) st
    = Inr (st\<lparr> ss_out := ss_out st
        @ map (\<lambda>e. (e_stream e, sse_text (e_data e))) (filter (\<lambda>e. w_has w (e_stream e)) es) \<rparr>)"
  by (induction es arbitrary: st) (simp_all add: sse_lines_append sse_chunk [OF assms])

lemma stream_event_not_Nil [simp]: "stream_event s \<noteq> []"
  by (cases s) (simp_all add: stream_event_def)

lemma tagged_unlines:
  "concat (map (\<lambda>e. tagged_write (stream_event (e_stream e)) (e_data e)) es)
    = unlines (concat (map (\<lambda>e. event_lines (stream_event (e_stream e)) (e_data e)) (filter (\<lambda>e. e_data e \<noteq> []) es)))"
  by (induction es) (simp_all add: tagged_write_def sse_send_lines)

lemma log_unlines:
  "log_stream_body es = unlines (concat (map (\<lambda>e. event_lines (stream_event (e_stream e)) (e_data e)) es))"
  by (induction es) (simp_all add: log_stream_body_def sse_send_lines)

lemma chunk_lines_plain:
  "l \<in> set (concat (map (\<lambda>e. event_lines (stream_event (e_stream e)) (e_data e)) es)) \<Longrightarrow> newline \<notin> set l"
proof -
  have "stream_event s \<in> event_names" for s
    by (cases s) (simp_all add: stream_event_def event_names_def)
  then show "l \<in> set (concat (map (\<lambda>e. event_lines (stream_event (e_stream e)) (e_data e)) es)) \<Longrightarrow> newline \<notin> set l"
    using event_lines_plain by auto
qed

subsection \<open>The last event\<close>

lemma sse_text_line: "newline \<notin> set s \<Longrightarrow> s = [] \<or> last s \<noteq> carriage \<Longrightarrow> sse_text s = s"
  by (simp add: sse_text_def split_on_single cut_line_plain add_data_def)

lemma itoa_no_newline: "newline \<notin> set (itoa i)"
proof -
  have "newline \<notin> set (digits n)" for n
    using digits_chars [of newline n] digit_not_special(3) by (force simp: newline_def is_space_def)
  then show ?thesis by (simp add: itoa_def newline_def)
qed

lemma exit_json_text:
  "json_text (exit_json res) = ''{\"duration_ms\":'' @ itoa (milliseconds (xr_duration res))
     @ '',\"exit_code\":'' @ itoa (xr_exit_code res) @ ''}''"
  by (simp add: exit_json_def json_string_def escape_char_def quote_def Let_def)

lemma milliseconds_range: "int_range (milliseconds d)"
  using int_range_sint [of d] by (auto simp: milliseconds_def int_range_def)

lemma field_names:
  "to_lower ''duration_ms'' = ''duration_ms''" "to_lower ''exit_code'' = ''exit_code''"
  "to_lower ''error'' = ''error''"
  by code_simp+

lemma decode_exit_json:
  assumes "int_range (xr_exit_code res)"
  shows "decode_exit (json_text (exit_json res)) = Some
    \<lparr> xr_exit_code = xr_exit_code res, xr_stdout = [], xr_stderr = [],
      xr_duration = word_of_int (milliseconds (xr_duration res)) * millisecond \<rparr>"
proof -
  have "json_parse (json_text (exit_json res)) = Some (exit_json res)"
    by (rule json_text_parse) (simp add: exit_json_def scan_number_itoa)
  then show ?thesis
    by (simp add: decode_exit_def exit_json_def field_names assms milliseconds_range)
qed

lemma sse_exit:
  assumes "int_range (xr_exit_code res)" "ss_event st = []" "ss_data st = []" "ss_err st = None"
  shows "sse_lines w (event_lines ''exit'' (json_text (exit_json res))) st
    = (let r = Some \<lparr> xr_exit_code = xr_exit_code res, xr_stdout = [], xr_stderr = [],
                       xr_duration = word_of_int (milliseconds (xr_duration res)) * millisecond \<rparr>
       in Inl ((r, None), st\<lparr> ss_res := r \<rparr>))"
proof -
  have "sse_text (json_text (exit_json res)) = json_text (exit_json res)"
    by (rule sse_text_line) (simp_all add: exit_json_text itoa_no_newline newline_def [symmetric],
        simp_all add: newline_def carriage_def)
  moreover have "''exit'' \<in> event_names" by (simp add: event_names_def)
  ultimately show ?thesis
    using assms by (cases st) (simp add: sse_event sse_flush_def decode_exit_json sse_check_def Let_def)
qed

text \<open>Messages that Go's \<open>%q\<close> and JSON quote alike.\<close>

definition quote_alike :: "string \<Rightarrow> bool" where
  "quote_alike s \<longleftrightarrow> (\<forall>c \<in> set s. let n = of_char c :: nat in (32 \<le> n \<and> n \<noteq> 127) \<or> n \<in> {8, 9, 10, 12, 13})"

lemma json_chars_quote_char:
  "quote_alike [c] \<Longrightarrow> json_chars (quote_char c @ cs) = map_option (map_prod ((#) c) id) (json_chars cs)"
proof -
  define n where "n = (of_char c :: nat)"
  have c: "c = char_of n" by (simp add: n_def)
  assume "quote_alike [c]"
  then consider (special) "n = 34 \<or> n = 92 \<or> n = 8 \<or> n = 9 \<or> n = 10 \<or> n = 12 \<or> n = 13"
    | (plain) "32 \<le> n" "n \<notin> {34, 92, 127}"
    by (auto simp: quote_alike_def n_def Let_def)
  then show ?thesis
  proof cases
    case special
    then have "c \<in> {CHR 0x22, CHR 0x5C, CHR 0x08, CHR 0x09, CHR 0x0A, CHR 0x0C, CHR 0x0D}"
      unfolding insert_iff empty_iff of_char_inj [symmetric] by (simp flip: n_def)
    then show ?thesis
      by (elim insertE emptyE) (simp_all add: quote_char_def quote_def backslash_def unescape_def)
  next
    case plain
    then have "c \<noteq> quote" "c \<noteq> backslash"
      by (auto simp: n_def quote_def backslash_def)
    with plain show ?thesis by (simp add: quote_char_def n_def [symmetric])
  qed
qed

lemma parse_go_quote: "quote_alike s \<Longrightarrow> parse_string (go_quote s @ r) = Some (s, r)"
proof -
  have "quote_alike s \<Longrightarrow> json_chars (concat (map quote_char s) @ quote # r) = Some (s, r)"
    by (induction s) (auto simp: json_chars_quote_char quote_alike_def)
  then show "quote_alike s \<Longrightarrow> parse_string (go_quote s @ r) = Some (s, r)"
    by (simp add: parse_string_def go_quote_def)
qed

definition error_json :: "string \<Rightarrow> string" where
  "error_json msg = CHR ''{'' # go_quote ''error'' @ CHR '':'' # go_quote msg @ ''}''"

lemma decode_error_json:
  assumes "quote_alike msg"
  shows "decode_error (error_json msg) = msg"
proof -
  obtain n where n: "2 * length (error_json msg) + 1 = Suc (Suc (Suc n))"
    by (simp add: error_json_def)
  have gq: "skip_ws (go_quote s @ r) = go_quote s @ r" for s r
    by (simp add: go_quote_def)
  have "json_value (Suc n) (go_quote msg @ ''}'') = Some (JStr msg, ''}'')"
    using parse_go_quote [OF assms, of "''}''"] by (simp add: go_quote_def parse_string_def)
  moreover have "parse_string (go_quote ''error'' @ r) = Some (''error'', r)" for r
    by (rule parse_go_quote) (simp add: quote_alike_def)
  ultimately have "json_members (Suc (Suc n)) (go_quote ''error'' @ CHR '':'' # go_quote msg @ ''}'')
      = Some ([(''error'', JStr msg)], [])"
    by (simp add: gq)
  then have "json_parse (error_json msg) = Some (JObj [(''error'', JStr msg)])"
    unfolding json_parse_def n
    by (simp add: error_json_def go_quote_def is_ws_def quote_def)
  then show ?thesis by (simp add: decode_error_def field_names)
qed

lemma error_json_plain:
  "newline \<notin> set (error_json msg) \<and> last (error_json msg) \<noteq> carriage"
proof -
  have hex: "n < 16 \<Longrightarrow> hex_digit n \<noteq> newline" for n
  proof -
    assume "n < 16"
    then have "(of_char (hex_digit n) :: nat) \<noteq> 10" by (simp add: hex_digit_def)
    then show ?thesis by (auto simp: newline_def)
  qed
  have "newline \<notin> set (quote_char c)" for c
  proof (cases "(of_char c :: nat) = 34 \<or> (of_char c :: nat) = 92 \<or> 32 \<le> (of_char c :: nat) \<and> (of_char c :: nat) \<noteq> 127")
    case True
    then have "c \<noteq> newline" by (auto simp: newline_def)
    with True show ?thesis by (auto simp: quote_char_def Let_def newline_def backslash_def)
  next
    case False
    moreover have h: "hex_digit (of_char c div 16) \<noteq> CHR 0x0A" "hex_digit (of_char c mod 16) \<noteq> CHR 0x0A"
      by (simp_all add: hex [unfolded newline_def] less_mult_imp_div_less)
    ultimately show ?thesis using h [symmetric]
      by (auto simp: quote_char_def Let_def newline_def backslash_def)
  qed
  then have "newline \<notin> set (go_quote s)" for s
    by (auto simp: go_quote_def quote_def newline_def)
  then show ?thesis by (simp add: error_json_def newline_def carriage_def)
qed

text \<open>An exec survives its way over the event stream. The parser, fed with the bytes that the
  streaming handler wrote for the chunks and the result of an exec (whatever comes after them),
  hands every chunk in order to the writer of its stream and returns the exit code and the duration
  in whole milliseconds. A chunk arrives as \<open>sse_text\<close> of what was sent, which is the chunk itself
  unless it starts with a newline or has a carriage return at the end of a line.\<close>

theorem exec_stream_roundtrip:
  assumes "\<forall>out s dt. w_fail w out s dt = None" and "int_range (xr_exit_code res)"
    and "parse_sse w (exec_stream_body chunks (Inr res)) read_err = (r, st)"
  shows "r = (Some \<lparr> xr_exit_code = xr_exit_code res, xr_stdout = [], xr_stderr = [],
                     xr_duration = word_of_int (milliseconds (xr_duration res)) * millisecond \<rparr>, None)
    \<and> ss_out st = map (\<lambda>e. (e_stream e, sse_text (e_data e)))
        (filter (\<lambda>e. e_data e \<noteq> [] \<and> w_has w (e_stream e)) chunks)
    \<and> (\<forall>e \<in> set chunks. sse_plain (e_data e) \<longrightarrow> sse_text (e_data e) = e_data e)"
proof -
  let ?ls = "concat (map (\<lambda>e. event_lines (stream_event (e_stream e)) (e_data e)) (filter (\<lambda>e. e_data e \<noteq> []) chunks))"
  let ?last = "event_lines ''exit'' (json_text (exit_json res))"
  have body: "exec_stream_body chunks (Inr res) = unlines (?ls @ ?last)"
    by (simp add: exec_stream_body_def tagged_unlines sse_send_lines)
  have "\<forall>l \<in> set (?ls @ ?last). newline \<notin> set l"
    using chunk_lines_plain event_lines_plain [of "''exit''"] by (auto simp: event_names_def)
  note parse = parse_unlines [OF this, of w read_err, folded body]
  have init: "ss_event sse_init = []" "ss_data sse_init = []" "ss_res sse_init = None"
    "ss_err sse_init = None" "ss_out sse_init = []" by (simp_all add: sse_init_def)
  have "sse_lines w (?ls @ ?last) sse_init =
     Inl ((Some \<lparr> xr_exit_code = xr_exit_code res, xr_stdout = [], xr_stderr = [],
                     xr_duration = word_of_int (milliseconds (xr_duration res)) * millisecond \<rparr>, None),
       sse_init\<lparr> ss_out := map (\<lambda>e. (e_stream e, sse_text (e_data e)))
          (filter (\<lambda>e. e_data e \<noteq> [] \<and> w_has w (e_stream e)) chunks),
        ss_res := Some \<lparr> xr_exit_code = xr_exit_code res, xr_stdout = [], xr_stderr = [],
                     xr_duration = word_of_int (milliseconds (xr_duration res)) * millisecond \<rparr> \<rparr>)"
    by (simp add: sse_lines_append sse_chunks [OF assms(1)] init sse_exit [OF assms(2)] Let_def conj_commute)
  with assms(3) parse show ?thesis by (auto simp: sse_text_plain)
qed

theorem exec_stream_roundtrip_witness:
  "ss_out (snd (parse_sse \<lparr> w_has = (\<lambda>_. True), w_fail = (\<lambda>_ _ _. None) \<rparr>
      (exec_stream_body [\<lparr> e_stream = Stderr, e_data = ''warning'' @ [newline], e_when = 0 \<rparr>]
         (Inr \<lparr> xr_exit_code = 3, xr_stdout = [], xr_stderr = [], xr_duration = 1500000 \<rparr>)) None))
    = [(Stderr, ''warning'' @ [newline])]"
proof -
  let ?w = "\<lparr> w_has = (\<lambda>_. True), w_fail = (\<lambda>_ _ _. None) \<rparr>"
  let ?e = "\<lparr> e_stream = Stderr, e_data = ''warning'' @ [newline], e_when = 0 \<rparr>"
  let ?res = "\<lparr> xr_exit_code = 3, xr_stdout = [], xr_stderr = [], xr_duration = 1500000 \<rparr>"
  obtain r st where p: "parse_sse ?w (exec_stream_body [?e] (Inr ?res)) None = (r, st)" by fastforce
  have "sse_plain (e_data ?e)" by (simp add: sse_plain_def newline_def carriage_def)
  with exec_stream_roundtrip [OF _ _ p] p show ?thesis by (simp add: int_range_def)
qed

text \<open>A failed exec and a followed log over the event stream. When the exec fails, the client
  gets the server's message as an error (for a message that Go's \<open>%q\<close> quotes as JSON does), after
  whatever chunks came before. When the stream of a followed log ends, the client has written every
  entry, in order, to the writer of its stream and reports the end of the stream.\<close>

theorem stream_errors_roundtrip:
  assumes "\<forall>out s dt. w_fail w out s dt = None"
  shows "(\<forall>msg. msg \<noteq> [] \<and> quote_alike msg \<longrightarrow>
       fst (parse_sse w (exec_stream_body chunks (Inl (Some msg))) read_err) = (None, Some (ServerStream msg)))
    \<and> fst (parse_sse w (exec_stream_body chunks (Inl None)) read_err) = (None, Some (ServerStream ''not found''))
    \<and> (\<exists>st. parse_sse w (log_stream_body es) None = ((None, Some UnexpectedEof), st)
         \<and> ss_out st = map (\<lambda>e. (e_stream e, sse_text (e_data e))) (filter (\<lambda>e. w_has w (e_stream e)) es))"
proof -
  have init: "ss_event sse_init = []" "ss_data sse_init = []" "ss_res sse_init = None"
    "ss_err sse_init = None" "ss_out sse_init = []" by (simp_all add: sse_init_def)
  let ?ls = "concat (map (\<lambda>e. event_lines (stream_event (e_stream e)) (e_data e)) (filter (\<lambda>e. e_data e \<noteq> []) chunks))"
  have err: "fst (parse_sse w (unlines (?ls @ event_lines ''error'' (error_json msg))) read_err)
      = (None, Some (ServerStream msg))" if m: "msg \<noteq> []" "quote_alike msg" for msg
  proof -
    have "''error'' \<in> event_names" by (simp add: event_names_def)
    moreover have "\<forall>l \<in> set (?ls @ event_lines ''error'' (error_json msg)). newline \<notin> set l"
      using chunk_lines_plain event_lines_plain [of "''error''"] by (auto simp: event_names_def)
    moreover have "sse_text (error_json msg) = error_json msg"
      using sse_text_line [of "error_json msg"] error_json_plain [of msg] by blast
    ultimately show ?thesis
      using m by (simp add: parse_unlines sse_lines_append sse_chunks [OF assms] init sse_event
          sse_flush_def decode_error_json sse_check_def Let_def del: unlines_simps(3))
  qed
  have body: "exec_stream_body chunks (Inl (Some msg)) = unlines (?ls @ event_lines ''error'' (error_json msg))"
    "exec_stream_body chunks (Inl None) = unlines (?ls @ event_lines ''error'' (error_json ''not found''))" for msg
    by (simp_all add: exec_stream_body_def tagged_unlines sse_send_lines error_json_def)
  have "\<forall>l \<in> set (concat (map (\<lambda>e. event_lines (stream_event (e_stream e)) (e_data e)) es)). newline \<notin> set l"
    using chunk_lines_plain by blast
  from parse_unlines [OF this, of w None]
  have "\<exists>st. parse_sse w (log_stream_body es) None = ((None, Some UnexpectedEof), st)
      \<and> ss_out st = map (\<lambda>e. (e_stream e, sse_text (e_data e))) (filter (\<lambda>e. w_has w (e_stream e)) es)"
    by (simp add: log_unlines sse_chunks [OF assms] init sse_flush_def sse_check_def Let_def)
  moreover have "quote_alike ''not found''" by (simp add: quote_alike_def)
  ultimately show ?thesis using err by (simp add: body)
qed

theorem stream_errors_roundtrip_witness:
  "fst (parse_sse \<lparr> w_has = (\<lambda>_. True), w_fail = (\<lambda>_ _ _. None) \<rparr>
      (exec_stream_body [] (Inl (Some ''sandbox u1 is stopped, not running''))) None)
    = (None, Some (ServerStream ''sandbox u1 is stopped, not running''))"
proof -
  have "quote_alike ''sandbox u1 is stopped, not running''" by (simp add: quote_alike_def)
  then show ?thesis
    using stream_errors_roundtrip [of "\<lparr> w_has = (\<lambda>_. True), w_fail = (\<lambda>_ _ _. None) \<rparr>" "[]" None "[]"] by simp
qed

end
