(* ===== verification/Api.thy ===== *)
theory Api
  imports Messages Sse
begin

text \<open>
  The HTTP front end, \<open>internal/api\<close>: the wire types, the bearer-token middleware, the route table
  and every handler. \<open>fiber\<close> is not under \<open>src/\<close>: it matches the routes of the table \<open>route\<close>, and
  the binding of a request body, which depends on the content type, is the argument \<open>bind\<close> of the
  handlers that read one. A streamed reply is modelled by the bytes it has when the stream ends;
  a followed log goes on with the entries its subscription delivers.
\<close>

section \<open>Requests, replies, wire types\<close>

record api_request =
  ar_method :: string
  ar_path :: string
  ar_query :: smap
  ar_auth :: string
  ar_ctype :: string
  ar_body :: string

record api_reply =
  ap_status :: nat
  ap_ctype :: string
  ap_body :: string
  ap_follow :: "nat option"

record create_request =
  cr_name :: string
  cr_profile :: string
  cr_image :: string
  cr_cmd :: "string list"
  cr_env :: smap
  cr_cpus :: f64
  cr_memory_mb :: int64
  cr_ttl_sec :: int64

record exec_request =
  er_cmd :: "string list"
  er_env :: smap
  er_work_dir :: string
  er_stdin :: string

record api_sandbox =
  as_id :: string
  as_name :: string
  as_image :: string
  as_state :: string

definition to_api :: "sandbox \<Rightarrow> api_sandbox" where
  "to_api sb = \<lparr> as_id = sb_id sb, as_name = sb_name sb, as_image = sb_image sb, as_state = sb_state sb \<rparr>"

text \<open>The JSON of the replies; \<open>omitempty\<close> leaves an empty member out.\<close>

definition omit_empty :: "string \<Rightarrow> string \<Rightarrow> (string \<times> json) list" where
  "omit_empty k s = (if s = [] then [] else [(k, JStr s)])"

definition sandbox_json :: "api_sandbox \<Rightarrow> json" where
  "sandbox_json sb = JObj ([(''id'', JStr (as_id sb))] @ omit_empty ''name'' (as_name sb)
     @ [(''image'', JStr (as_image sb)), (''state'', JStr (as_state sb))])"

definition error_reply_json :: "string \<Rightarrow> json" where
  "error_reply_json msg = JObj [(''error'', JStr msg)]"

definition exec_json :: "exec_result \<Rightarrow> json" where
  "exec_json res = JObj [(''exit_code'', JNum (itoa (xr_exit_code res))), (''stdout'', JStr (xr_stdout res)),
     (''stderr'', JStr (xr_stderr res)), (''duration_ms'', JNum (itoa (milliseconds (xr_duration res))))]"

definition health_json :: "health_report \<Rightarrow> json" where
  "health_json r = JObj [(''status'', JStr (hr_status r)),
     (''checks'', JObj (map (\<lambda>(k, c). (k, JObj ((''ok'', JBool (hc_ok c)) # omit_empty ''detail'' (hc_detail c))))
        (sort_key fst (hr_checks r))))]"

definition json_reply :: "nat \<Rightarrow> json \<Rightarrow> api_reply" where
  "json_reply status v = \<lparr> ap_status = status, ap_ctype = ''application/json; charset=utf-8'',
     ap_body = json_text v, ap_follow = None \<rparr>"

definition error_reply :: "nat \<Rightarrow> string \<Rightarrow> api_reply" where
  "error_reply status msg = json_reply status (error_reply_json msg)"

definition no_content :: api_reply where
  "no_content = \<lparr> ap_status = 204, ap_ctype = [], ap_body = [], ap_follow = None \<rparr>"

text \<open>The request types as \<open>encoding/json\<close> fills them from their struct tags; \<open>pf\<close> reads a \<open>float64\<close>.\<close>

fun as_float :: "(string \<Rightarrow> f64 option) \<Rightarrow> json \<Rightarrow> f64 option" where
  "as_float pf (JNum s) = pf s"
| "as_float pf _ = None"

definition as_int64 :: "json \<Rightarrow> int64 option" where
  "as_int64 v = map_option word_of_int (as_int v)"

fun create_of_json :: "(string \<Rightarrow> f64 option) \<Rightarrow> json \<Rightarrow> create_request option" where
  "create_of_json pf JNull = Some \<lparr> cr_name = [], cr_profile = [], cr_image = [], cr_cmd = [], cr_env = [],
     cr_cpus = Fin 0, cr_memory_mb = 0, cr_ttl_sec = 0 \<rparr>"
| "create_of_json pf (JObj ms) =
     (case (json_field as_string ''name'' ms [], json_field as_string ''profile'' ms [],
            json_field as_string ''image'' ms [], json_field as_strings ''cmd'' ms [],
            json_field as_smap ''env'' ms [], json_field (as_float pf) ''cpus'' ms (Fin 0),
            json_field as_int64 ''memory_mb'' ms 0, json_field as_int64 ''ttl_seconds'' ms 0) of
        (Some n, Some p, Some im, Some c, Some e, Some cpus, Some mem, Some ttl) \<Rightarrow>
          Some \<lparr> cr_name = n, cr_profile = p, cr_image = im, cr_cmd = c, cr_env = e, cr_cpus = cpus,
            cr_memory_mb = mem, cr_ttl_sec = ttl \<rparr>
      | _ \<Rightarrow> None)"
| "create_of_json pf _ = None"

fun exec_of_json :: "json \<Rightarrow> exec_request option" where
  "exec_of_json JNull = Some \<lparr> er_cmd = [], er_env = [], er_work_dir = [], er_stdin = [] \<rparr>"
| "exec_of_json (JObj ms) =
     (case (json_field as_strings ''cmd'' ms [], json_field as_smap ''env'' ms [],
            json_field as_string ''workdir'' ms [], json_field as_string ''stdin'' ms []) of
        (Some c, Some e, Some wd, Some input) \<Rightarrow>
          Some \<lparr> er_cmd = c, er_env = e, er_work_dir = wd, er_stdin = input \<rparr>
      | _ \<Rightarrow> None)"
| "exec_of_json _ = None"

section \<open>The middleware and the routes\<close>

definition open_paths :: "string list" where
  "open_paths = [''/healthz'', ''/_metrics'']"

definition authorized :: "string \<Rightarrow> api_request \<Rightarrow> bool" where
  "authorized token q =
     (if token = [] \<or> ar_path q \<in> set open_paths then True
      else \<not> (\<not> has_prefix (ar_auth q) ''Bearer '' \<or> trim_prefix (ar_auth q) ''Bearer '' \<noteq> token))"

datatype api_route =
    RouteHealth | RouteMetrics | RouteCreate | RouteList | RouteGet string | RouteProxy string
  | RouteLogs string | RouteDelete string | RouteStop string | RouteExec string | RouteExecStream string

text \<open>The table of \<open>App\<close>: the method and the segments of the path; \<open>:id\<close> is one non-empty segment.\<close>

definition route :: "bool \<Rightarrow> api_request \<Rightarrow> api_route option" where
  "route with_metrics q =
     (case (ar_method q, split_on (CHR ''/'') (ar_path q)) of
        (meth, [e, a]) \<Rightarrow>
          (if e = [] \<and> meth = ''GET'' \<and> a = ''healthz'' then Some RouteHealth
           else if e = [] \<and> meth = ''GET'' \<and> a = ''_metrics'' \<and> with_metrics then Some RouteMetrics
           else None)
      | (meth, [e, v, s]) \<Rightarrow>
          (if e = [] \<and> v = ''v1'' \<and> s = ''sandboxes'' then
             (if meth = ''POST'' then Some RouteCreate else if meth = ''GET'' then Some RouteList else None)
           else None)
      | (meth, [e, v, s, i]) \<Rightarrow>
          (if e = [] \<and> v = ''v1'' \<and> s = ''sandboxes'' \<and> i \<noteq> [] then
             (if meth = ''GET'' then Some (RouteGet i)
              else if meth = ''DELETE'' then Some (RouteDelete i) else None)
           else None)
      | (meth, [e, v, s, i, op]) \<Rightarrow>
          (if e = [] \<and> v = ''v1'' \<and> s = ''sandboxes'' \<and> i \<noteq> [] then
             (if meth = ''GET'' \<and> op = ''proxy'' then Some (RouteProxy i)
              else if meth = ''GET'' \<and> op = ''logs'' then Some (RouteLogs i)
              else if meth = ''POST'' \<and> op = ''stop'' then Some (RouteStop i)
              else if meth = ''POST'' \<and> op = ''exec'' then Some (RouteExec i)
              else None)
           else None)
      | (meth, [e, v, s, i, op, sub]) \<Rightarrow>
          (if e = [] \<and> v = ''v1'' \<and> s = ''sandboxes'' \<and> i \<noteq> [] \<and> meth = ''POST'' \<and> op = ''exec'' \<and> sub = ''stream''
           then Some (RouteExecStream i) else None)
      | _ \<Rightarrow> None)"

section \<open>Handlers\<close>

text \<open>The answer to an error of the manager, for the handlers that tell "not found" apart.\<close>

definition failure_reply :: "mgr_error \<Rightarrow> api_reply" where
  "failure_reply e =
     (if says_not_found e then error_reply 404 ''not found'' else error_reply 500 (mgr_message e))"

definition handle_health :: "'r runtime_ops \<Rightarrow> 's store_ops \<Rightarrow> ('r, 's) manager \<Rightarrow> api_reply" where
  "handle_health rt st m =
     (let report = health rt st m
      in json_reply (if hr_status report \<noteq> ''ok'' then 503 else 200) (health_json report))"

text \<open>\<open>time.Duration(req.TTLSec) * time.Second\<close> wraps around.\<close>

definition ttl_of_seconds :: "int64 \<Rightarrow> duration" where
  "ttl_of_seconds s = s * 1000000000"

definition options_of_request :: "create_request \<Rightarrow> create_options" where
  "options_of_request req =
     \<lparr> co_name = cr_name req, co_profile = cr_profile req, co_image = cr_image req, co_cmd = cr_cmd req,
       co_env = cr_env req, co_cpus = cr_cpus req, co_memory_mb = cr_memory_mb req,
       co_ttl = ttl_of_seconds (cr_ttl_sec req), co_labels = [] \<rparr>"

definition handle_create ::
    "(api_request \<Rightarrow> string + create_request) \<Rightarrow> 'r runtime_ops \<Rightarrow> 's store_ops \<Rightarrow> string \<Rightarrow> gotime
      \<Rightarrow> api_request \<Rightarrow> ('r, 's) manager \<Rightarrow> api_reply \<times> ('r, 's) manager" where
  "handle_create bind rt st uuid now q m =
     (case bind q of
        Inl e \<Rightarrow> (error_reply 400 e, m)
      | Inr req \<Rightarrow>
          (if cr_image req = [] \<and> cr_profile req = [] then (error_reply 400 ''image or profile is required'', m)
           else case create rt st uuid now (options_of_request req) m of
             ((sb, Some e), m') \<Rightarrow>
               (error_reply (if says_policy e then 400 else 500) (mgr_message e), m')
           | ((sb, None), m') \<Rightarrow> (json_reply 201 (sandbox_json (to_api sb)), m')))"

definition handle_list :: "'s store_ops \<Rightarrow> ('r, 's) manager \<Rightarrow> api_reply \<times> ('r, 's) manager" where
  "handle_list st m =
     (case list_sandboxes st m of
        (Inl e, m') \<Rightarrow> (error_reply 500 (mgr_message e), m')
      | (Inr items, m') \<Rightarrow> (json_reply 200 (JArr (map (sandbox_json \<circ> to_api) items)), m'))"

definition handle_get :: "'s store_ops \<Rightarrow> string \<Rightarrow> ('r, 's) manager \<Rightarrow> api_reply \<times> ('r, 's) manager" where
  "handle_get st i m =
     (case get_sandbox st i m of
        (Inl e, m') \<Rightarrow> (failure_reply e, m')
      | (Inr sb, m') \<Rightarrow> (json_reply 200 (sandbox_json (to_api sb)), m'))"

definition handle_delete ::
    "'r runtime_ops \<Rightarrow> 's store_ops \<Rightarrow> string \<Rightarrow> ('r, 's) manager \<Rightarrow> api_reply \<times> ('r, 's) manager" where
  "handle_delete rt st i m =
     (case delete rt st i m of (Some e, m') \<Rightarrow> (failure_reply e, m') | (None, m') \<Rightarrow> (no_content, m'))"

definition handle_stop ::
    "'r runtime_ops \<Rightarrow> 's store_ops \<Rightarrow> string \<Rightarrow> ('r, 's) manager \<Rightarrow> api_reply \<times> ('r, 's) manager" where
  "handle_stop rt st i m =
     (case stop rt st i m of (Some e, m') \<Rightarrow> (failure_reply e, m') | (None, m') \<Rightarrow> (no_content, m'))"

definition query :: "api_request \<Rightarrow> string \<Rightarrow> string" where
  "query q k = (case map_of (ar_query q) k of None \<Rightarrow> [] | Some v \<Rightarrow> v)"

text \<open>\<open>follow\<close> and \<open>tail\<close> of a log request; \<open>None\<close> for a tail that is not a non-negative integer.\<close>

definition logs_query :: "api_request \<Rightarrow> logs_options option" where
  "logs_query q =
     (let follow = (to_lower (query q ''follow'') = ''true'' \<or> query q ''follow'' = ''1''); v = query q ''tail''
      in if v = [] then Some \<lparr> lo_tail_lines = 0, lo_follow = follow \<rparr>
         else case atoi v of
           None \<Rightarrow> None
         | Some n \<Rightarrow> if n < 0 then None else Some \<lparr> lo_tail_lines = n, lo_follow = follow \<rparr>)"

definition handle_logs ::
    "'s store_ops \<Rightarrow> string \<Rightarrow> api_request \<Rightarrow> ('r, 's) manager \<Rightarrow> api_reply \<times> ('r, 's) manager" where
  "handle_logs st i q m =
     (case logs_query q of
        None \<Rightarrow> (error_reply 400 ''tail must be a non-negative integer'', m)
      | Some opts \<Rightarrow>
          (case logs st i opts m of
             (Inl e, m') \<Rightarrow> (failure_reply e, m')
           | (Inr res, m') \<Rightarrow>
               (if lo_follow opts then
                  (\<lparr> ap_status = 200, ap_ctype = ''text/event-stream'', ap_body = log_stream_body (lr_snapshot res),
                     ap_follow = lr_subscribe res \<rparr>, m')
                else
                  (\<lparr> ap_status = 200, ap_ctype = ''text/plain; charset=utf-8'',
                     ap_body = concat (map e_data (lr_snapshot res)), ap_follow = None \<rparr>, m'))))"

definition handle_proxy ::
    "'r runtime_ops \<Rightarrow> 's store_ops \<Rightarrow> string \<Rightarrow> ('r, 's) manager \<Rightarrow> api_reply \<times> ('r, 's) manager" where
  "handle_proxy rt st i m =
     (case proxy_addr rt st i m of
        (Inl e, m') \<Rightarrow>
          ((if says_not_found e then error_reply 404 ''not found''
            else if says_no_proxy e then error_reply 404 ''sandbox has no egress proxy''
            else error_reply 500 (mgr_message e)), m')
      | (Inr addr, m') \<Rightarrow> (json_reply 200 (JObj [(''address'', JStr addr)]), m'))"

definition exec_options_of :: "bool \<Rightarrow> exec_request \<Rightarrow> exec_options" where
  "exec_options_of streamed req =
     \<lparr> eo_cmd = er_cmd req, eo_env = er_env req, eo_work_dir = er_work_dir req, eo_stdin = er_stdin req,
       eo_stdout = streamed, eo_stderr = streamed \<rparr>"

definition handle_exec ::
    "(api_request \<Rightarrow> string + exec_request) \<Rightarrow> 'r runtime_ops \<Rightarrow> 's store_ops \<Rightarrow> gotime \<Rightarrow> string
      \<Rightarrow> api_request \<Rightarrow> ('r, 's) manager \<Rightarrow> api_reply \<times> ('r, 's) manager" where
  "handle_exec bind rt st now i q m =
     (case bind q of
        Inl e \<Rightarrow> (error_reply 400 e, m)
      | Inr req \<Rightarrow>
          (if er_cmd req = [] then (error_reply 400 ''cmd is required'', m)
           else case exec rt st i (exec_options_of False req) now m of
             ((_, Inl e), m') \<Rightarrow> (failure_reply e, m')
           | ((_, Inr res), m') \<Rightarrow> (json_reply 200 (exec_json res), m')))"

definition handle_exec_stream ::
    "(api_request \<Rightarrow> string + exec_request) \<Rightarrow> 'r runtime_ops \<Rightarrow> 's store_ops \<Rightarrow> gotime \<Rightarrow> string
      \<Rightarrow> api_request \<Rightarrow> ('r, 's) manager \<Rightarrow> api_reply \<times> ('r, 's) manager" where
  "handle_exec_stream bind rt st now i q m =
     (case bind q of
        Inl e \<Rightarrow> (error_reply 400 e, m)
      | Inr req \<Rightarrow>
          (if er_cmd req = [] then (error_reply 400 ''cmd is required'', m)
           else case exec rt st i (exec_options_of True req) now m of
             ((chunks, res), m') \<Rightarrow>
               (\<lparr> ap_status = 200, ap_ctype = ''text/event-stream'',
                  ap_body = exec_stream_body chunks (case res of
                     Inl e \<Rightarrow> Inl (if says_not_found e then None else Some (mgr_message e))
                   | Inr x \<Rightarrow> Inr x),
                  ap_follow = None \<rparr>, m')))"

section \<open>The server\<close>

text \<open>The metrics handler is a library's: the content type and the body of its page for the counters.
  Without one there is no route to it.\<close>

record api_server =
  sv_token :: string
  sv_metrics :: "(recorder \<Rightarrow> string \<times> string) option"

record binders =
  bi_create :: "api_request \<Rightarrow> string + create_request"
  bi_exec :: "api_request \<Rightarrow> string + exec_request"

text \<open>What a request draws from outside: the new identifier and the time.\<close>

record draws =
  dw_uuid :: string
  dw_now :: gotime

definition dispatch ::
    "api_server \<Rightarrow> binders \<Rightarrow> 'r runtime_ops \<Rightarrow> 's store_ops \<Rightarrow> draws \<Rightarrow> api_route \<Rightarrow> api_request
      \<Rightarrow> ('r, 's) manager \<Rightarrow> api_reply \<times> ('r, 's) manager" where
  "dispatch sv bi rt st dw r q m =
     (case r of
        RouteHealth \<Rightarrow> (handle_health rt st m, m)
      | RouteMetrics \<Rightarrow>
          (case sv_metrics sv of
             None \<Rightarrow> (error_reply 404 ''not found'', m)
           | Some page \<Rightarrow>
               (\<lparr> ap_status = 200, ap_ctype = fst (page (m_metrics m)), ap_body = snd (page (m_metrics m)),
                  ap_follow = None \<rparr>, m))
      | RouteCreate \<Rightarrow> handle_create (bi_create bi) rt st (dw_uuid dw) (dw_now dw) q m
      | RouteList \<Rightarrow> handle_list st m
      | RouteGet i \<Rightarrow> handle_get st i m
      | RouteProxy i \<Rightarrow> handle_proxy rt st i m
      | RouteLogs i \<Rightarrow> handle_logs st i q m
      | RouteDelete i \<Rightarrow> handle_delete rt st i m
      | RouteStop i \<Rightarrow> handle_stop rt st i m
      | RouteExec i \<Rightarrow> handle_exec (bi_exec bi) rt st (dw_now dw) i q m
      | RouteExecStream i \<Rightarrow> handle_exec_stream (bi_exec bi) rt st (dw_now dw) i q m)"

text \<open>A request that no route takes is answered by \<open>fiber\<close>: \<open>None\<close>.\<close>

definition serve_api ::
    "api_server \<Rightarrow> binders \<Rightarrow> 'r runtime_ops \<Rightarrow> 's store_ops \<Rightarrow> draws \<Rightarrow> api_request
      \<Rightarrow> ('r, 's) manager \<Rightarrow> api_reply option \<times> ('r, 's) manager" where
  "serve_api sv bi rt st dw q m =
     (if \<not> authorized (sv_token sv) q then (Some (error_reply 401 ''unauthorized''), m)
      else case route (sv_metrics sv \<noteq> None) q of
        None \<Rightarrow> (None, m)
      | Some r \<Rightarrow> (case dispatch sv bi rt st dw r q m of (rep, m') \<Rightarrow> (Some rep, m')))"

section \<open>Properties\<close>

lemma authorized_iff:
  "authorized token q \<longleftrightarrow> token = [] \<or> ar_path q \<in> {''/healthz'', ''/_metrics''} \<or> ar_auth q = ''Bearer '' @ token"
proof -
  have "has_prefix (ar_auth q) ''Bearer '' \<and> trim_prefix (ar_auth q) ''Bearer '' = token
      \<longleftrightarrow> ar_auth q = ''Bearer '' @ token"
    using trim_prefix_append [of "''Bearer ''"] has_prefix_append [of "''Bearer ''"]
    by (metis has_prefix_iff)
  then show ?thesis by (auto simp: authorized_def open_paths_def)
qed

lemma reply_status [simp]:
  "ap_status (json_reply n v) = n" "ap_status (error_reply n msg) = n" "ap_status no_content = 204"
  by (simp_all add: json_reply_def error_reply_def no_content_def)

text \<open>No handler answers 401 itself: the statuses each can give.\<close>

lemma dispatch_status:
  "ap_status (fst (dispatch sv bi rt st dw r q m)) \<in> {200, 201, 204, 400, 404, 500, 503}"
  by (cases r)
    (auto simp: dispatch_def handle_health_def handle_create_def handle_list_def handle_get_def handle_delete_def
      handle_stop_def handle_logs_def handle_proxy_def handle_exec_def handle_exec_stream_def failure_reply_def
      Let_def split: prod.split sum.split option.split)

text \<open>C20. Authentication of the HTTP API: with a token configured, every request outside
  \<open>/healthz\<close> and \<open>/_metrics\<close> whose Authorization header is not exactly \<open>Bearer\<close>, a space and the token
  is answered 401 and changes nothing, whatever its route and body; every other request is never
  answered 401.\<close>

theorem api_auth:
  "case serve_api sv bi rt st dw q m of (rep, m') \<Rightarrow>
     (if sv_token sv \<noteq> [] \<and> ar_path q \<notin> {''/healthz'', ''/_metrics''} \<and> ar_auth q \<noteq> ''Bearer '' @ sv_token sv
      then rep = Some (error_reply 401 ''unauthorized'') \<and> m' = m
      else map_option ap_status rep \<noteq> Some 401)"
proof (cases "authorized (sv_token sv) q")
  case False
  then show ?thesis by (simp add: serve_api_def authorized_iff)
next
  case ok: True
  show ?thesis
  proof (cases "route (sv_metrics sv \<noteq> None) q")
    case (Some r)
    then show ?thesis using ok dispatch_status [of sv bi rt st dw r q m]
      by (auto simp: serve_api_def authorized_iff split: prod.split)
  qed (use ok in \<open>simp add: serve_api_def authorized_iff\<close>)
qed

end
