(* ===== verification/Client.thy ===== *)
theory Client
  imports Api
begin

text \<open>
  The Go SDK, \<open>pkg/kotakpasir\<close>: the client with its methods, the reading and classification of error
  responses, \<open>WaitFor\<close>, the buffered and the streamed calls. The transport (\<open>net/http\<close>'s \<open>Do\<close>, which
  also refuses malformed requests) is an argument of every method: a function from a request and the
  state of the world to an error or a response, and the world after it. The text of a \<open>float64\<close> in
  JSON is the argument \<open>ff\<close> (\<open>None\<close> where \<open>json.Marshal\<close> fails: NaN and the infinities).
\<close>

section \<open>Requests, responses, errors\<close>

record http_request =
  hq_method :: string
  hq_url :: string
  hq_ctype :: string
  hq_accept :: string
  hq_auth :: string
  hq_body :: string

record http_response =
  hs_status :: nat
  hs_body :: string
  hs_read_err :: "string option"

type_synonym 'w transport = "http_request \<Rightarrow> 'w \<Rightarrow> (string + http_response) \<times> 'w"

record client =
  cl_addr :: string
  cl_token :: string

datatype error_kind = KindNotFound | KindUnauthorized | KindPolicyDenied | KindBadRequest

datatype client_error =
    RequestFailed string
  | MarshalFailed
  | ApiError nat string "error_kind option"
  | DecodeResponse
  | ReadLogs string
  | StreamFailed sse_error
  | WaitNotFound string client_error
  | WaitTerminal string string string
  | WaitCancelled string

definition new_client :: "string \<Rightarrow> string \<Rightarrow> client" where
  "new_client addr token = \<lparr> cl_addr = trim_right addr {CHR ''/''}, cl_token = token \<rparr>"

text \<open>\<open>http.StatusText\<close> for the codes from 400 on.\<close>

definition status_texts :: "(nat \<times> string) list" where
  "status_texts =
     [(400, ''Bad Request''), (401, ''Unauthorized''), (402, ''Payment Required''), (403, ''Forbidden''),
      (404, ''Not Found''), (405, ''Method Not Allowed''), (406, ''Not Acceptable''),
      (407, ''Proxy Authentication Required''), (408, ''Request Timeout''), (409, ''Conflict''), (410, ''Gone''),
      (411, ''Length Required''), (412, ''Precondition Failed''), (413, ''Request Entity Too Large''),
      (414, ''Request URI Too Long''), (415, ''Unsupported Media Type''), (416, ''Requested Range Not Satisfiable''),
      (417, ''Expectation Failed''), (418, ''I'' @ [CHR 0x27] @ ''m a teapot''), (421, ''Misdirected Request''),
      (422, ''Unprocessable Entity''), (423, ''Locked''), (424, ''Failed Dependency''), (425, ''Too Early''),
      (426, ''Upgrade Required''), (428, ''Precondition Required''), (429, ''Too Many Requests''),
      (431, ''Request Header Fields Too Large''), (451, ''Unavailable For Legal Reasons''),
      (500, ''Internal Server Error''), (501, ''Not Implemented''), (502, ''Bad Gateway''),
      (503, ''Service Unavailable''), (504, ''Gateway Timeout''), (505, ''HTTP Version Not Supported''),
      (506, ''Variant Also Negotiates''), (507, ''Insufficient Storage''), (508, ''Loop Detected''),
      (510, ''Not Extended''), (511, ''Network Authentication Required'')]"

definition status_text :: "nat \<Rightarrow> string" where
  "status_text n = (case map_of status_texts n of None \<Rightarrow> [] | Some s \<Rightarrow> s)"

definition classify_error :: "nat \<Rightarrow> string \<Rightarrow> error_kind option" where
  "classify_error status msg =
     (if status = 404 then Some KindNotFound
      else if status = 401 \<or> status = 403 then Some KindUnauthorized
      else if status = 400 then
        (let lower = to_lower msg
         in if str_contains lower ''allowlist'' \<or> str_contains lower ''policy'' \<or> str_contains lower ''profile ''
            then Some KindPolicyDenied else Some KindBadRequest)
      else None)"

definition read_error_response :: "http_response \<Rightarrow> client_error" where
  "read_error_response resp =
     (let m1 = decode_error (hs_body resp);
          m2 = (if m1 = [] then trim_space (hs_body resp) else m1);
          m3 = (if m2 = [] then status_text (hs_status resp) else m2)
      in ApiError (hs_status resp) m3 (classify_error (hs_status resp) m3))"

text \<open>\<open>errors.Is\<close> against the sentinel errors, and \<open>Error()\<close> of an \<open>Error\<close>.\<close>

fun is_kind :: "error_kind \<Rightarrow> client_error \<Rightarrow> bool" where
  "is_kind k (ApiError _ _ kd) = (kd = Some k)"
| "is_kind k (WaitNotFound _ e) = is_kind k e"
| "is_kind k _ = False"

definition kind_message :: "error_kind \<Rightarrow> string" where
  "kind_message k = (case k of
       KindNotFound \<Rightarrow> ''kotakpasir: not found''
     | KindUnauthorized \<Rightarrow> ''kotakpasir: unauthorized''
     | KindPolicyDenied \<Rightarrow> ''kotakpasir: policy denied''
     | KindBadRequest \<Rightarrow> ''kotakpasir: bad request'')"

definition api_error_message :: "string \<Rightarrow> error_kind option \<Rightarrow> string" where
  "api_error_message msg kd =
     (case kd of Some k \<Rightarrow> kind_message k @ '' ('' @ msg @ '')'' | None \<Rightarrow> msg)"

section \<open>The buffered calls\<close>

definition bearer :: "client \<Rightarrow> string" where
  "bearer cl = (if cl_token cl \<noteq> [] then ''Bearer '' @ cl_token cl else [])"

text \<open>\<open>do\<close>: \<open>dec\<close> decodes the body into \<open>out\<close>, whose zero value is \<open>zero\<close>; \<open>None\<close> for a nil \<open>out\<close>.\<close>

definition client_do ::
    "client \<Rightarrow> 'w transport \<Rightarrow> (json \<Rightarrow> 'a option) option \<Rightarrow> 'a \<Rightarrow> string \<Rightarrow> string \<Rightarrow> json option \<Rightarrow> 'w
      \<Rightarrow> (client_error + 'a) \<times> 'w" where
  "client_do cl tr dec zero meth path body w =
     (case tr \<lparr> hq_method = meth, hq_url = cl_addr cl @ path,
               hq_ctype = (if body \<noteq> None then ''application/json'' else []), hq_accept = [], hq_auth = bearer cl,
               hq_body = (case body of None \<Rightarrow> [] | Some v \<Rightarrow> json_text v) \<rparr> w of
        (Inl e, w') \<Rightarrow> (Inl (RequestFailed e), w')
      | (Inr resp, w') \<Rightarrow>
          ((if hs_status resp \<ge> 400 then Inl (read_error_response resp)
            else case dec of
              None \<Rightarrow> Inr zero
            | Some d \<Rightarrow>
                (if hs_status resp = 204 then Inr zero
                 else case json_decode (hs_body resp) of
                   AtEof \<Rightarrow> (if hs_read_err resp = None then Inr zero else Inl DecodeResponse)
                 | BadJson \<Rightarrow> Inl DecodeResponse
                 | Decoded v \<Rightarrow>
                     (case d v of None \<Rightarrow> Inl DecodeResponse | Some a \<Rightarrow> Inr a))), w'))"

text \<open>The wire types as the client reads them.\<close>

definition no_sandbox :: api_sandbox where
  "no_sandbox = \<lparr> as_id = [], as_name = [], as_image = [], as_state = [] \<rparr>"

fun sandbox_of_json :: "json \<Rightarrow> api_sandbox option" where
  "sandbox_of_json JNull = Some no_sandbox"
| "sandbox_of_json (JObj ms) =
     (case (json_field as_string ''id'' ms [], json_field as_string ''name'' ms [],
            json_field as_string ''image'' ms [], json_field as_string ''state'' ms []) of
        (Some i, Some n, Some im, Some s) \<Rightarrow> Some \<lparr> as_id = i, as_name = n, as_image = im, as_state = s \<rparr>
      | _ \<Rightarrow> None)"
| "sandbox_of_json _ = None"

fun sandboxes_of_json :: "json \<Rightarrow> api_sandbox list option" where
  "sandboxes_of_json JNull = Some []"
| "sandboxes_of_json (JArr vs) = those (map sandbox_of_json vs)"
| "sandboxes_of_json _ = None"

record raw_exec =
  rx_exit_code :: int
  rx_stdout :: string
  rx_stderr :: string
  rx_duration_ms :: int

fun raw_exec_of_json :: "json \<Rightarrow> raw_exec option" where
  "raw_exec_of_json JNull = Some \<lparr> rx_exit_code = 0, rx_stdout = [], rx_stderr = [], rx_duration_ms = 0 \<rparr>"
| "raw_exec_of_json (JObj ms) =
     (case (json_field as_int ''exit_code'' ms 0, json_field as_string ''stdout'' ms [],
            json_field as_string ''stderr'' ms [], json_field as_int ''duration_ms'' ms 0) of
        (Some c, Some so, Some se, Some d) \<Rightarrow>
          Some \<lparr> rx_exit_code = c, rx_stdout = so, rx_stderr = se, rx_duration_ms = d \<rparr>
      | _ \<Rightarrow> None)"
| "raw_exec_of_json _ = None"

record sdk_create_options =
  so_name :: string
  so_profile :: string
  so_image :: string
  so_cmd :: "string list"
  so_env :: smap
  so_cpus :: f64
  so_memory_mb :: int64
  so_ttl :: duration

record sdk_exec_options =
  se_cmd :: "string list"
  se_env :: smap
  se_work_dir :: string
  se_stdin :: string

text \<open>\<open>int64(d.Seconds())\<close> for a positive \<open>d\<close>. \<open>Seconds\<close> is the \<open>float64\<close> sum of the whole seconds, which
  a \<open>float64\<close> holds exactly, and the fraction. The cast drops the fraction, unless the sum was rounded
  up to the next second: with \<open>2 ^ k \<le> sec < 2 ^ (k + 1)\<close> neighbouring floats are \<open>2 ^ (k - 52)\<close>
  apart, so this happens when the distance to the next second is at most \<open>2 ^ (k - 53)\<close>.\<close>

fun top_bit :: "nat \<Rightarrow> nat" where
  "top_bit n = (if n < 2 then 1 else 2 * top_bit (n div 2))"

declare top_bit.simps [simp del]

definition whole_seconds :: "duration \<Rightarrow> int" where
  "whole_seconds d =
     (let sec = sint d div 1000000000; ns = sint d mod 1000000000
      in if 0 < sec \<and> (1000000000 - ns) * 2 ^ 53 \<le> 1000000000 * int (top_bit (nat sec)) then sec + 1 else sec)"

text \<open>\<open>json.Marshal\<close> writes the keys of a map in order.\<close>

definition create_body :: "(f64 \<Rightarrow> string option) \<Rightarrow> sdk_create_options \<Rightarrow> json option" where
  "create_body ff opts =
     map_option (\<lambda>cpus. JObj
       ([(''cmd'', strings_json (so_cmd opts)), (''cpus'', JNum cpus), (''env'', smap_json (so_env opts)),
         (''image'', JStr (so_image opts)), (''memory_mb'', JNum (itoa (sint (so_memory_mb opts)))),
         (''name'', JStr (so_name opts)), (''profile'', JStr (so_profile opts))]
        @ (if pos64 (so_ttl opts) then [(''ttl_seconds'', JNum (itoa (whole_seconds (so_ttl opts))))] else [])))
       (ff (so_cpus opts))"

definition exec_body :: "sdk_exec_options \<Rightarrow> json" where
  "exec_body opts =
     JObj [(''cmd'', strings_json (se_cmd opts)), (''env'', smap_json (se_env opts)),
       (''stdin'', JStr (se_stdin opts)), (''workdir'', JStr (se_work_dir opts))]"

definition client_health :: "client \<Rightarrow> 'w transport \<Rightarrow> 'w \<Rightarrow> string option \<times> 'w" where
  "client_health cl tr w =
     (case tr \<lparr> hq_method = ''GET'', hq_url = cl_addr cl @ ''/healthz'', hq_ctype = [], hq_accept = [],
               hq_auth = [], hq_body = [] \<rparr> w of
        (Inl e, w') \<Rightarrow> (Some e, w')
      | (Inr resp, w') \<Rightarrow>
          (if hs_status resp \<noteq> 200 then Some (''healthz: status '' @ itoa (int (hs_status resp))) else None, w'))"

definition client_create ::
    "(f64 \<Rightarrow> string option) \<Rightarrow> client \<Rightarrow> 'w transport \<Rightarrow> sdk_create_options \<Rightarrow> 'w \<Rightarrow> (client_error + api_sandbox) \<times> 'w" where
  "client_create ff cl tr opts w =
     (case create_body ff opts of
        None \<Rightarrow> (Inl MarshalFailed, w)
      | Some body \<Rightarrow> client_do cl tr (Some sandbox_of_json) no_sandbox ''POST'' ''/v1/sandboxes'' (Some body) w)"

definition client_get :: "client \<Rightarrow> 'w transport \<Rightarrow> string \<Rightarrow> 'w \<Rightarrow> (client_error + api_sandbox) \<times> 'w" where
  "client_get cl tr i w =
     client_do cl tr (Some sandbox_of_json) no_sandbox ''GET'' (''/v1/sandboxes/'' @ i) None w"

definition client_list :: "client \<Rightarrow> 'w transport \<Rightarrow> 'w \<Rightarrow> (client_error + api_sandbox list) \<times> 'w" where
  "client_list cl tr w = client_do cl tr (Some sandboxes_of_json) [] ''GET'' ''/v1/sandboxes'' None w"

definition client_stop :: "client \<Rightarrow> 'w transport \<Rightarrow> string \<Rightarrow> 'w \<Rightarrow> (client_error + unit) \<times> 'w" where
  "client_stop cl tr i w = client_do cl tr None () ''POST'' (''/v1/sandboxes/'' @ i @ ''/stop'') None w"

definition client_delete :: "client \<Rightarrow> 'w transport \<Rightarrow> string \<Rightarrow> 'w \<Rightarrow> (client_error + unit) \<times> 'w" where
  "client_delete cl tr i w = client_do cl tr None () ''DELETE'' (''/v1/sandboxes/'' @ i) None w"

definition exec_result_of :: "raw_exec \<Rightarrow> exec_result" where
  "exec_result_of raw =
     \<lparr> xr_exit_code = rx_exit_code raw, xr_stdout = rx_stdout raw, xr_stderr = rx_stderr raw,
       xr_duration = word_of_int (rx_duration_ms raw) * millisecond \<rparr>"

definition client_exec ::
    "client \<Rightarrow> 'w transport \<Rightarrow> string \<Rightarrow> sdk_exec_options \<Rightarrow> 'w \<Rightarrow> (client_error + exec_result) \<times> 'w" where
  "client_exec cl tr i opts w =
     map_prod (map_sum id exec_result_of) id
       (client_do cl tr (Some raw_exec_of_json) \<lparr> rx_exit_code = 0, rx_stdout = [], rx_stderr = [], rx_duration_ms = 0 \<rparr>
          ''POST'' (''/v1/sandboxes/'' @ i @ ''/exec'') (Some (exec_body opts)) w)"

section \<open>Logs and streams\<close>

text \<open>The query of a log request: \<open>url.Values.Encode\<close> sorts by key.\<close>

definition logs_path :: "string \<Rightarrow> int \<Rightarrow> string" where
  "logs_path i n =
     (let encoded = (if n > 0 then ''tail='' @ itoa n else [])
      in ''/v1/sandboxes/'' @ i @ ''/logs'' @ (if encoded \<noteq> [] then ''?'' @ encoded else []))"

definition follow_path :: "string \<Rightarrow> int \<Rightarrow> string" where
  "follow_path i n = ''/v1/sandboxes/'' @ i @ ''/logs?follow=true'' @ (if n > 0 then ''&tail='' @ itoa n else [])"

definition log_request_for :: "client \<Rightarrow> string \<Rightarrow> string \<Rightarrow> http_request" where
  "log_request_for cl accept path =
     \<lparr> hq_method = ''GET'', hq_url = cl_addr cl @ path, hq_ctype = [], hq_accept = accept, hq_auth = bearer cl,
       hq_body = [] \<rparr>"

definition client_logs :: "client \<Rightarrow> 'w transport \<Rightarrow> string \<Rightarrow> int \<Rightarrow> 'w \<Rightarrow> (client_error + string) \<times> 'w" where
  "client_logs cl tr i n w =
     (case tr (log_request_for cl [] (logs_path i n)) w of
        (Inl e, w') \<Rightarrow> (Inl (RequestFailed e), w')
      | (Inr resp, w') \<Rightarrow>
          ((if hs_status resp \<ge> 400 then Inl (read_error_response resp)
            else case hs_read_err resp of Some e \<Rightarrow> Inl (ReadLogs e) | None \<Rightarrow> Inr (hs_body resp)), w'))"

text \<open>The streaming calls: a log stream that ends in \<open>io.ErrUnexpectedEOF\<close>, the parser's own or the
  connection's, is no error. The result, what the caller's writers received, and the world.\<close>

definition client_logs_stream ::
    "client \<Rightarrow> 'w transport \<Rightarrow> string \<Rightarrow> int \<Rightarrow> writers \<Rightarrow> 'w
      \<Rightarrow> client_error option \<times> (stream \<times> string) list \<times> 'w" where
  "client_logs_stream cl tr i n wr w =
     (case tr (log_request_for cl ''text/event-stream'' (follow_path i n)) w of
        (Inl e, w') \<Rightarrow> (Some (RequestFailed e), [], w')
      | (Inr resp, w') \<Rightarrow>
          (if hs_status resp \<ge> 400 then (Some (read_error_response resp), [], w')
           else case parse_sse wr (hs_body resp) (hs_read_err resp) of
             ((_, err), st) \<Rightarrow>
               (if err = Some UnexpectedEof \<or> err = Some (ReadError ''unexpected EOF'') then None
                else map_option StreamFailed err, ss_out st, w')))"

definition client_exec_stream ::
    "client \<Rightarrow> 'w transport \<Rightarrow> string \<Rightarrow> sdk_exec_options \<Rightarrow> writers \<Rightarrow> 'w
      \<Rightarrow> (exec_result option \<times> client_error option) \<times> (stream \<times> string) list \<times> 'w" where
  "client_exec_stream cl tr i opts wr w =
     (case tr \<lparr> hq_method = ''POST'', hq_url = cl_addr cl @ ''/v1/sandboxes/'' @ i @ ''/exec/stream'',
               hq_ctype = ''application/json'', hq_accept = ''text/event-stream'', hq_auth = bearer cl,
               hq_body = json_text (exec_body opts) \<rparr> w of
        (Inl e, w') \<Rightarrow> ((None, Some (RequestFailed e)), [], w')
      | (Inr resp, w') \<Rightarrow>
          (if hs_status resp \<ge> 400 then ((None, Some (read_error_response resp)), [], w')
           else case parse_sse wr (hs_body resp) (hs_read_err resp) of
             ((res, err), st) \<Rightarrow> ((res, map_option StreamFailed err), ss_out st, w')))"

section \<open>WaitFor\<close>

text \<open>Between two polls either the ticker fires, and the world has moved on by a function, or the
  context ends with an error. A script lists what happens; \<open>None\<close>: the call is still waiting when the
  script ends.\<close>

datatype 'w pause = Tick "'w \<Rightarrow> 'w" | Done string

definition is_terminal_state :: "string \<Rightarrow> bool" where
  "is_terminal_state s \<longleftrightarrow> s = state_removed \<or> s = state_error"

fun wait_for ::
    "client \<Rightarrow> 'w transport \<Rightarrow> string \<Rightarrow> string \<Rightarrow> 'w pause list \<Rightarrow> 'w
      \<Rightarrow> (api_sandbox option \<times> client_error option) option \<times> 'w" where
  "wait_for cl tr i target script w =
     (case client_get cl tr i w of
        (Inl e, w') \<Rightarrow>
          (Some (None, Some (if is_kind KindNotFound e then WaitNotFound target e else e)), w')
      | (Inr sb, w') \<Rightarrow>
          (if as_state sb = target then (Some (Some sb, None), w')
           else if is_terminal_state (as_state sb) \<and> as_state sb \<noteq> target then
             (Some (Some sb, Some (WaitTerminal i (as_state sb) target)), w')
           else case script of
             [] \<Rightarrow> (None, w')
           | Done e # _ \<Rightarrow> (Some (None, Some (WaitCancelled e)), w')
           | Tick f # rest \<Rightarrow> wait_for cl tr i target rest (f w')))"

declare wait_for.simps [simp del]

end
