(* ===== verification/Remote.thy ===== *)
theory Remote
  imports Client Sandboxes
begin

text \<open>
  The SDK over the daemon: what a method of the client returns when its requests are answered by the
  HTTP front end of a manager. The interface between the two is the locale \<open>kpd_link\<close>: the transport
  hands a request of the client to the server as it is (\<open>net/http\<close> trims the header) and the reply
  back; it is interpreted on \<open>loopback\<close>, which takes the URL apart.
\<close>

section \<open>Replies and how the client reads them\<close>

text \<open>What the client makes of an error reply: the message is the server's, except that an empty one
  is replaced by the text of the body.\<close>

definition sdk_message :: "string \<Rightarrow> string" where
  "sdk_message msg = (if msg = [] then json_text (error_reply_json []) else msg)"

definition sdk_error :: "nat \<Rightarrow> string \<Rightarrow> client_error" where
  "sdk_error n msg = ApiError n (sdk_message msg) (classify_error n (sdk_message msg))"

lemma error_reply_read:
  "read_error_response \<lparr> hs_status = n, hs_body = ap_body (error_reply n msg), hs_read_err = None \<rparr>
    = sdk_error n msg"
proof -
  have "json_ok (error_reply_json msg)" by (simp add: error_reply_json_def)
  then have "decode_error (json_text (error_reply_json msg)) = msg"
    unfolding decode_error_def
    by (simp add: json_text_parse) (simp add: error_reply_json_def to_lower_def lower_char_def)
  moreover have "trim_space (json_text (error_reply_json [])) = json_text (error_reply_json [])"
    "json_text (error_reply_json []) \<noteq> []" by code_simp+
  ultimately show ?thesis
    by (simp add: read_error_response_def error_reply_def json_reply_def sdk_error_def sdk_message_def Let_def
        del: json_text.simps)
qed

lemma decode_reply: "json_ok v \<Longrightarrow> json_decode (ap_body (json_reply n v)) = Decoded v"
  by (simp add: json_reply_def json_text_decode)

text \<open>What \<open>do\<close> returns for a reply that arrives whole.\<close>

definition read_reply :: "(json \<Rightarrow> 'a option) option \<Rightarrow> 'a \<Rightarrow> api_reply \<Rightarrow> client_error + 'a" where
  "read_reply dec zero rep =
     (if ap_status rep \<ge> 400
      then Inl (read_error_response \<lparr> hs_status = ap_status rep, hs_body = ap_body rep, hs_read_err = None \<rparr>)
      else case dec of None \<Rightarrow> Inr zero
        | Some d \<Rightarrow> (if ap_status rep = 204 then Inr zero
            else case json_decode (ap_body rep) of AtEof \<Rightarrow> Inr zero | BadJson \<Rightarrow> Inl DecodeResponse
              | Decoded v \<Rightarrow> (case d v of None \<Rightarrow> Inl DecodeResponse | Some a \<Rightarrow> Inr a)))"

lemma read_reply_simps [simp]:
  "400 \<le> n \<Longrightarrow> read_reply dec zero (error_reply n msg) = Inl (sdk_error n msg)"
  "n < 400 \<Longrightarrow> n \<noteq> 204 \<Longrightarrow> json_ok v \<Longrightarrow> d v = Some a \<Longrightarrow> read_reply (Some d) zero (json_reply n v) = Inr a"
  "read_reply None zero no_content = Inr zero"
  by (simp_all add: read_reply_def error_reply_read decode_reply)

lemma sandbox_json_ok [simp]: "json_ok (sandbox_json a)"
  by (auto simp: sandbox_json_def omit_empty_def)

lemma sandbox_json_read [simp]: "sandbox_of_json (sandbox_json a) = Some a"
  by (simp add: sandbox_json_def omit_empty_def to_lower_def lower_char_def)

lemma those_map_Some: "(\<And>x. x \<in> set xs \<Longrightarrow> f x = Some (g x)) \<Longrightarrow> those (map f xs) = Some (map g xs)"
  by (induction xs) simp_all

lemma sandboxes_json_read: "sandboxes_of_json (JArr (map (sandbox_json \<circ> f) xs)) = Some (map f xs)"
  by (simp add: those_map_Some comp_def)

lemma exec_json_ok [simp]: "json_ok (exec_json res)"
  by (simp add: exec_json_def scan_number_itoa)

lemma exec_json_read:
  assumes "int_range (xr_exit_code res)"
  shows "raw_exec_of_json (exec_json res) = Some \<lparr> rx_exit_code = xr_exit_code res, rx_stdout = xr_stdout res,
    rx_stderr = xr_stderr res, rx_duration_ms = milliseconds (xr_duration res) \<rparr>"
  using assms by (simp add: exec_json_def to_lower_def lower_char_def milliseconds_range)

section \<open>The connection\<close>

definition answer :: "(api_request \<Rightarrow> http_response) \<Rightarrow> api_request \<Rightarrow> api_reply option \<Rightarrow> http_response" where
  "answer unrouted q rep =
     (case rep of None \<Rightarrow> unrouted q
      | Some r \<Rightarrow> \<lparr> hs_status = ap_status r, hs_body = ap_body r, hs_read_err = None \<rparr>)"

definition plain_path :: "string \<Rightarrow> bool" where
  "plain_path p \<longleftrightarrow> CHR ''?'' \<notin> set p"

locale kpd_link =
  fixes cl :: client
    and tr :: "'w transport"
    and serve :: "api_request \<Rightarrow> 'w \<Rightarrow> api_reply option \<times> 'w"
    and unrouted :: "api_request \<Rightarrow> http_response"
  assumes delivers: "plain_path p \<Longrightarrow>
    q = \<lparr> ar_method = meth, ar_path = p, ar_query = [], ar_auth = trim_space au, ar_ctype = ct, ar_body = b \<rparr> \<Longrightarrow>
    tr \<lparr> hq_method = meth, hq_url = cl_addr cl @ p, hq_ctype = ct, hq_accept = ac, hq_auth = au, hq_body = b \<rparr> w
      = (case serve q w of (rep, w') \<Rightarrow> (Inr (answer unrouted q rep), w'))"
begin

definition request_to :: "string \<Rightarrow> string \<Rightarrow> json option \<Rightarrow> api_request" where
  "request_to meth p body =
     \<lparr> ar_method = meth, ar_path = p, ar_query = [], ar_auth = trim_space (bearer cl),
       ar_ctype = (if body \<noteq> None then ''application/json'' else []),
       ar_body = (case body of None \<Rightarrow> [] | Some v \<Rightarrow> json_text v) \<rparr>"

lemma do_served:
  assumes "plain_path p" and "serve (request_to meth p body) w = (Some rep, w')"
  shows "client_do cl tr dec zero meth p body w = (read_reply dec zero rep, w')"
  using delivers [OF assms(1) refl, where meth = meth and au = "bearer cl" and w = w
      and ct = "if body \<noteq> None then ''application/json'' else []"
      and b = "case body of None \<Rightarrow> [] | Some v \<Rightarrow> json_text v"] assms(2)
  unfolding client_do_def request_to_def by (cases dec) (simp_all add: answer_def read_reply_def)

end

section \<open>Loopback\<close>

text \<open>The request line is split at the first question mark, the query at ampersands and equal signs
  (the client sends no escapes for plain identifiers), and the header is trimmed.\<close>

definition parse_query :: "string \<Rightarrow> smap" where
  "parse_query s =
     (if s = [] then []
      else map (\<lambda>kv. (takeWhile (\<lambda>c. c \<noteq> CHR ''='') kv, drop 1 (dropWhile (\<lambda>c. c \<noteq> CHR ''='') kv)))
             (split_on (CHR ''&'') s))"

definition deliver :: "string \<Rightarrow> http_request \<Rightarrow> api_request" where
  "deliver addr hq =
     (let target = trim_prefix (hq_url hq) addr
      in \<lparr> ar_method = hq_method hq, ar_path = takeWhile (\<lambda>c. c \<noteq> CHR ''?'') target,
           ar_query = parse_query (drop 1 (dropWhile (\<lambda>c. c \<noteq> CHR ''?'') target)),
           ar_auth = trim_space (hq_auth hq), ar_ctype = hq_ctype hq, ar_body = hq_body hq \<rparr>)"

definition loopback ::
    "string \<Rightarrow> (api_request \<Rightarrow> http_response) \<Rightarrow> (api_request \<Rightarrow> 'w \<Rightarrow> api_reply option \<times> 'w) \<Rightarrow> 'w transport" where
  "loopback addr unrouted serve hq w =
     (case serve (deliver addr hq) w of (rep, w') \<Rightarrow> (Inr (answer unrouted (deliver addr hq) rep), w'))"

lemma takeWhile_plain: "c \<notin> set p \<Longrightarrow> takeWhile (\<lambda>x. x \<noteq> c) p = p \<and> dropWhile (\<lambda>x. x \<noteq> c) p = []"
  by (induction p) auto

interpretation kpd: kpd_link cl "loopback (cl_addr cl) unrouted serve" serve unrouted for cl unrouted serve
  by unfold_locales (simp add: loopback_def deliver_def plain_path_def takeWhile_plain parse_query_def)

section \<open>Authentication and routing of the client's requests\<close>

definition trusted :: "client \<Rightarrow> api_server \<Rightarrow> bool" where
  "trusted cl sv \<longleftrightarrow> sv_token sv = [] \<or> (cl_token cl = sv_token sv \<and> trim_space (sv_token sv) = sv_token sv)"

definition plain_id :: "string \<Rightarrow> bool" where
  "plain_id i \<longleftrightarrow> i \<noteq> [] \<and> CHR ''/'' \<notin> set i \<and> CHR ''?'' \<notin> set i"

lemma trim_space_last: "trim_space t = t \<Longrightarrow> t \<noteq> [] \<Longrightarrow> \<not> is_space (last t)"
  unfolding trim_space_def by (metis hd_dropWhile last_rev rev_is_Nil_conv)

lemma trim_space_bearer: "trim_space t = t \<Longrightarrow> t \<noteq> [] \<Longrightarrow> trim_space (''Bearer '' @ t) = ''Bearer '' @ t"
proof -
  assume t: "trim_space t = t" "t \<noteq> []"
  then obtain x xs where x: "rev t = x # xs" "\<not> is_space x"
    using trim_space_last [OF t] by (metis hd_rev list.collapse rev_is_Nil_conv)
  have "dropWhile is_space (''Bearer '' @ t) = ''Bearer '' @ t" by (simp add: is_space_def)
  moreover have "dropWhile is_space (rev (''Bearer '' @ t)) = rev (''Bearer '' @ t)"
    using x by (simp only: rev_append append_Cons) simp
  ultimately show ?thesis unfolding trim_space_def by (simp only: rev_rev_ident)
qed

lemma authorized_trusted: "trusted cl sv \<Longrightarrow> authorized (sv_token sv) (kpd.request_to cl meth p body)"
  using trim_space_bearer [of "sv_token sv"] by (auto simp: authorized_iff kpd.request_to_def trusted_def bearer_def)

lemma split_plain_id [simp]:
  "CHR ''/'' \<notin> set i \<Longrightarrow> split_on (CHR ''/'') (i @ CHR ''/'' # s) = i # split_on (CHR ''/'') s"
  "CHR ''/'' \<notin> set i \<Longrightarrow> split_on (CHR ''/'') i = [i]"
  by (simp_all add: split_on_append_sep split_on_single)

lemma client_routes:
  "route b (kpd.request_to cl ''POST'' ''/v1/sandboxes'' body) = Some RouteCreate"
  "route b (kpd.request_to cl ''GET'' ''/v1/sandboxes'' body) = Some RouteList"
  "plain_id i \<Longrightarrow> route b (kpd.request_to cl ''GET'' (''/v1/sandboxes/'' @ i) body) = Some (RouteGet i)"
  "plain_id i \<Longrightarrow> route b (kpd.request_to cl ''DELETE'' (''/v1/sandboxes/'' @ i) body) = Some (RouteDelete i)"
  "plain_id i \<Longrightarrow> route b (kpd.request_to cl ''POST'' (''/v1/sandboxes/'' @ i @ ''/stop'') body) = Some (RouteStop i)"
  "plain_id i \<Longrightarrow> route b (kpd.request_to cl ''POST'' (''/v1/sandboxes/'' @ i @ ''/exec'') body) = Some (RouteExec i)"
  by (simp_all add: route_def kpd.request_to_def plain_id_def)

lemma client_paths:
  "plain_path ''/v1/sandboxes''"
  "plain_id i \<Longrightarrow> plain_path (''/v1/sandboxes/'' @ i)"
  "plain_id i \<Longrightarrow> plain_path (''/v1/sandboxes/'' @ i @ ''/stop'')"
  "plain_id i \<Longrightarrow> plain_path (''/v1/sandboxes/'' @ i @ ''/exec'')"
  by (simp_all add: plain_path_def plain_id_def)

section \<open>The methods over the manager\<close>

definition kpd_transport ::
    "client \<Rightarrow> (api_request \<Rightarrow> http_response) \<Rightarrow> api_server \<Rightarrow> binders \<Rightarrow> 'r runtime_ops \<Rightarrow> 's store_ops \<Rightarrow> draws
      \<Rightarrow> ('r, 's) manager transport" where
  "kpd_transport cl unrouted sv bi rt st dw = loopback (cl_addr cl) unrouted (serve_api sv bi rt st dw)"

lemma sdk_call:
  assumes "trusted cl sv" and "plain_path p"
    and "route (sv_metrics sv \<noteq> None) (kpd.request_to cl meth p body) = Some r"
  shows "client_do cl (kpd_transport cl un sv bi rt st dw) dec zero meth p body m
    = map_prod (read_reply dec zero) id (dispatch sv bi rt st dw r (kpd.request_to cl meth p body) m)"
proof -
  obtain rep m' where d: "dispatch sv bi rt st dw r (kpd.request_to cl meth p body) m = (rep, m')" by fastforce
  with assms have "serve_api sv bi rt st dw (kpd.request_to cl meth p body) m = (Some rep, m')"
    by (simp add: serve_api_def authorized_trusted)
  from kpd.do_served [where serve = "serve_api sv bi rt st dw", OF assms(2) this] show ?thesis by (simp add: kpd_transport_def d)
qed

definition sdk_failure :: "mgr_error \<Rightarrow> client_error" where
  "sdk_failure e = (if says_not_found e then sdk_error 404 ''not found'' else sdk_error 500 (mgr_message e))"

lemma read_failure [simp]: "read_reply dec zero (failure_reply e) = Inl (sdk_failure e)"
  by (simp add: failure_reply_def sdk_failure_def)

lemma sdk_get:
  "trusted cl sv \<Longrightarrow> plain_id i \<Longrightarrow> client_get cl (kpd_transport cl un sv bi rt st dw) i m =
    (case get_sandbox st i m of (Inl e, m') \<Rightarrow> (Inl (sdk_failure e), m') | (Inr sb, m') \<Rightarrow> (Inr (to_api sb), m'))"
  by (simp add: client_get_def sdk_call client_paths client_routes dispatch_def handle_get_def
      del: append_Cons split: prod.split sum.split)

lemma sdk_list:
  "trusted cl sv \<Longrightarrow> client_list cl (kpd_transport cl un sv bi rt st dw) m =
    (case list_sandboxes st m of
       (Inl e, m') \<Rightarrow> (Inl (sdk_error 500 (mgr_message e)), m')
     | (Inr sbs, m') \<Rightarrow> (Inr (map to_api sbs), m'))"
  by (simp add: client_list_def sdk_call client_paths client_routes dispatch_def handle_list_def
      sandboxes_json_read del: sandboxes_of_json.simps split: prod.split sum.split)

lemma sdk_stop:
  "trusted cl sv \<Longrightarrow> plain_id i \<Longrightarrow> client_stop cl (kpd_transport cl un sv bi rt st dw) i m =
    (case stop rt st i m of (Some e, m') \<Rightarrow> (Inl (sdk_failure e), m') | (None, m') \<Rightarrow> (Inr (), m'))"
  by (simp add: client_stop_def sdk_call client_paths client_routes dispatch_def handle_stop_def
      del: append_Cons split: prod.split option.split)

lemma sdk_delete:
  "trusted cl sv \<Longrightarrow> plain_id i \<Longrightarrow> client_delete cl (kpd_transport cl un sv bi rt st dw) i m =
    (case delete rt st i m of (Some e, m') \<Rightarrow> (Inl (sdk_failure e), m') | (None, m') \<Rightarrow> (Inr (), m'))"
  by (simp add: client_delete_def sdk_call client_paths client_routes dispatch_def handle_delete_def
      del: append_Cons split: prod.split option.split)

section \<open>Bodies\<close>

lemma strings_json_ok [simp]: "json_ok (strings_json xs)"
  by (auto simp: strings_json_def)

lemma smap_json_ok [simp]: "json_ok (smap_json m)"
  by (auto simp: smap_json_def)

lemma exec_body_ok [simp]: "json_ok (exec_body opts)"
  by (simp add: exec_body_def)

lemma strings_json_read: "xs \<noteq> [] \<Longrightarrow> as_strings (strings_json xs) = Some xs"
  by (simp add: strings_json_def or_null_def those_map_Some [where g = id] comp_def)

text \<open>A string map arrives with its keys in order.\<close>

lemma maps_copy_fresh:
  "distinct (map fst (xs @ ys)) \<Longrightarrow> maps_copy xs ys = xs @ ys"
proof (induction ys arbitrary: xs)
  case (Cons kv ys)
  obtain k v where kv: "kv = (k, v)" by (cases kv)
  have "AList.update k v xs = xs @ [(k, v)]"
    using Cons.prems by (simp add: kv) (induction xs; auto)
  with Cons.IH [of "xs @ [kv]"] Cons.prems show ?case by (simp add: maps_copy_def kv)
qed (simp add: maps_copy_def)

lemma distinct_sort_key: "distinct (map fst m) \<Longrightarrow> distinct (map fst (sort_key fst m))"
  by (metis mset_map mset_sort mset_eq_imp_distinct_iff)

lemma smap_json_read:
  assumes "distinct (map fst m)" and "m \<noteq> []"
  shows "as_smap (smap_json m) = Some (sort_key fst m)"
proof -
  have "those (map (or_null [] as_string \<circ> snd) (map (map_prod id JStr) xs)) = Some (map snd xs)" for xs :: smap
    by (induction xs) (simp_all add: or_null_def)
  moreover have keys: "map fst (map (map_prod id JStr) xs) = map fst xs" for xs :: smap by simp
  ultimately have "as_smap (smap_json m) = Some (maps_copy [] (sort_key fst m))"
    using assms(2) keys by (simp only: smap_json_def as_smap.simps zip_map_fst_snd if_False option.map)
  then show ?thesis using maps_copy_fresh [of "[]" "sort_key fst m"] distinct_sort_key [OF assms(1)] by simp
qed

lemma smap_json_Null [simp]: "smap_json m = JNull \<longleftrightarrow> m = []" "strings_json xs = JNull \<longleftrightarrow> xs = []"
  by (simp_all add: smap_json_def strings_json_def)

lemma field_strings [simp]: "json_field as_strings k [(k, strings_json xs)] [] = Some xs" if "to_lower k = k"
  using that strings_json_read [of xs] by (cases "xs = []") simp_all

lemma exec_body_read:
  assumes "distinct (map fst (se_env opts))"
  shows "exec_of_json (exec_body opts) = Some \<lparr> er_cmd = se_cmd opts, er_env = sort_key fst (se_env opts),
    er_work_dir = se_work_dir opts, er_stdin = se_stdin opts \<rparr>"
  using strings_json_read [of "se_cmd opts"] smap_json_read [OF assms]
  by (cases "se_cmd opts = []"; cases "se_env opts = []")
    (simp_all add: exec_body_def to_lower_def lower_char_def)

definition sent_create :: "sdk_create_options \<Rightarrow> create_request" where
  "sent_create opts = \<lparr> cr_name = so_name opts, cr_profile = so_profile opts, cr_image = so_image opts,
     cr_cmd = so_cmd opts, cr_env = sort_key fst (so_env opts), cr_cpus = so_cpus opts,
     cr_memory_mb = so_memory_mb opts,
     cr_ttl_sec = (if pos64 (so_ttl opts) then word_of_int (whole_seconds (so_ttl opts)) else 0) \<rparr>"

text \<open>The JSON form of a \<open>float64\<close>: a number literal that reads back as the value.\<close>

definition float_ok :: "(f64 \<Rightarrow> string option) \<Rightarrow> (string \<Rightarrow> f64 option) \<Rightarrow> f64 \<Rightarrow> bool" where
  "float_ok ff pf x \<longleftrightarrow> (\<exists>s. ff x = Some s \<and> scan_number s = Some (s, []) \<and> pf s = Some x)"

lemma create_body_ok:
  "float_ok ff pf (so_cpus opts) \<Longrightarrow> \<exists>body. create_body ff opts = Some body \<and> json_ok body"
  by (auto simp: create_body_def float_ok_def scan_number_itoa)

lemma int_range_whole: "int_range (whole_seconds d)"
proof -
  have "int_range (sint d div 1000000000)" "int_range (sint d div 1000000000 + 1)"
    using int_range_sint [of d] by (auto simp: int_range_def)
  then show ?thesis by (simp add: whole_seconds_def Let_def)
qed

lemma create_body_read:
  assumes "distinct (map fst (so_env opts))" and "float_ok ff pf (so_cpus opts)"
    and "create_body ff opts = Some body"
  shows "create_of_json pf body = Some (sent_create opts)"
proof -
  obtain s where s: "ff (so_cpus opts) = Some s" "pf s = Some (so_cpus opts)"
    using assms(2) by (auto simp: float_ok_def)
  have "int_range (sint (so_memory_mb opts))" by (rule int_range_sint)
  then show ?thesis
    using strings_json_read [of "so_cmd opts"] smap_json_read [OF assms(1)] assms(3) s
    by (cases "so_cmd opts = []"; cases "so_env opts = []"; cases "pos64 (so_ttl opts)")
      (auto simp: create_body_def sent_create_def to_lower_def lower_char_def as_int64_def int_range_whole)
qed

section \<open>Create and Exec\<close>

text \<open>The binding of a JSON body: \<open>fiber\<close> hands it to \<open>encoding/json\<close>.\<close>

definition json_binders :: "(string \<Rightarrow> f64 option) \<Rightarrow> binders \<Rightarrow> bool" where
  "json_binders pf bi \<longleftrightarrow> (\<forall>q v. ar_ctype q = ''application/json'' \<longrightarrow> json_parse (ar_body q) = Some v \<longrightarrow>
     (\<forall>r. create_of_json pf v = Some r \<longrightarrow> bi_create bi q = Inr r)
     \<and> (\<forall>r. exec_of_json v = Some r \<longrightarrow> bi_exec bi q = Inr r))"

lemma bind_create:
  "json_binders pf bi \<Longrightarrow> json_ok body \<Longrightarrow> create_of_json pf body = Some r \<Longrightarrow>
     bi_create bi (kpd.request_to cl meth p (Some body)) = Inr r"
  by (simp add: json_binders_def kpd.request_to_def json_text_parse)

lemma bind_exec:
  "json_binders pf bi \<Longrightarrow> json_ok body \<Longrightarrow> exec_of_json body = Some r \<Longrightarrow>
     bi_exec bi (kpd.request_to cl meth p (Some body)) = Inr r"
  by (simp add: json_binders_def kpd.request_to_def json_text_parse)

definition sent_exec :: "sdk_exec_options \<Rightarrow> exec_request" where
  "sent_exec opts = \<lparr> er_cmd = se_cmd opts, er_env = sort_key fst (se_env opts),
     er_work_dir = se_work_dir opts, er_stdin = se_stdin opts \<rparr>"

text \<open>The duration of a result is cut to milliseconds.\<close>

definition cut_duration :: "exec_result \<Rightarrow> exec_result" where
  "cut_duration x = x\<lparr> xr_duration := word_of_int (milliseconds (xr_duration x)) * millisecond \<rparr>"

lemma exec_result_read:
  "int_range (xr_exit_code x) \<Longrightarrow>
     map_sum id exec_result_of (read_reply (Some raw_exec_of_json) zero (json_reply 200 (exec_json x))) = Inr (cut_duration x)"
  by (simp add: exec_json_read exec_result_of_def cut_duration_def)

lemma sdk_exec:
  assumes "trusted cl sv" and "plain_id i" and "json_binders pf bi" and "distinct (map fst (se_env opts))"
    and "\<forall>chunks x m'. exec rt st i (exec_options_of False (sent_exec opts)) (dw_now dw) m = ((chunks, Inr x), m')
           \<longrightarrow> int_range (xr_exit_code x)"
  shows "client_exec cl (kpd_transport cl un sv bi rt st dw) i opts m =
    (if se_cmd opts = [] then (Inl (sdk_error 400 ''cmd is required''), m)
     else case exec rt st i (exec_options_of False (sent_exec opts)) (dw_now dw) m of
       ((_, Inl e), m') \<Rightarrow> (Inl (sdk_failure e), m')
     | ((_, Inr x), m') \<Rightarrow> (Inr (cut_duration x), m'))"
proof -
  have "bi_exec bi (kpd.request_to cl meth p (Some (exec_body opts))) = Inr (sent_exec opts)" for meth p
    by (rule bind_exec [OF assms(3)]) (simp_all add: exec_body_read [OF assms(4)] sent_exec_def)
  moreover have "er_cmd (sent_exec opts) = se_cmd opts" by (simp add: sent_exec_def)
  ultimately show ?thesis using assms(1,2,5)
    by (simp add: client_exec_def sdk_call client_paths client_routes dispatch_def handle_exec_def
        exec_result_read del: append_Cons raw_exec_of_json.simps split: prod.split sum.split)
qed

definition sdk_create_failure :: "mgr_error \<Rightarrow> client_error" where
  "sdk_create_failure e =
     (case e of
        PolicyDenied v \<Rightarrow> ApiError 400 (policy_message v) (Some KindPolicyDenied)
      | _ \<Rightarrow> ApiError 500 (sdk_message (mgr_message e)) None)"

lemma create_failure_read:
  "sdk_error (if says_policy e then 400 else 500) (mgr_message e) = sdk_create_failure e"
proof (cases e)
  case (PolicyDenied v)
  have "str_contains (to_lower (policy_message v)) ''policy''"
    by (simp add: policy_message_def to_lower_def lower_char_def has_prefix_def)
  with PolicyDenied show ?thesis
    by (simp add: says_policy_def sdk_error_def sdk_message_def mgr_message_def sdk_create_failure_def
        classify_error_def)
qed (simp_all add: says_policy_def sdk_error_def sdk_create_failure_def classify_error_def)

lemma sdk_create:
  assumes "trusted cl sv" and "json_binders pf bi" and "distinct (map fst (so_env opts))"
    and "float_ok ff pf (so_cpus opts)"
  shows "client_create ff cl (kpd_transport cl un sv bi rt st dw) opts m =
    (if so_image opts = [] \<and> so_profile opts = [] then
       (Inl (ApiError 400 ''image or profile is required'' (Some KindPolicyDenied)), m)
     else case create rt st (dw_uuid dw) (dw_now dw) (options_of_request (sent_create opts)) m of
       ((sb, Some e), m') \<Rightarrow> (Inl (sdk_create_failure e), m')
     | ((sb, None), m') \<Rightarrow> (Inr (to_api sb), m'))"
proof -
  obtain body where body: "create_body ff opts = Some body" "json_ok body"
    using create_body_ok [OF assms(4)] by blast
  have bound: "bi_create bi (kpd.request_to cl meth p (Some body)) = Inr (sent_create opts)" for meth p
    by (rule bind_create [OF assms(2) body(2)]) (rule create_body_read [OF assms(3,4) body(1)])
  have fields: "cr_image (sent_create opts) = so_image opts" "cr_profile (sent_create opts) = so_profile opts"
    by (simp_all add: sent_create_def)
  have hint: "sdk_error 400 ''image or profile is required''
      = ApiError 400 ''image or profile is required'' (Some KindPolicyDenied)" by code_simp
  obtain out m' where c: "create rt st (dw_uuid dw) (dw_now dw) (options_of_request (sent_create opts)) m = (out, m')"
    by fastforce
  obtain sb err where out: "out = (sb, err)" by fastforce
  show ?thesis
    using assms(1) create_failure_read
    by (cases err)
      (auto simp: client_create_def body sdk_call client_paths client_routes dispatch_def handle_create_def bound
        fields hint c out simp del: sandbox_of_json.simps)
qed

section \<open>The time to live\<close>

lemma top_bit_le: "0 < n \<Longrightarrow> top_bit n \<le> n"
proof (induction n rule: top_bit.induct)
  case (1 n)
  then show ?case by (subst top_bit.simps) (cases "n < 2"; simp; linarith)
qed

lemma whole_seconds_bounds:
  assumes "0 < sint d"
  shows "0 \<le> whole_seconds d" and "whole_seconds d < 2 ^ 34"
    and "sint d - 1000000000 < whole_seconds d * 1000000000"
    and "whole_seconds d * 1000000000 \<le> sint d + 1024"
    and "sint d mod 1000000000 = 0 \<Longrightarrow> whole_seconds d = sint d div 1000000000"
proof -
  let ?sec = "sint d div 1000000000" and ?ns = "sint d mod 1000000000"
  have range: "sint d < 2 ^ 63" using int_range_sint [of d] by (simp add: int_range_def)
  then have "?sec \<le> (2 ^ 63 - 1) div 1000000000" by (intro zdiv_mono1) simp_all
  then have sec: "0 \<le> ?sec" "?sec \<le> 9223372036" using assms by (simp_all add: pos_imp_zdiv_nonneg_iff)
  have split: "sint d = ?sec * 1000000000 + ?ns" "0 \<le> ?ns" "?ns < 1000000000" by simp_all
  have up: "1000000000 - ?ns \<le> 1024" if "0 < ?sec" "(1000000000 - ?ns) * 2 ^ 53 \<le> 1000000000 * int (top_bit (nat ?sec))"
  proof -
    have "int (top_bit (nat ?sec)) \<le> ?sec" using top_bit_le [of "nat ?sec"] that(1) by simp
    with that(2) sec(2) show ?thesis by simp
  qed
  have exact: "\<not> (1000000000 - ?ns) * 2 ^ 53 \<le> 1000000000 * int (top_bit (nat ?sec))" if "?ns = 0" "0 < ?sec"
    using top_bit_le [of "nat ?sec"] that sec(2) by simp
  show "0 \<le> whole_seconds d" "whole_seconds d < 2 ^ 34" using sec by (auto simp: whole_seconds_def Let_def)
  show "sint d - 1000000000 < whole_seconds d * 1000000000" "whole_seconds d * 1000000000 \<le> sint d + 1024"
    using split up unfolding whole_seconds_def Let_def by (simp_all, linarith+)
  show "?ns = 0 \<Longrightarrow> whole_seconds d = ?sec" using exact by (auto simp: whole_seconds_def Let_def)
qed

lemma sint_word_of_int: "- (2 ^ 63) \<le> x \<Longrightarrow> x < 2 ^ 63 \<Longrightarrow> sint (word_of_int x :: int64) = x"
  by (simp add: int_word_sint)

lemma ttl_of_whole:
  assumes "0 < sint d"
  shows "sint (ttl_of_seconds (word_of_int (whole_seconds d))) = whole_seconds d * 1000000000"
proof -
  note b = whole_seconds_bounds [OF assms]
  have d: "sint d < 2 ^ 63" using int_range_sint [of d] by (simp add: int_range_def)
  have "sint d mod 1000000000 = 0 \<or> sint d mod 1000000000 \<noteq> 0" by simp
  have lim: "whole_seconds d * 1000000000 < 2 ^ 63"
  proof (rule ccontr)
    assume "\<not> ?thesis"
    then have "9223372037 \<le> whole_seconds d" by simp
    then have "9223372037000000000 \<le> whole_seconds d * 1000000000" by simp
    with b(4) d show False by simp
  qed
  have "ttl_of_seconds (word_of_int (whole_seconds d)) = word_of_int (whole_seconds d * 1000000000)"
    by (simp add: ttl_of_seconds_def)
  then show ?thesis using sint_word_of_int [of "whole_seconds d * 1000000000"] b(1) lim by simp
qed

section \<open>Properties\<close>


text \<open>A client, a server and the JSON binding used by the witnesses.\<close>

definition json_bind :: "(json \<Rightarrow> 'a option) \<Rightarrow> api_request \<Rightarrow> string + 'a" where
  "json_bind dec q =
     (case json_parse (ar_body q) of
        None \<Rightarrow> Inl ''invalid body''
      | Some v \<Rightarrow> (case dec v of None \<Rightarrow> Inl ''invalid body'' | Some r \<Rightarrow> Inr r))"

definition demo_float :: "f64 \<Rightarrow> string option" where
  "demo_float x = (case x of Fin q \<Rightarrow> if q = 0 then Some ''0'' else None | _ \<Rightarrow> None)"

definition demo_read_float :: "string \<Rightarrow> f64 option" where
  "demo_read_float s = (if s = ''0'' then Some (Fin 0) else None)"

definition demo_binders :: binders where
  "demo_binders = \<lparr> bi_create = json_bind (create_of_json demo_read_float), bi_exec = json_bind exec_of_json \<rparr>"

definition demo_server :: api_server where
  "demo_server = \<lparr> sv_token = ''s3cret'', sv_metrics = None \<rparr>"

definition demo_client :: client where
  "demo_client = new_client ''http://127.0.0.1:8080/'' ''s3cret''"

lemma demo_binders_ok: "json_binders demo_read_float demo_binders"
  by (simp add: json_binders_def demo_binders_def json_bind_def)

lemma demo_trusted: "trusted demo_client demo_server"
  by (simp add: trusted_def demo_client_def demo_server_def new_client_def trim_space_def is_space_def)

lemma demo_float_ok: "float_ok demo_float demo_read_float (Fin 0)"
  unfolding float_ok_def demo_float_def demo_read_float_def
  by (rule exI [of _ "''0''"]) (simp, code_simp)

definition demo_draws :: draws where
  "demo_draws = \<lparr> dw_uuid = ''u1'', dw_now = 0 \<rparr>"




text \<open>C38. The time to live through the SDK: a whole number of seconds arrives as it is; any other is
  cut to the second below, or rounded up by at most 1024 nanoseconds, never overflows, and a value
  under a second becomes zero, which the policy reads as "not set". A raw request has no such bound:
  from 9223372037 seconds on the product wraps around to a negative duration.\<close>

theorem sdk_ttl:
  assumes "0 < sint ttl" and "sent = ttl_of_seconds (word_of_int (whole_seconds ttl))"
  shows "(if sint ttl mod 1000000000 = 0 then sent = ttl
      else sint ttl - 1000000000 < sint sent \<and> sint sent \<le> sint ttl + 1024)
    \<and> (if sint ttl < 1000000000 then sent = 0 else 0 < sint sent)
    \<and> sint (ttl_of_seconds 9223372036) = 9223372036000000000
    \<and> sint (ttl_of_seconds 9223372037) < 0"
proof -
  note b = whole_seconds_bounds [OF assms(1)] and w = ttl_of_whole [OF assms(1)]
  have "sint sent = sint ttl" if "sint ttl mod 1000000000 = 0"
    using b(5) [OF that] that w div_mult_mod_eq [of "sint ttl" 1000000000] by (simp add: assms(2))
  then have "sent = ttl" if "sint ttl mod 1000000000 = 0" using that by (metis signed_word_eqI)
  moreover have "whole_seconds ttl = 0" if "sint ttl < 1000000000"
    using that assms(1) by (simp add: whole_seconds_def)
  moreover have "0 < whole_seconds ttl" if "\<not> sint ttl < 1000000000"
  proof -
    have "0 < whole_seconds ttl * 1000000000" using b(3) that by linarith
    then show ?thesis by simp
  qed
  moreover have "sint (ttl_of_seconds 9223372036) = 9223372036000000000" "sint (ttl_of_seconds 9223372037) < 0"
    by (simp_all add: ttl_of_seconds_def)
  ultimately show ?thesis using b(3,4) w by (auto simp: assms(2) ttl_of_seconds_def)
qed

theorem sdk_ttl_witness:
  "sint (ttl_of_seconds (word_of_int (whole_seconds 2500000000))) \<le> 2500001024"
  using sdk_ttl [of "2500000000" "ttl_of_seconds (word_of_int (whole_seconds 2500000000))"] by simp

section \<open>WaitFor\<close>

text \<open>The polls of a wait that nothing stops but its context: each result with the state after it.\<close>

fun poll_trace ::
    "client \<Rightarrow> 'w transport \<Rightarrow> string \<Rightarrow> 'w pause list \<Rightarrow> 'w \<Rightarrow> ((client_error + api_sandbox) \<times> 'w) list" where
  "poll_trace cl tr i script w =
     client_get cl tr i w #
       (case script of Tick f # rest \<Rightarrow> poll_trace cl tr i rest (f (snd (client_get cl tr i w))) | _ \<Rightarrow> [])"

declare poll_trace.simps [simp del]

lemma poll_trace_cases [simp]:
  "poll_trace cl tr i [] w = [client_get cl tr i w]"
  "poll_trace cl tr i (Done e # rest) w = [client_get cl tr i w]"
  "poll_trace cl tr i (Tick f # rest) w =
     client_get cl tr i w # poll_trace cl tr i rest (f (snd (client_get cl tr i w)))"
  "poll_trace cl tr i script w \<noteq> []"
  by (subst poll_trace.simps, simp)+

definition wait_verdict ::
    "string \<Rightarrow> string \<Rightarrow> client_error + api_sandbox \<Rightarrow> (api_sandbox option \<times> client_error option) option" where
  "wait_verdict i target res =
     (case res of
        Inl e \<Rightarrow> Some (None, Some (if is_kind KindNotFound e then WaitNotFound target e else e))
      | Inr sb \<Rightarrow>
          (if as_state sb = target then Some (Some sb, None)
           else if as_state sb \<in> {state_removed, state_error} then
             Some (Some sb, Some (WaitTerminal i (as_state sb) target))
           else None))"

fun wait_end :: "'w pause list \<Rightarrow> (api_sandbox option \<times> client_error option) option" where
  "wait_end [] = None"
| "wait_end (Tick f # rest) = wait_end rest"
| "wait_end (Done e # rest) = Some (None, Some (WaitCancelled e))"

text \<open>C32. \<open>WaitFor\<close> returns at the first poll that decides: in the sequence of polls made while the
  ticker fires, it returns the verdict of the first one that is an error, shows the target state or a
  terminal one, in the state right after that poll, so no request follows; if none decides, it
  returns the context's error once the context ends, and keeps waiting while the ticker fires.\<close>

theorem wait_for_first_decisive:
  "wait_for cl tr i target script w =
    (case find (\<lambda>(res, _). wait_verdict i target res \<noteq> None) (poll_trace cl tr i script w) of
       Some (res, w') \<Rightarrow> (wait_verdict i target res, w')
     | None \<Rightarrow> (wait_end script, snd (last (poll_trace cl tr i script w))))"
proof (induction cl tr i target script w rule: wait_for.induct)
  case (1 cl tr i target script w)
  obtain res w' where g: "client_get cl tr i w = (res, w')" by fastforce
  show ?case
  proof (cases "wait_verdict i target res")
    case (Some v)
    then show ?thesis
      by (subst wait_for.simps, subst poll_trace.simps)
        (auto simp: g wait_verdict_def is_terminal_state_def split: sum.splits if_splits)
  next
    case None
    then obtain sb where sb: "res = Inr sb" "as_state sb \<noteq> target" "\<not> is_terminal_state (as_state sb)"
      by (auto simp: wait_verdict_def is_terminal_state_def split: sum.splits if_splits)
    note step = wait_for.simps [of cl tr i target script w]
    show ?thesis
    proof (cases script)
      case Nil
      then show ?thesis using step g sb None by simp
    next
      case (Cons p rest)
      show ?thesis
      proof (cases p)
        case (Tick f)
        have "wait_for cl tr i target script w = wait_for cl tr i target rest (f w')"
          using step g sb Cons Tick by simp
        with 1 [OF g [symmetric] sb(1,2) _ Cons Tick] sb g None show ?thesis
          unfolding Cons Tick by (simp cong: option.case_cong)
      qed (use step g sb None Cons in simp)
    qed
  qed
qed

end
