(* ===== verification/Wire.thy ===== *)
theory Wire
  imports Remote
begin

text \<open>
  The types of the HTTP API: which statuses a route can answer with, and of which type the body is
  then, in terms of the parser of JSON and the decoders of the SDK.
\<close>

section \<open>Types of replies\<close>

datatype wire_type =
  WError | WSandbox | WSandboxes | WExec | WHealth | WAddress | WText | WEvents | WEmpty | WPage

definition json_typed :: "(json \<Rightarrow> 'a option) \<Rightarrow> api_reply \<Rightarrow> bool" where
  "json_typed dec rep \<longleftrightarrow> ap_ctype rep = ''application/json; charset=utf-8'' \<and> ap_follow rep = None
     \<and> (case json_parse (ap_body rep) of None \<Rightarrow> False | Some v \<Rightarrow> v \<noteq> JNull \<and> dec v \<noteq> None)"

text \<open>Bodies the SDK has no decoder for: an error, the address of a proxy, the health report.\<close>

fun error_of_json :: "json \<Rightarrow> string option" where
  "error_of_json (JObj [(k, JStr msg)]) = (if k = ''error'' then Some msg else None)"
| "error_of_json _ = None"

fun address_of_json :: "json \<Rightarrow> string option" where
  "address_of_json (JObj [(k, JStr a)]) = (if k = ''address'' then Some a else None)"
| "address_of_json _ = None"

fun check_of_json :: "json \<Rightarrow> bool option" where
  "check_of_json (JObj ((k, JBool b) # ms)) =
     (if k = ''ok'' \<and> (\<forall>kv \<in> set ms. fst kv = ''detail'' \<and> as_string (snd kv) \<noteq> None) then Some b else None)"
| "check_of_json _ = None"

fun health_of_json :: "json \<Rightarrow> (string \<times> bool option list) option" where
  "health_of_json (JObj [(k1, JStr s), (k2, JObj cs)]) =
     (if k1 = ''status'' \<and> k2 = ''checks'' \<and> (\<forall>kv \<in> set cs. check_of_json (snd kv) \<noteq> None)
      then Some (s, map (check_of_json \<circ> snd) cs) else None)"
| "health_of_json _ = None"

definition has_wire_type :: "wire_type \<Rightarrow> api_reply \<Rightarrow> bool" where
  "has_wire_type ty rep = (case ty of
       WError \<Rightarrow> json_typed error_of_json rep
     | WSandbox \<Rightarrow> json_typed sandbox_of_json rep
     | WSandboxes \<Rightarrow> json_typed sandboxes_of_json rep
     | WExec \<Rightarrow> json_typed raw_exec_of_json rep
     | WHealth \<Rightarrow> json_typed health_of_json rep
     | WAddress \<Rightarrow> json_typed address_of_json rep
     | WText \<Rightarrow> ap_ctype rep = ''text/plain; charset=utf-8'' \<and> ap_follow rep = None
     | WEvents \<Rightarrow> ap_ctype rep = ''text/event-stream''
     | WEmpty \<Rightarrow> ap_ctype rep = [] \<and> ap_body rep = [] \<and> ap_follow rep = None
     | WPage \<Rightarrow> ap_follow rep = None)"

definition route_statuses :: "api_route \<Rightarrow> nat set" where
  "route_statuses r = (case r of
       RouteHealth \<Rightarrow> {200, 503}
     | RouteMetrics \<Rightarrow> {200}
     | RouteCreate \<Rightarrow> {201, 400, 500}
     | RouteList \<Rightarrow> {200, 500}
     | RouteGet _ \<Rightarrow> {200, 404, 500}
     | RouteProxy _ \<Rightarrow> {200, 404, 500}
     | RouteLogs _ \<Rightarrow> {200, 400, 404, 500}
     | RouteDelete _ \<Rightarrow> {204, 404, 500}
     | RouteStop _ \<Rightarrow> {204, 404, 500}
     | RouteExec _ \<Rightarrow> {200, 400, 404, 500}
     | RouteExecStream _ \<Rightarrow> {200, 400})"

definition success_type :: "api_route \<Rightarrow> api_request \<Rightarrow> wire_type" where
  "success_type r q = (case r of
       RouteHealth \<Rightarrow> WHealth
     | RouteMetrics \<Rightarrow> WPage
     | RouteCreate \<Rightarrow> WSandbox
     | RouteList \<Rightarrow> WSandboxes
     | RouteGet _ \<Rightarrow> WSandbox
     | RouteProxy _ \<Rightarrow> WAddress
     | RouteLogs _ \<Rightarrow> (if map_option lo_follow (logs_query q) = Some True then WEvents else WText)
     | RouteDelete _ \<Rightarrow> WEmpty
     | RouteStop _ \<Rightarrow> WEmpty
     | RouteExec _ \<Rightarrow> WExec
     | RouteExecStream _ \<Rightarrow> WEvents)"

definition reply_type :: "api_route \<Rightarrow> api_request \<Rightarrow> nat \<Rightarrow> wire_type" where
  "reply_type r q status = (if status \<in> {400, 401, 404, 500} then WError else success_type r q)"

definition well_typed :: "api_route \<Rightarrow> api_request \<Rightarrow> api_reply \<Rightarrow> bool" where
  "well_typed r q rep \<longleftrightarrow> ap_status rep \<in> route_statuses r \<and> has_wire_type (reply_type r q (ap_status rep)) rep"

section \<open>Each reply has its type\<close>

lemma json_typed_reply: "json_ok v \<Longrightarrow> v \<noteq> JNull \<Longrightarrow> dec v \<noteq> None \<Longrightarrow> json_typed dec (json_reply n v)"
  by (simp add: json_typed_def json_reply_def json_text_parse)

lemma error_typed [simp]: "json_typed error_of_json (error_reply n msg)"
  unfolding error_reply_def by (rule json_typed_reply) (simp_all add: error_reply_json_def)

lemma well_typed_error:
  "n \<in> {400, 404, 500} \<Longrightarrow> n \<in> route_statuses r \<Longrightarrow> well_typed r q (error_reply n msg)"
  by (auto simp: well_typed_def reply_type_def has_wire_type_def)

lemma well_typed_failure:
  "{404, 500} \<subseteq> route_statuses r \<Longrightarrow> well_typed r q (failure_reply e)"
  by (auto simp: failure_reply_def intro!: well_typed_error)

lemma sandbox_typed: "json_typed sandbox_of_json (json_reply n (sandbox_json a))"
  by (rule json_typed_reply) (simp_all, simp add: sandbox_json_def)

lemma sandboxes_typed: "json_typed sandboxes_of_json (json_reply n (JArr (map (sandbox_json \<circ> f) xs)))"
  by (rule json_typed_reply) (simp_all only: sandboxes_json_read, auto)

lemma exec_typed: "int_range (xr_exit_code res) \<Longrightarrow> json_typed raw_exec_of_json (json_reply n (exec_json res))"
  by (rule json_typed_reply) (simp_all add: exec_json_read, simp add: exec_json_def)

lemma check_typed [simp]:
  "check_of_json (JObj ((''ok'', JBool b) # omit_empty ''detail'' s)) = Some b"
  "json_ok (JObj ((''ok'', JBool b) # omit_empty ''detail'' s))"
  by (auto simp: omit_empty_def)

lemma health_typed: "json_typed health_of_json (json_reply n (health_json report))"
proof (rule json_typed_reply)
  show "json_ok (health_json report)"
    by (auto simp: health_json_def omit_empty_def)
  show "health_of_json (health_json report) \<noteq> None" by (auto simp: health_json_def omit_empty_def)
qed (simp add: health_json_def)

lemma address_typed: "json_typed address_of_json (json_reply n (JObj [(''address'', JStr a)]))"
  by (rule json_typed_reply) simp_all

lemmas reply_typed = well_typed_def reply_type_def success_type_def has_wire_type_def route_statuses_def

lemma exec_code_range:
  assumes "\<And>i x r chunks res r'. rt_exec rt i x r = (chunks, Inr res, r') \<Longrightarrow> int_range (xr_exit_code res)"
    and "exec rt st i opts now m = ((chunks, Inr res), m')"
  shows "int_range (xr_exit_code res)"
  using assms by (auto simp: exec_def Let_def split: sum.splits prod.splits option.splits if_splits)

lemma create_typed: "well_typed RouteCreate q (fst (handle_create bind rt st u t q m))"
  by (auto simp: handle_create_def intro!: well_typed_error split: sum.split prod.split option.split)
    (auto simp: reply_typed sandbox_typed)

lemma read_typed:
  "well_typed RouteList q (fst (handle_list st m))" "well_typed (RouteGet i) q (fst (handle_get st i m))"
  "well_typed (RouteProxy i) q (fst (handle_proxy rt st i m))"
  by (auto simp: handle_list_def handle_get_def handle_proxy_def intro!: well_typed_error well_typed_failure
      split: sum.split prod.split)
    (auto simp: reply_typed sandbox_typed sandboxes_typed address_typed)

lemma change_typed:
  "well_typed (RouteDelete i) q (fst (handle_delete rt st i m))" "well_typed (RouteStop i) q (fst (handle_stop rt st i m))"
  by (auto simp: handle_delete_def handle_stop_def intro!: well_typed_failure split: prod.split option.split)
    (auto simp: reply_typed no_content_def)

lemma logs_typed: "well_typed (RouteLogs i) q (fst (handle_logs st i q m))"
  by (cases "logs_query q")
    (auto simp: handle_logs_def intro!: well_typed_error well_typed_failure split: prod.split sum.split,
     auto simp: reply_typed)

lemma run_typed:
  assumes "\<And>i x r chunks res r'. rt_exec rt i x r = (chunks, Inr res, r') \<Longrightarrow> int_range (xr_exit_code res)"
  shows "well_typed (RouteExec i) q (fst (handle_exec bind rt st now i q m))"
    and "well_typed (RouteExecStream i) q (fst (handle_exec_stream bind rt st now i q m))"
proof -
  have "int_range (xr_exit_code res)" if "exec rt st i opts now m = ((chunks, Inr res), m')" for opts chunks res m'
    using exec_code_range [OF assms that] .
  then have ok: "well_typed (RouteExec i) q (json_reply 200 (exec_json res))"
    if "exec rt st i opts now m = ((chunks, Inr res), m')" for opts chunks res m'
    using that by (auto simp: reply_typed exec_typed)
  show "well_typed (RouteExec i) q (fst (handle_exec bind rt st now i q m))"
    by (auto simp: handle_exec_def intro!: well_typed_error well_typed_failure ok split: sum.split prod.split)
      (auto simp: route_statuses_def)
  show "well_typed (RouteExecStream i) q (fst (handle_exec_stream bind rt st now i q m))"
    by (auto simp: handle_exec_stream_def intro!: well_typed_error split: sum.split prod.split)
      (auto simp: reply_typed)
qed

section \<open>Properties\<close>

text \<open>C22. The types of the HTTP API. Over any backend, store and state, a reply is either the 401 of the
  middleware or has one of the statuses of its route, and with it a body of the type of that status: an
  error is a JSON object with a string, a sandbox, a list of sandboxes, an exec result, a health
  report and an address are JSON that parses and that the SDK decodes, an empty reply is empty.\<close>

theorem api_replies_typed:
  assumes "\<And>i x r chunks res r'. rt_exec rt i x r = (chunks, Inr res, r') \<Longrightarrow> int_range (xr_exit_code res)"
    and "serve_api sv bi rt st dw q m = (Some rep, m')"
  shows "if authorized (sv_token sv) q
    then \<exists>r. route (sv_metrics sv \<noteq> None) q = Some r \<and> ap_status rep \<in> route_statuses r
      \<and> has_wire_type (reply_type r q (ap_status rep)) rep
    else ap_status rep = 401 \<and> has_wire_type WError rep"
proof (cases "authorized (sv_token sv) q")
  case True
  then obtain r where r: "route (sv_metrics sv \<noteq> None) q = Some r" "rep = fst (dispatch sv bi rt st dw r q m)"
    using assms(2) by (auto simp: serve_api_def split: option.splits prod.splits)
  have "well_typed r q (fst (dispatch sv bi rt st dw r q m))"
  proof (cases r)
    case RouteHealth
    then show ?thesis by (simp add: dispatch_def handle_health_def Let_def reply_typed health_typed)
  next
    case RouteMetrics
    then obtain page where "sv_metrics sv = Some page" using r(1) by (auto simp: route_def split: list.splits if_splits)
    with RouteMetrics show ?thesis by (simp add: dispatch_def reply_typed)
  qed (simp_all add: dispatch_def create_typed read_typed change_typed logs_typed run_typed [OF assms(1)])
  then show ?thesis using True r by (auto simp: well_typed_def)
qed (use assms(2) in \<open>auto simp: serve_api_def has_wire_type_def\<close>)

definition demo_list_request :: api_request where
  "demo_list_request = \<lparr> ar_method = ''GET'', ar_path = ''/v1/sandboxes'', ar_query = [], ar_auth = ''Bearer s3cret'',
     ar_ctype = [], ar_body = [] \<rparr>"

lemma fake_exec_range: "rt_exec fake_ops i x r = (chunks, Inr res, r') \<Longrightarrow> int_range (xr_exit_code res)"
  by (auto simp: fake_ops_def fake_exec_def int_range_def split: if_splits option.splits)

theorem api_replies_typed_witness:
  "case serve_api demo_server demo_binders fake_ops sqlite_ops demo_draws demo_list_request demo_manager of
     (Some rep, m') \<Rightarrow> ap_status rep \<in> {200, 500} \<and> has_wire_type (if ap_status rep = 200 then WSandboxes else WError) rep
   | (None, m') \<Rightarrow> False"
proof -
  have auth: "authorized (sv_token demo_server) demo_list_request"
    and routed: "route (sv_metrics demo_server \<noteq> None) demo_list_request = Some RouteList" by code_simp+
  obtain rep m' where "dispatch demo_server demo_binders fake_ops sqlite_ops demo_draws RouteList demo_list_request demo_manager
      = (rep, m')" by fastforce
  then have run: "serve_api demo_server demo_binders fake_ops sqlite_ops demo_draws demo_list_request demo_manager
      = (Some rep, m')" using auth routed by (simp add: serve_api_def)
  have "if authorized (sv_token demo_server) demo_list_request
    then \<exists>r. route (sv_metrics demo_server \<noteq> None) demo_list_request = Some r \<and> ap_status rep \<in> route_statuses r
      \<and> has_wire_type (reply_type r demo_list_request (ap_status rep)) rep
    else ap_status rep = 401 \<and> has_wire_type WError rep"
    by (rule api_replies_typed [OF _ run]) (erule fake_exec_range)
  then show ?thesis
    using auth routed unfolding run by (auto simp: route_statuses_def reply_type_def success_type_def)
qed

end
