(* ===== verification/Streams.thy ===== *)
theory Streams
  imports Remote
begin

text \<open>
  The logs and the streams of the SDK over the daemon. The requests carry a query, so the connection
  has to hand on a query as well: the locale \<open>kpd_query_link\<close> extends \<open>kpd_link\<close> by this law, and
  \<open>loopback\<close> interprets it. A streamed reply is read to its end; for a followed log this is the
  snapshot, after which the connection ends.
\<close>

section \<open>Requests with a query\<close>

locale kpd_query_link = kpd_link cl tr serve unrouted
  for cl :: client and tr :: "'w transport" and serve :: "api_request \<Rightarrow> 'w \<Rightarrow> api_reply option \<times> 'w"
    and unrouted :: "api_request \<Rightarrow> http_response" +
  assumes delivers_query: "plain_path p \<Longrightarrow>
    q = \<lparr> ar_method = meth, ar_path = p, ar_query = parse_query qs, ar_auth = trim_space au, ar_ctype = ct, ar_body = b \<rparr> \<Longrightarrow>
    tr \<lparr> hq_method = meth, hq_url = cl_addr cl @ p @ CHR ''?'' # qs, hq_ctype = ct, hq_accept = ac, hq_auth = au, hq_body = b \<rparr> w
      = (case serve q w of (rep, w') \<Rightarrow> (Inr (answer unrouted q rep), w'))"
begin

text \<open>A log request as it arrives; without a query the address has no question mark.\<close>

definition log_request_to :: "string \<Rightarrow> string \<Rightarrow> api_request" where
  "log_request_to p qs = \<lparr> ar_method = ''GET'', ar_path = p, ar_query = parse_query qs,
     ar_auth = trim_space (bearer cl), ar_ctype = [], ar_body = [] \<rparr>"

lemma log_request_served:
  assumes "plain_path p" and "serve (log_request_to p qs) w = (Some rep, w')"
  shows "tr (log_request_for cl accept (if qs = [] then p else p @ CHR ''?'' # qs)) w
    = (Inr \<lparr> hs_status = ap_status rep, hs_body = ap_body rep, hs_read_err = None \<rparr>, w')"
proof (cases "qs = []")
  case True
  then show ?thesis
    using delivers [OF assms(1) refl, where meth = "''GET''" and au = "bearer cl" and ct = "[]" and b = "[]" and w = w] assms(2)
    by (simp add: log_request_for_def log_request_to_def parse_query_def answer_def)
next
  case False
  then show ?thesis
    using delivers_query [OF assms(1) refl, where meth = "''GET''" and au = "bearer cl" and ct = "[]" and b = "[]" and w = w and qs = qs] assms(2)
    by (simp add: log_request_for_def log_request_to_def answer_def)
qed

lemma post_served:
  assumes "plain_path p" and "serve (request_to ''POST'' p (Some v)) w = (Some rep, w')"
  shows "tr \<lparr> hq_method = ''POST'', hq_url = cl_addr cl @ p, hq_ctype = ''application/json'', hq_accept = ac,
      hq_auth = bearer cl, hq_body = json_text v \<rparr> w
    = (Inr \<lparr> hs_status = ap_status rep, hs_body = ap_body rep, hs_read_err = None \<rparr>, w')"
  using delivers [OF assms(1) refl, where meth = "''POST''" and au = "bearer cl" and ct = "''application/json''"
      and b = "json_text v" and w = w] assms(2)
  by (simp add: request_to_def answer_def)

end

lemma takeWhile_query: "c \<notin> set p \<Longrightarrow> takeWhile (\<lambda>x. x \<noteq> c) (p @ c # s) = p \<and> dropWhile (\<lambda>x. x \<noteq> c) (p @ c # s) = c # s"
  by (induction p) auto

interpretation kpd_query: kpd_query_link cl "loopback (cl_addr cl) unrouted serve" serve unrouted for cl unrouted serve
  by unfold_locales (simp add: loopback_def deliver_def plain_path_def takeWhile_query)

section \<open>The query of a log request\<close>

definition tail_query :: "int \<Rightarrow> string" where
  "tail_query n = (if n > 0 then ''tail='' @ itoa n else [])"

definition follow_query :: "int \<Rightarrow> string" where
  "follow_query n = ''follow=true'' @ (if n > 0 then ''&tail='' @ itoa n else [])"

lemma itoa_chars: "c \<in> set (itoa i) \<Longrightarrow> c = CHR ''-'' \<or> is_digit c"
  using digits_chars [of c] of_char_digit by (fastforce simp: itoa_def is_digit_code split: if_splits)

lemma itoa_no_amp [simp]: "CHR ''&'' \<notin> set (itoa i)"
  using itoa_chars [of "CHR ''&''" i] by (auto simp: is_digit_code)

lemma log_paths:
  "logs_path i n = (if tail_query n = [] then ''/v1/sandboxes/'' @ i @ ''/logs''
     else (''/v1/sandboxes/'' @ i @ ''/logs'') @ CHR ''?'' # tail_query n)"
  "follow_path i n = (''/v1/sandboxes/'' @ i @ ''/logs'') @ CHR ''?'' # follow_query n"
  by (simp_all add: logs_path_def follow_path_def tail_query_def follow_query_def Let_def)

lemma parse_tail: "parse_query (tail_query n) = (if n > 0 then [(''tail'', itoa n)] else [])"
  by (simp add: tail_query_def parse_query_def split_on_single)

lemma parse_follow:
  "parse_query (follow_query n) = (''follow'', ''true'') # (if n > 0 then [(''tail'', itoa n)] else [])"
proof -
  have "split_on (CHR ''&'') (''follow=true'' @ CHR ''&'' # ''tail='' @ itoa n) = [''follow=true'', ''tail='' @ itoa n]"
    by (subst split_on_append_sep) (simp_all add: split_on_single)
  then show ?thesis by (simp add: follow_query_def parse_query_def split_on_single)
qed

section \<open>The calls over the manager\<close>

lemma authorized_bearer:
  "trusted cl sv \<Longrightarrow> ar_auth q = trim_space (bearer cl) \<Longrightarrow> authorized (sv_token sv) q"
  using trim_space_bearer [of "sv_token sv"] by (auto simp: authorized_iff trusted_def bearer_def)

lemma stream_routes:
  assumes "plain_id i"
  shows "route b (kpd_query.log_request_to cl (''/v1/sandboxes/'' @ i @ ''/logs'') qs) = Some (RouteLogs i)"
    and "route b (kpd.request_to cl ''POST'' (''/v1/sandboxes/'' @ i @ ''/exec/stream'') body) = Some (RouteExecStream i)"
  using assms by (simp_all add: route_def kpd_query.log_request_to_def kpd.request_to_def plain_id_def)

lemma stream_paths:
  "plain_id i \<Longrightarrow> plain_path (''/v1/sandboxes/'' @ i @ ''/logs'')"
  "plain_id i \<Longrightarrow> plain_path (''/v1/sandboxes/'' @ i @ ''/exec/stream'')"
  by (simp_all add: plain_path_def plain_id_def)

lemma log_queries:
  assumes "int_range n"
  shows "logs_query (kpd_query.log_request_to cl p (tail_query n)) = Some \<lparr> lo_tail_lines = max 0 n, lo_follow = False \<rparr>"
    and "logs_query (kpd_query.log_request_to cl p (follow_query n)) = Some \<lparr> lo_tail_lines = max 0 n, lo_follow = True \<rparr>"
  using assms
  by (simp_all add: logs_query_def query_def kpd_query.log_request_to_def parse_tail parse_follow Let_def
      to_lower_def lower_char_def)

lemma read_failure_reply:
  "read_error_response \<lparr> hs_status = ap_status (failure_reply e), hs_body = ap_body (failure_reply e), hs_read_err = None \<rparr>
    = sdk_failure e"
  by (simp add: failure_reply_def sdk_failure_def error_reply_read)

text \<open>A log request reaches the handler of its sandbox.\<close>

lemma log_call:
  assumes "trusted cl sv" and "plain_id i"
    and "handle_logs st i (kpd_query.log_request_to cl (''/v1/sandboxes/'' @ i @ ''/logs'') qs) m = (rep, m')"
  shows "kpd_transport cl un sv bi rt st dw (log_request_for cl accept
      (if qs = [] then ''/v1/sandboxes/'' @ i @ ''/logs'' else (''/v1/sandboxes/'' @ i @ ''/logs'') @ CHR ''?'' # qs)) m
    = (Inr \<lparr> hs_status = ap_status rep, hs_body = ap_body rep, hs_read_err = None \<rparr>, m')"
proof -
  have "authorized (sv_token sv) (kpd_query.log_request_to cl (''/v1/sandboxes/'' @ i @ ''/logs'') qs)"
    by (rule authorized_bearer [OF assms(1)]) (simp add: kpd_query.log_request_to_def)
  then have "serve_api sv bi rt st dw (kpd_query.log_request_to cl (''/v1/sandboxes/'' @ i @ ''/logs'') qs) m = (Some rep, m')"
    by (simp add: serve_api_def stream_routes [OF assms(2)] dispatch_def assms(3) del: append_Cons)
  from kpd_query.log_request_served [where serve = "serve_api sv bi rt st dw", OF stream_paths(1) [OF assms(2)] this]
  show ?thesis unfolding kpd_transport_def .
qed

definition log_options :: "int \<Rightarrow> bool \<Rightarrow> logs_options" where
  "log_options n follow = \<lparr> lo_tail_lines = max 0 n, lo_follow = follow \<rparr>"

lemma sdk_logs:
  assumes "trusted cl sv" and "plain_id i" and "int_range n"
  shows "client_logs cl (kpd_transport cl un sv bi rt st dw) i n m =
    (case logs st i (log_options n False) m of
       (Inl e, m') \<Rightarrow> (Inl (sdk_failure e), m')
     | (Inr res, m') \<Rightarrow> (Inr (concat (map e_data (lr_snapshot res))), m'))"
proof -
  obtain r m' where l: "logs st i (log_options n False) m = (r, m')" by fastforce
  obtain rep where rep: "handle_logs st i (kpd_query.log_request_to cl (''/v1/sandboxes/'' @ i @ ''/logs'') (tail_query n)) m
      = (rep, m')"
    using l by (cases r) (simp_all add: handle_logs_def log_queries [OF assms(3)] log_options_def)
  then have "ap_status rep \<ge> 400 \<and> (\<exists>e. r = Inl e \<and> rep = failure_reply e)
      \<or> ap_status rep = 200 \<and> (\<exists>res. r = Inr res \<and> ap_body rep = concat (map e_data (lr_snapshot res)))"
    using l by (cases r) (auto simp: handle_logs_def log_queries [OF assms(3)] log_options_def failure_reply_def)
  then show ?thesis
    using l log_call [OF assms(1,2) rep, where un = un and bi = bi and rt = rt and dw = dw]
    by (auto simp: client_logs_def log_paths read_failure_reply simp del: append_Cons)
qed

text \<open>What the writers of a followed log receive of a snapshot, and those of an exec of its chunks.\<close>

definition received :: "writers \<Rightarrow> entry list \<Rightarrow> (stream \<times> string) list" where
  "received wr es = map (\<lambda>e. (e_stream e, sse_text (e_data e))) (filter (\<lambda>e. w_has wr (e_stream e)) es)"

lemma sdk_logs_stream:
  assumes "trusted cl sv" and "plain_id i" and "int_range n" and "\<forall>out s dt. w_fail wr out s dt = None"
  shows "client_logs_stream cl (kpd_transport cl un sv bi rt st dw) i n wr m =
    (case logs st i (log_options n True) m of
       (Inl e, m') \<Rightarrow> (Some (sdk_failure e), [], m')
     | (Inr res, m') \<Rightarrow> (None, received wr (lr_snapshot res), m'))"
proof -
  obtain r m' where l: "logs st i (log_options n True) m = (r, m')" by fastforce
  obtain rep where rep: "handle_logs st i (kpd_query.log_request_to cl (''/v1/sandboxes/'' @ i @ ''/logs'') (follow_query n)) m
      = (rep, m')"
    using l by (cases r) (simp_all add: handle_logs_def log_queries [OF assms(3)] log_options_def)
  have q: "follow_query n \<noteq> []" by (simp add: follow_query_def)
  have "ap_status rep \<ge> 400 \<and> (\<exists>e. r = Inl e \<and> rep = failure_reply e)
      \<or> ap_status rep = 200 \<and> (\<exists>res. r = Inr res \<and> ap_body rep = log_stream_body (lr_snapshot res))"
    using l rep by (cases r) (auto simp: handle_logs_def log_queries [OF assms(3)] log_options_def failure_reply_def)
  then show ?thesis
  proof (elim disjE conjE exE)
    fix res assume r: "ap_status rep = 200" "r = Inr res" "ap_body rep = log_stream_body (lr_snapshot res)"
    obtain s where "parse_sse wr (log_stream_body (lr_snapshot res)) None = ((None, Some UnexpectedEof), s)"
      "ss_out s = received wr (lr_snapshot res)"
      using stream_errors_roundtrip [OF assms(4)] unfolding received_def by blast
    with r q l log_call [OF assms(1,2) rep, where un = un and bi = bi and rt = rt and dw = dw] show ?thesis
      by (simp add: client_logs_stream_def log_paths del: append_Cons)
  qed (use q l log_call [OF assms(1,2) rep, where un = un and bi = bi and rt = rt and dw = dw] in
      \<open>simp add: client_logs_stream_def log_paths read_failure_reply del: append_Cons\<close>)
qed

lemma exec_stream_call:
  assumes "trusted cl sv" and "plain_id i" and "json_binders pf bi" and "distinct (map fst (se_env opts))"
  shows "kpd_transport cl un sv bi rt st dw
      \<lparr> hq_method = ''POST'', hq_url = cl_addr cl @ ''/v1/sandboxes/'' @ i @ ''/exec/stream'',
         hq_ctype = ''application/json'', hq_accept = ac, hq_auth = bearer cl, hq_body = json_text (exec_body opts) \<rparr> m
    = (if se_cmd opts = [] then
         (Inr \<lparr> hs_status = 400, hs_body = ap_body (error_reply 400 ''cmd is required''), hs_read_err = None \<rparr>, m)
       else case exec rt st i (exec_options_of True (sent_exec opts)) (dw_now dw) m of
         ((chunks, res), m') \<Rightarrow>
           (Inr \<lparr> hs_status = 200,
              hs_body = exec_stream_body chunks (case res of
                 Inl e \<Rightarrow> Inl (if says_not_found e then None else Some (mgr_message e)) | Inr x \<Rightarrow> Inr x),
              hs_read_err = None \<rparr>, m'))"
proof -
  let ?p = "''/v1/sandboxes/'' @ i @ ''/exec/stream''" and ?v = "exec_body opts"
  have bound: "bi_exec bi (kpd.request_to cl ''POST'' ?p (Some ?v)) = Inr (sent_exec opts)"
    by (rule bind_exec [OF assms(3)]) (simp_all add: exec_body_read [OF assms(4)] sent_exec_def)
  have cmd: "er_cmd (sent_exec opts) = se_cmd opts" by (simp add: sent_exec_def)
  obtain rep m' where h: "handle_exec_stream (bi_exec bi) rt st (dw_now dw) i (kpd.request_to cl ''POST'' ?p (Some ?v)) m = (rep, m')"
    by fastforce
  then have "serve_api sv bi rt st dw (kpd.request_to cl ''POST'' ?p (Some ?v)) m = (Some rep, m')"
    by (simp add: serve_api_def authorized_trusted [OF assms(1)] stream_routes [OF assms(2)] dispatch_def del: append_Cons)
  from kpd_query.post_served [where serve = "serve_api sv bi rt st dw", OF stream_paths(2) [OF assms(2)] this]
  have "kpd_transport cl un sv bi rt st dw
      \<lparr> hq_method = ''POST'', hq_url = cl_addr cl @ ?p, hq_ctype = ''application/json'', hq_accept = ac,
         hq_auth = bearer cl, hq_body = json_text ?v \<rparr> m
      = (Inr \<lparr> hs_status = ap_status rep, hs_body = ap_body rep, hs_read_err = None \<rparr>, m')"
    unfolding kpd_transport_def .
  with h show ?thesis
    by (auto simp: handle_exec_stream_def bound cmd simp del: append_Cons split: if_splits prod.splits)
qed

lemma sdk_exec_stream_done:
  assumes "trusted cl sv" and "plain_id i" and "json_binders pf bi" and "distinct (map fst (se_env opts))"
    and "\<forall>out s dt. w_fail wr out s dt = None" and "se_cmd opts \<noteq> []"
    and "exec rt st i (exec_options_of True (sent_exec opts)) (dw_now dw) m = ((chunks, Inr x), m')"
    and "int_range (xr_exit_code x)"
  shows "client_exec_stream cl (kpd_transport cl un sv bi rt st dw) i opts wr m =
    ((Some ((cut_duration x)\<lparr> xr_stdout := [], xr_stderr := [] \<rparr>), None),
     received wr (filter (\<lambda>e. e_data e \<noteq> []) chunks), m')"
proof -
  obtain r s where p: "parse_sse wr (exec_stream_body chunks (Inr x)) None = (r, s)" by fastforce
  from exec_stream_roundtrip [OF assms(5,8) p] p show ?thesis
    unfolding client_exec_stream_def exec_stream_call [OF assms(1-4)]
    by (simp add: assms(6,7) received_def cut_duration_def conj_commute)
qed

text \<open>A failed exec: the chunks that came before the error event are written as well.\<close>

lemma error_event_read:
  assumes "\<forall>out s dt. w_fail wr out s dt = None" and "msg \<noteq> []" and "quote_alike msg"
  shows "\<exists>s. parse_sse wr (concat (map (\<lambda>e. tagged_write (stream_event (e_stream e)) (e_data e)) chunks)
      @ sse_send ''error'' (error_json msg)) read_err = ((None, Some (ServerStream msg)), s)
    \<and> ss_out s = received wr (filter (\<lambda>e. e_data e \<noteq> []) chunks)"
proof -
  let ?ls = "concat (map (\<lambda>e. event_lines (stream_event (e_stream e)) (e_data e)) (filter (\<lambda>e. e_data e \<noteq> []) chunks))"
  have init: "ss_event sse_init = []" "ss_data sse_init = []" "ss_res sse_init = None"
    "ss_err sse_init = None" "ss_out sse_init = []" by (simp_all add: sse_init_def)
  have ev: "''error'' \<in> event_names" by (simp add: event_names_def)
  have body: "concat (map (\<lambda>e. tagged_write (stream_event (e_stream e)) (e_data e)) chunks)
      @ sse_send ''error'' (error_json msg) = unlines (?ls @ event_lines ''error'' (error_json msg))"
    by (simp add: tagged_unlines sse_send_lines)
  have "\<forall>l \<in> set (?ls @ event_lines ''error'' (error_json msg)). newline \<notin> set l"
    using chunk_lines_plain event_lines_plain [OF ev] by auto
  note parse = parse_unlines [OF this, of wr read_err]
  have "sse_text (error_json msg) = error_json msg"
    using sse_text_line [of "error_json msg"] error_json_plain [of msg] by blast
  then show ?thesis
    using assms(2) unfolding body
    by (simp add: parse sse_lines_append sse_chunks [OF assms(1)] init sse_event [OF ev]
        sse_flush_def decode_error_json [OF assms(3)] sse_check_def Let_def received_def del: unlines_simps(3) filter_filter)
qed

definition failure_text :: "mgr_error \<Rightarrow> string" where
  "failure_text e = (if says_not_found e then ''not found'' else mgr_message e)"

lemma exec_stream_body_failed:
  "exec_stream_body chunks (Inl (if says_not_found e then None else Some (mgr_message e)))
    = concat (map (\<lambda>c. tagged_write (stream_event (e_stream c)) (e_data c)) chunks)
      @ sse_send ''error'' (error_json (failure_text e))"
  by (simp add: exec_stream_body_def failure_text_def error_json_def)

lemma sdk_exec_stream_failed:
  assumes "trusted cl sv" and "plain_id i" and "json_binders pf bi" and "distinct (map fst (se_env opts))"
    and "\<forall>out s dt. w_fail wr out s dt = None" and "se_cmd opts \<noteq> []"
    and "exec rt st i (exec_options_of True (sent_exec opts)) (dw_now dw) m = ((chunks, Inl e), m')"
    and "says_not_found e \<or> (mgr_message e \<noteq> [] \<and> quote_alike (mgr_message e))"
  shows "client_exec_stream cl (kpd_transport cl un sv bi rt st dw) i opts wr m
    = ((None, Some (StreamFailed (ServerStream (failure_text e)))), received wr (filter (\<lambda>c. e_data c \<noteq> []) chunks), m')"
proof -
  have "failure_text e \<noteq> []" "quote_alike (failure_text e)"
    using assms(8) by (auto simp: failure_text_def quote_alike_def)
  from error_event_read [OF assms(5) this, of chunks None] show ?thesis
    unfolding client_exec_stream_def exec_stream_call [OF assms(1-4)]
    by (auto simp: assms(6,7) exec_stream_body_failed)
qed

lemma sdk_exec_stream_empty:
  assumes "trusted cl sv" and "plain_id i" and "json_binders pf bi" and "distinct (map fst (se_env opts))"
    and "se_cmd opts = []"
  shows "client_exec_stream cl (kpd_transport cl un sv bi rt st dw) i opts wr m
    = ((None, Some (ApiError 400 ''cmd is required'' (Some KindBadRequest))), [], m)"
proof -
  have "sdk_error 400 ''cmd is required'' = ApiError 400 ''cmd is required'' (Some KindBadRequest)" by code_simp
  then show ?thesis
    unfolding client_exec_stream_def exec_stream_call [OF assms(1-4)]
    by (simp add: assms(5) error_reply_read)
qed

section \<open>Properties\<close>

text \<open>C17. The SDK is a faithful remote for the logs and the streams as well. \<open>Logs\<close> returns the bytes of
  the manager's snapshot for the requested tail (a negative one asks for everything);
  \<open>LogsStream\<close> hands its entries in order to the writers of their streams. A streamed exec hands the non-empty
  chunks of the output to the writers and returns the exit code, with empty outputs and the duration
  cut to milliseconds; an empty command is refused without a call. Each call leaves the manager as the
  method leaves it. Failures differ: those of the logs are the SDK's typed errors, while an exec that
  fails has been answered 200 already, so its error, a missing sandbox included, is the text of the
  stream's error event and matches none of the sentinel errors.\<close>

theorem sdk_streams_agree:
  assumes "trusted cl sv" and "plain_id i" and "json_binders pf bi" and "distinct (map fst (se_env opts))"
    and "\<forall>out s dt. w_fail wr out s dt = None" and "int_range n"
    and "exec rt st i (exec_options_of True (sent_exec opts)) (dw_now dw) m = ((chunks, outcome), m')"
    and "case outcome of Inl e \<Rightarrow> says_not_found e \<or> (mgr_message e \<noteq> [] \<and> quote_alike (mgr_message e))
      | Inr x \<Rightarrow> int_range (xr_exit_code x)"
    and "tr = kpd_transport cl un sv bi rt st dw"
  shows "client_logs cl tr i n m =
      (case logs st i \<lparr> lo_tail_lines = max 0 n, lo_follow = False \<rparr> m of
         (Inl e, ml) \<Rightarrow> (Inl (sdk_failure e), ml)
       | (Inr res, ml) \<Rightarrow> (Inr (concat (map e_data (lr_snapshot res))), ml))
    \<and> client_logs_stream cl tr i n wr m =
      (case logs st i \<lparr> lo_tail_lines = max 0 n, lo_follow = True \<rparr> m of
         (Inl e, ml) \<Rightarrow> (Some (sdk_failure e), [], ml)
       | (Inr res, ml) \<Rightarrow> (None, received wr (lr_snapshot res), ml))
    \<and> client_exec_stream cl tr i opts wr m =
      (if se_cmd opts = [] then ((None, Some (ApiError 400 ''cmd is required'' (Some KindBadRequest))), [], m)
       else ((case outcome of
         Inl e \<Rightarrow> (None, Some (StreamFailed (ServerStream (failure_text e))))
       | Inr x \<Rightarrow> (Some (x\<lparr> xr_stdout := [], xr_stderr := [],
                           xr_duration := word_of_int (milliseconds (xr_duration x)) * millisecond \<rparr>), None)),
         received wr (filter (\<lambda>c. e_data c \<noteq> []) chunks), m'))
    \<and> (\<forall>k. \<not> is_kind k (StreamFailed err))"
proof -
  have "client_exec_stream cl tr i opts wr m =
      ((case outcome of
         Inl e \<Rightarrow> (None, Some (StreamFailed (ServerStream (failure_text e))))
       | Inr x \<Rightarrow> (Some (x\<lparr> xr_stdout := [], xr_stderr := [],
                           xr_duration := word_of_int (milliseconds (xr_duration x)) * millisecond \<rparr>), None)),
         received wr (filter (\<lambda>c. e_data c \<noteq> []) chunks), m')" if cmd: "se_cmd opts \<noteq> []"
  proof (cases outcome)
    case (Inl e)
    with assms(7,8) have "exec rt st i (exec_options_of True (sent_exec opts)) (dw_now dw) m = ((chunks, Inl e), m')"
      "says_not_found e \<or> (mgr_message e \<noteq> [] \<and> quote_alike (mgr_message e))" by simp_all
    from sdk_exec_stream_failed [OF assms(1-5) cmd this, of un] show ?thesis by (simp add: assms(9) Inl)
  next
    case (Inr x)
    with assms(7,8) have "exec rt st i (exec_options_of True (sent_exec opts)) (dw_now dw) m = ((chunks, Inr x), m')"
      "int_range (xr_exit_code x)" by simp_all
    from sdk_exec_stream_done [OF assms(1-5) cmd this, of un] show ?thesis by (simp add: assms(9) Inr cut_duration_def)
  qed
  then show ?thesis
    by (simp add: assms(9) sdk_logs [OF assms(1,2,6)] sdk_logs_stream [OF assms(1,2,6,5)] log_options_def
        sdk_exec_stream_empty [OF assms(1-4)])
qed

text \<open>A missing sandbox through the three calls: two typed errors, and a stream error that is none.\<close>

theorem sdk_streams_agree_witness:
  "let tr = kpd_transport demo_client (\<lambda>_. \<lparr> hs_status = 404, hs_body = [], hs_read_err = None \<rparr>) demo_server
         demo_binders fake_ops sqlite_ops demo_draws;
       wr = \<lparr> w_has = (\<lambda>_. True), w_fail = (\<lambda>_ _ _. None) \<rparr>;
       opts = \<lparr> se_cmd = [''true''], se_env = [], se_work_dir = [], se_stdin = [] \<rparr>
   in fst (client_logs demo_client tr ''nope'' 5 demo_manager) = Inl (ApiError 404 ''not found'' (Some KindNotFound))
    \<and> fst (client_logs_stream demo_client tr ''nope'' 5 wr demo_manager)
        = Some (ApiError 404 ''not found'' (Some KindNotFound))
    \<and> fst (client_exec_stream demo_client tr ''nope'' opts wr demo_manager)
        = (None, Some (StreamFailed (ServerStream ''not found'')))"
proof -
  let ?opts = "\<lparr> se_cmd = [''true''], se_env = [], se_work_dir = [], se_stdin = [] \<rparr>"
  let ?un = "\<lambda>_. \<lparr> hs_status = 404, hs_body = [], hs_read_err = None \<rparr>"
  let ?wr = "\<lparr> w_has = (\<lambda>_. True), w_fail = (\<lambda>_ _ _. None) \<rparr>"
  have get: "get_sandbox sqlite_ops ''nope'' demo_manager = (Inl (StoreFailed ErrNotFound), snd (get_sandbox sqlite_ops ''nope'' demo_manager))"
    by (simp add: get_sandbox_def sqlite_ops_def sqlite_get_def db_next_def sqlite_open_def demo_manager_def)
  have e: "exec fake_ops sqlite_ops ''nope'' (exec_options_of True (sent_exec ?opts)) (dw_now demo_draws) demo_manager
      = (([], Inl (StoreFailed ErrNotFound)), snd (get_sandbox sqlite_ops ''nope'' demo_manager))"
    by (subst exec_def, subst get) simp
  have l: "logs sqlite_ops ''nope'' x demo_manager = (Inl (StoreFailed ErrNotFound), snd (get_sandbox sqlite_ops ''nope'' demo_manager))" for x
    by (subst logs_def, subst get) simp
  have nf: "says_not_found (StoreFailed ErrNotFound)" by (simp add: says_not_found_def)
  have f: "sdk_failure (StoreFailed ErrNotFound) = ApiError 404 ''not found'' (Some KindNotFound)"
    by (simp add: sdk_failure_def nf) code_simp
  have "plain_id ''nope''" by (simp add: plain_id_def)
  from sdk_streams_agree [OF demo_trusted this demo_binders_ok _ _ _ e _ refl, of ?wr 5 ?un] nf l f show ?thesis
    by (simp add: Let_def failure_text_def int_range_def)
qed

end
