(* ===== verification/Config.thy ===== *)
theory Config
  imports Strconv
begin

text \<open>
  The configuration of the daemons, \<open>internal/config\<close>: the variables of the environment (a function;
  unset and empty look alike to \<open>os.Getenv\<close>; a \<open>.env\<close> file is already in it) with their parsers and
  defaults. \<open>time.ParseDuration\<close> is written out, with the \<open>float64\<close> arithmetic it uses for fractions.
\<close>

section \<open>float64 arithmetic on non-negative rationals\<close>

text \<open>Rounding to 53 bits, half to even. The fuel of the scaling is above the exponent range of a
  \<open>float64\<close>.\<close>

fun scale53 :: "nat \<Rightarrow> rat \<Rightarrow> int \<Rightarrow> rat \<times> int" where
  "scale53 0 x e = (x, e)"
| "scale53 (Suc n) x e =
     (if x \<ge> 2 ^ 53 then scale53 n (x / 2) (e + 1)
      else if x < 2 ^ 52 then scale53 n (2 * x) (e - 1)
      else (x, e))"

definition round_even :: "rat \<Rightarrow> int" where
  "round_even x =
     (let f = \<lfloor>x\<rfloor>; r = x - of_int f
      in if r < 1 / 2 then f else if r > 1 / 2 then f + 1 else if even f then f else f + 1)"

definition pow2 :: "int \<Rightarrow> rat" where
  "pow2 e = (if e < 0 then 1 / 2 ^ nat (- e) else 2 ^ nat e)"

definition fl64 :: "rat \<Rightarrow> rat" where
  "fl64 x = (if x = 0 then 0 else case scale53 2100 x 0 of (m, e) \<Rightarrow> of_int (round_even m) * pow2 e)"

section \<open>Durations\<close>

definition unit_map :: "(string \<times> int) list" where
  "unit_map =
     [(''ns'', 1), (''us'', 1000), ([CHR 0xC2, CHR 0xB5, CHR ''s''], 1000), ([CHR 0xCE, CHR 0xBC, CHR ''s''], 1000),
      (''ms'', 1000000), (''s'', 1000000000), (''m'', 60000000000), (''h'', 3600000000000)]"

text \<open>\<open>leadingInt\<close>: the value and the rest; \<open>None\<close> when it overflows.\<close>

fun leading_int :: "int \<Rightarrow> string \<Rightarrow> (int \<times> string) option" where
  "leading_int x [] = Some (x, [])"
| "leading_int x (c # cs) =
     (case digit_val c of
        None \<Rightarrow> Some (x, c # cs)
      | Some d \<Rightarrow>
          (if x > 2 ^ 63 div 10 then None
           else if 10 * x + int d > 2 ^ 63 then None
           else leading_int (10 * x + int d) cs))"

text \<open>\<open>leadingFraction\<close>: digits beyond the capacity of an integer are dropped.\<close>

fun leading_fraction :: "int \<Rightarrow> rat \<Rightarrow> bool \<Rightarrow> string \<Rightarrow> int \<times> rat \<times> string" where
  "leading_fraction x scale overflow [] = (x, scale, [])"
| "leading_fraction x scale overflow (c # cs) =
     (case digit_val c of
        None \<Rightarrow> (x, scale, c # cs)
      | Some d \<Rightarrow>
          (if overflow then leading_fraction x scale True cs
           else if x > (2 ^ 63 - 1) div 10 then leading_fraction x scale True cs
           else if 10 * x + int d > 2 ^ 63 then leading_fraction x scale True cs
           else leading_fraction (10 * x + int d) (fl64 (scale * 10)) False cs))"

definition unit_char :: "char \<Rightarrow> bool" where
  "unit_char c \<longleftrightarrow> c \<noteq> CHR ''.'' \<and> digit_val c = None"

definition fraction_of :: "string \<Rightarrow> int \<times> rat \<times> bool \<times> string" where
  "fraction_of s =
     (case s of
        c # cs \<Rightarrow>
          (if c = CHR ''.'' then
             (case leading_fraction 0 1 False cs of (f, scale, r) \<Rightarrow> (f, scale, r \<noteq> cs, r))
           else (0, 1, False, s))
      | [] \<Rightarrow> (0, 1, False, s))"

text \<open>One round of the loop: a number with its unit, in nanoseconds, and the rest.\<close>

definition duration_term :: "string \<Rightarrow> (int \<times> string) option" where
  "duration_term s =
     (if s = [] \<or> (unit_char (hd s)) then None
      else case leading_int 0 s of
        None \<Rightarrow> None
      | Some (v, r1) \<Rightarrow>
          (let pre = (r1 \<noteq> s) in
           case fraction_of r1 of (f, scale, post, r2) \<Rightarrow>
            (let u = takeWhile unit_char r2; r3 = dropWhile unit_char r2
             in if \<not> pre \<and> \<not> post then None
                else if u = [] then None
                else case map_of unit_map u of
                  None \<Rightarrow> None
                | Some unit \<Rightarrow>
                    (if v > 2 ^ 63 div unit then None
                     else (let v1 = v * unit;
                               v2 = (if f > 0 then v1 + \<lfloor>fl64 (fl64 (of_int f) * fl64 (of_int unit / scale))\<rfloor> else v1)
                           in if f > 0 \<and> v2 > 2 ^ 63 then None else Some (v2, r3))))))"

text \<open>Each round takes at least one character, so the length of the input is enough fuel.\<close>

fun duration_terms :: "nat \<Rightarrow> int \<Rightarrow> string \<Rightarrow> int option" where
  "duration_terms fuel d [] = Some d"
| "duration_terms 0 d s = None"
| "duration_terms (Suc n) d s =
     (case duration_term s of
        None \<Rightarrow> None
      | Some (v, r) \<Rightarrow> if d + v > 2 ^ 63 then None else duration_terms n (d + v) r)"

definition parse_duration :: "string \<Rightarrow> duration option" where
  "parse_duration orig =
     (let neg = (orig \<noteq> [] \<and> hd orig = CHR ''-'');
          s = (if orig \<noteq> [] \<and> (hd orig = CHR ''-'' \<or> hd orig = CHR ''+'') then tl orig else orig)
      in if s = ''0'' then Some 0
         else if s = [] then None
         else case duration_terms (length s) 0 s of
           None \<Rightarrow> None
         | Some d \<Rightarrow>
             (if neg then Some (word_of_int (- d))
              else if d > 2 ^ 63 - 1 then None
              else Some (word_of_int d)))"

section \<open>Reading the environment\<close>

type_synonym env = "string \<Rightarrow> string"

definition conf_env_or :: "env \<Rightarrow> string \<Rightarrow> string \<Rightarrow> string" where
  "conf_env_or getenv key def = (let v = getenv key in if v \<noteq> [] then v else def)"

definition parse_env :: "env \<Rightarrow> string \<Rightarrow> 'a \<Rightarrow> (string \<Rightarrow> 'a option) \<Rightarrow> 'a" where
  "parse_env getenv key def parse =
     (let raw = getenv key
      in if raw = [] then def else case parse raw of None \<Rightarrow> def | Some v \<Rightarrow> v)"

definition env_int :: "env \<Rightarrow> string \<Rightarrow> int \<Rightarrow> int" where
  "env_int getenv key def = parse_env getenv key def atoi"

definition env_duration :: "env \<Rightarrow> string \<Rightarrow> duration \<Rightarrow> duration" where
  "env_duration getenv key def = parse_env getenv key def parse_duration"

definition env_bool :: "env \<Rightarrow> string \<Rightarrow> bool \<Rightarrow> bool" where
  "env_bool getenv key def =
     (let v = to_lower (getenv key)
      in if v \<in> set [''1'', ''true'', ''yes'', ''on''] then True
         else if v \<in> set [''0'', ''false'', ''no'', ''off''] then False
         else def)"

datatype level = LevelDebug | LevelInfo | LevelWarn | LevelError

definition parse_level :: "string \<Rightarrow> level" where
  "parse_level s =
     (if s = ''debug'' then LevelDebug else if s = ''warn'' then LevelWarn
      else if s = ''error'' then LevelError else LevelInfo)"

record config =
  cf_addr :: string
  cf_token :: string
  cf_shutdown_timeout :: duration
  cf_log_level :: string
  cf_db_path :: string
  cf_reaper_interval :: duration
  cf_policy_file :: string
  cf_policy_required :: bool
  cf_buffer_bytes :: int

definition load_config :: "env \<Rightarrow> config" where
  "load_config getenv =
     \<lparr> cf_addr = conf_env_or getenv ''KPD_ADDR'' '':8080'',
       cf_token = conf_env_or getenv ''KPD_TOKEN'' [],
       cf_shutdown_timeout = env_duration getenv ''KPD_SHUTDOWN_TIMEOUT'' (15 * 1000000000),
       cf_log_level = conf_env_or getenv ''KPD_LOG_LEVEL'' ''info'',
       cf_db_path = conf_env_or getenv ''KPD_DB'' ''./kotakpasir.db'',
       cf_reaper_interval = env_duration getenv ''KP_REAPER_INTERVAL'' (30 * 1000000000),
       cf_policy_file = conf_env_or getenv ''KP_POLICY_FILE'' [],
       cf_policy_required = env_bool getenv ''KP_REQUIRE_POLICY'' False,
       cf_buffer_bytes = env_int getenv ''KP_LOG_BUFFER_BYTES'' (256 * 1024) \<rparr>"

section \<open>A number with a unit\<close>

lemma digits_val_mono: "digits_val acc xs = Some v \<Longrightarrow> acc \<le> v"
proof (induction xs arbitrary: acc)
  case (Cons c cs)
  then show ?case by (fastforce split: option.splits)
qed simp

lemma leading_int_digits:
  assumes "digits_val acc xs = Some v" and "case u of [] \<Rightarrow> True | c # _ \<Rightarrow> digit_val c = None"
    and "int acc \<le> 2 ^ 63"
  shows "leading_int (int acc) (xs @ u) = (if int v \<le> 2 ^ 63 then Some (int v, u) else None)"
  using assms(1,3)
proof (induction xs arbitrary: acc)
  case Nil
  then show ?case using assms(2) by (cases u) auto
next
  case (Cons c cs)
  then obtain d where d: "digit_val c = Some d" "digits_val (10 * acc + d) cs = Some v"
    by (auto split: option.splits)
  then have le: "10 * int acc + int d \<le> int v" using digits_val_mono [OF d(2)] by linarith
  show ?case
  proof (cases "10 * int acc + int d \<le> 2 ^ 63")
    case True
    with Cons.IH [OF d(2)] show ?thesis by (simp add: d)
  next
    case False
    with le show ?thesis by (simp add: d)
  qed
qed

lemma units:
  assumes "(u, k) \<in> set unit_map"
  shows "map_of unit_map u = Some k" and "0 < k" and "u \<noteq> []" and "\<forall>c \<in> set u. unit_char c"
    and "hd u \<noteq> CHR ''.''" and "digit_val (hd u) = None"
  using assms by (auto simp: unit_map_def unit_char_def digit_val_def)

lemma takeWhile_dropWhile_all: "\<forall>c \<in> set u. P c \<Longrightarrow> takeWhile P u = u \<and> dropWhile P u = []"
  by (induction u) auto

lemma zdiv_less_iff: "0 < k \<Longrightarrow> M div k < v \<longleftrightarrow> M < v * k" for k M v :: int
proof -
  assume k: "0 < k"
  have M: "M = M div k * k + M mod k" "0 \<le> M mod k" "M mod k < k" using k by simp_all
  show ?thesis
  proof
    assume "M div k < v"
    then have "(M div k + 1) * k \<le> v * k" using k by (intro mult_right_mono) simp_all
    moreover have "(M div k + 1) * k = M div k * k + k" by (simp add: distrib_right)
    ultimately show "M < v * k" using M by linarith
  next
    assume "M < v * k"
    with M have "M div k * k < v * k" by linarith
    then show "M div k < v" using k by simp
  qed
qed

lemma duration_term_number:
  assumes "(u, k) \<in> set unit_map"
  shows "duration_term (digits n @ u) =
    (if int n * k \<le> 2 ^ 63 then Some (int n * k, []) else None)"
proof -
  note u = units [OF assms]
  have big: "int n \<le> int n * k" using u(2) by (simp add: mult_le_cancel_left1)
  have quot: "int n > 2 ^ 63 div k \<longleftrightarrow> \<not> int n * k \<le> 2 ^ 63"
    using zdiv_less_iff [OF u(2)] by auto
  have start: "digits n @ u \<noteq> []" "\<not> unit_char (hd (digits n @ u))"
  proof -
    obtain c cs where c: "digits n = c # cs" by (cases "digits n") auto
    then obtain d where "c = digit d" "d < 10" using digits_chars [of c n] by auto
    with c show "digits n @ u \<noteq> []" "\<not> unit_char (hd (digits n @ u))" by (simp_all add: unit_char_def)
  qed
  have frac: "fraction_of u = (0, 1, False, u)" using u(3,5) by (cases u) (auto simp: fraction_of_def)
  have lead: "leading_int 0 (digits n @ u) = (if int n \<le> 2 ^ 63 then Some (int n, u) else None)"
    using leading_int_digits [OF digits_val_digits, of u n] u(3,6) by (cases u) auto
  have unit: "takeWhile unit_char u = u" "dropWhile unit_char u = []"
    using takeWhile_dropWhile_all [OF u(4)] by simp_all
  have pre: "u \<noteq> digits n @ u" by simp
  show ?thesis
  proof (cases "int n \<le> 2 ^ 63")
    case True
    then show ?thesis
      using start quot by (simp add: duration_term_def Let_def lead frac unit u(1,3) pre)
  next
    case False
    then have "\<not> int n * k \<le> 2 ^ 63" using big by linarith
    with False show ?thesis using start by (simp add: duration_term_def lead)
  qed
qed

lemma parse_duration_number:
  assumes "(u, k) \<in> set unit_map"
  shows "parse_duration (digits n @ u) = (if int n * k < 2 ^ 63 then Some (word_of_int (int n * k)) else None)"
proof -
  obtain c cs where c: "digits n = c # cs" by (cases "digits n") auto
  then obtain d where d: "c = digit d" "d < 10" using digits_chars [of c n] by auto
  have sign: "c \<noteq> CHR ''-''" "c \<noteq> CHR ''+''" using digit_not_special [OF d(2)] d(1) by simp_all
  have "u \<noteq> []" "u \<noteq> ''0''" using units [OF assms] by (auto simp: digit_val_def)
  then have not0: "digits n @ u \<noteq> ''0''" using c by (cases cs) auto
  have "\<exists>m. length (digits n @ u) = Suc m" using c by simp
  then obtain m where m: "length (digits n @ u) = Suc m" by blast
  have terms: "duration_terms (length (digits n @ u)) 0 (digits n @ u) =
      (if int n * k \<le> 2 ^ 63 then Some (int n * k) else None)"
    unfolding m using c by (simp add: duration_term_number [OF assms, of n, unfolded c, simplified])
  show ?thesis using not0 sign terms c by (auto simp: parse_duration_def Let_def)
qed

end
