(* ===== verification/Frames.thy ===== *)
theory Frames
  imports Lifecycle
begin

text \<open>
  What the manager's operations on sandboxes leave alone: the policy, the pools with their queues, the
  retirement list and the start flag. Only a warm claim takes a container out of a queue.
\<close>

definition same_frame :: "('r, 's) manager \<Rightarrow> ('r, 's) manager \<Rightarrow> bool" where
  "same_frame m m' \<longleftrightarrow> m_policy m' = m_policy m \<and> m_pools m' = m_pools m \<and> m_heap m' = m_heap m
     \<and> m_retiring m' = m_retiring m \<and> m_started m' = m_started m"

lemma frame_refl [simp]: "same_frame m m"
  by (simp add: same_frame_def)

lemma frame_updates [simp]:
  "same_frame m (m'\<lparr> m_rt := r \<rparr>) = same_frame m m'" "same_frame m (m'\<lparr> m_store := s \<rparr>) = same_frame m m'"
  "same_frame m (m'\<lparr> m_metrics := k \<rparr>) = same_frame m m'" "same_frame m (m'\<lparr> m_logs := l \<rparr>) = same_frame m m'"
  "same_frame m (refresh_active st m') = same_frame m m'" "same_frame m (drop_log_buffer i m') = same_frame m m'"
  "same_frame m (set_log_buffer i b m') = same_frame m m'" "same_frame m (record_created img prof oc m') = same_frame m m'"
  by (auto simp: same_frame_def refresh_active_def drop_log_buffer_def set_log_buffer_def record_created_def
      split: option.split prod.split sum.split)

lemma frame_parts:
  "log_buffer_for i m = (b, m') \<Longrightarrow> same_frame m m'"
  "get_sandbox st i m = (g, m') \<Longrightarrow> same_frame m m'"
  by (auto simp: log_buffer_for_def get_sandbox_def Let_def split: if_splits option.splits sum.splits prod.splits)

lemma frame_trans: "same_frame m m1 \<Longrightarrow> same_frame m1 m2 \<Longrightarrow> same_frame m m2"
  by (simp add: same_frame_def)

lemma frame_get: "same_frame m (snd (get_sandbox st i m))"
  by (cases "get_sandbox st i m") (simp add: frame_parts)

lemma frame_list: "same_frame m (snd (list_sandboxes st m))"
  by (auto simp: list_sandboxes_def split: prod.split sum.split)

lemma frame_expired: "same_frame m (snd (expired_before st t m))"
  by (auto simp: expired_before_def split: prod.split sum.split)

lemma frame_proxy_addr: "same_frame m (snd (proxy_addr rt st i m))"
  by (auto simp: proxy_addr_def frame_parts split: prod.split option.split sum.split)

lemma frame_exec: "same_frame m (snd (exec rt st i opts now m))"
proof -
  obtain res m1 where g: "get_sandbox st i m = (res, m1)" by fastforce
  note m1 = frame_parts(2) [OF g]
  show ?thesis
  proof (cases res)
    case (Inr sb)
    obtain b m2 where b: "log_buffer_for i m1 = (b, m2)" by fastforce
    have m2: "same_frame m m2" using frame_trans [OF m1 frame_parts(1) [OF b]] .
    obtain chunks xres r' where x: "rt_exec rt (sb_runtime_id sb) (exec_spec_of opts) (m_rt m2) = (chunks, xres, r')"
      by (cases "rt_exec rt (sb_runtime_id sb) (exec_spec_of opts) (m_rt m2)")
    show ?thesis using g Inr b x m1 m2 by (cases b; cases xres) (simp_all add: exec_def Let_def)
  qed (use g m1 in \<open>simp add: exec_def\<close>)
qed

lemma frame_logs: "same_frame m (snd (logs st i opts m))"
proof -
  obtain res m1 where g: "get_sandbox st i m = (res, m1)" by fastforce
  note m1 = frame_parts(2) [OF g]
  obtain b m2 where b: "log_buffer_for i m1 = (b, m2)" by fastforce
  have m2: "same_frame m m2" using frame_trans [OF m1 frame_parts(1) [OF b]] .
  show ?thesis
  proof (cases res)
    case (Inr sb)
    show ?thesis using g Inr b m1 m2 by (cases b) (simp_all add: logs_def split_beta Let_def)
  qed (use g m1 in \<open>simp add: logs_def\<close>)
qed

lemma frame_stop: "same_frame m (snd (stop rt st i m))"
proof -
  obtain res m1 where g: "get_sandbox st i m = (res, m1)" by fastforce
  note m1 = frame_parts(2) [OF g]
  show ?thesis
  proof (cases res)
    case (Inr sb)
    obtain sres r' where s: "rt_stop rt (sb_runtime_id sb) (m_rt m1) = (sres, r')" by fastforce
    obtain pres s' where p: "st_put st (sb\<lparr> sb_state := state_stopped \<rparr>) (m_store m1) = (pres, s')" by fastforce
    show ?thesis using g Inr s p m1 by (cases sres; cases pres) (simp_all add: stop_def)
  qed (use g m1 in \<open>simp add: stop_def\<close>)
qed

lemma frame_delete: "same_frame m (snd (delete rt st i m))"
proof -
  obtain res m1 where g: "get_sandbox st i m = (res, m1)" by fastforce
  note m1 = frame_parts(2) [OF g]
  show ?thesis
  proof (cases res)
    case (Inr sb)
    obtain dres s' where d: "st_delete st i (m_store m1) = (dres, s')" by fastforce
    show ?thesis using g Inr d m1 by (cases dres) (simp_all add: delete_def Let_def)
  qed (use g m1 in \<open>simp add: delete_def\<close>)
qed

lemma frame_finish: "same_frame m (snd (finish_create st opts meter sb m))"
  by (auto simp: finish_create_def split: prod.split option.split)

text \<open>\<open>Create\<close> keeps the frame when there is nothing warm to claim.\<close>

lemma frame_create:
  assumes "\<And>res. try_claim res m = (None, m)"
  shows "same_frame m (snd (create rt st u now opts m))"
proof (cases "resolve (m_policy m) (request_of opts)")
  case (Inr res)
  obtain cres r' where c: "rt_create rt (runtime_spec res u) (m_rt m) = (cres, r')" by fastforce
  have "same_frame m (snd (finish_create st opts meter sb (m\<lparr> m_rt := r' \<rparr>)))" for meter sb
    using frame_trans [OF _ frame_finish, of m "m\<lparr> m_rt := r' \<rparr>"] by simp
  then show ?thesis using Inr c by (cases cres) (simp_all add: create_def Let_def assms)
qed (simp add: create_def)

text \<open>In any case it keeps the policy, the map of the pools, the retirement list and the start flag.\<close>

definition same_policy :: "('r, 's) manager \<Rightarrow> ('r, 's) manager \<Rightarrow> bool" where
  "same_policy m m' \<longleftrightarrow> m_policy m' = m_policy m \<and> m_pools m' = m_pools m
     \<and> m_retiring m' = m_retiring m \<and> m_started m' = m_started m"

lemma frame_policy: "same_frame m m' \<Longrightarrow> same_policy m m'"
  by (simp add: same_frame_def same_policy_def)

lemma policy_create: "same_policy m (snd (create rt st u now opts m))"
proof (cases "resolve (m_policy m) (request_of opts)")
  case (Inr res)
  obtain got m1 where tc: "try_claim res m = (got, m1)" by fastforce
  have m1: "same_policy m m1"
    using tc by (auto simp: try_claim_def same_policy_def split: option.splits if_splits prod.splits)
  have fin: "same_policy m (snd (finish_create st opts meter sb m2))" if "same_policy m m2" for meter sb m2
    using frame_finish [of m2 st opts meter sb] that by (simp add: same_policy_def same_frame_def)
  show ?thesis
  proof (cases got)
    case (Some c)
    then show ?thesis using Inr tc fin [OF m1] by (simp add: create_def Let_def)
  next
    case None
    obtain cres r' where c: "rt_create rt (runtime_spec res u) (m_rt m1) = (cres, r')" by fastforce
    have "same_policy m (m1\<lparr> m_rt := r' \<rparr>)" using m1 by (simp add: same_policy_def)
    then show ?thesis using Inr tc None c fin m1
      by (cases cres) (simp_all add: create_def Let_def record_created_def same_policy_def)
  qed
qed (simp add: create_def record_created_def same_policy_def)

end
