(* ===== verification/Kpd.thy ===== *)
theory Kpd
  imports Config Api Reaper Reload Frames
begin

text \<open>
  The daemon \<open>cmd/kpd\<close>: its start-up (\<open>serve\<close>, up to the listening server), the reload of the policy
  on SIGHUP, and the whole daemon as a machine whose events are API requests, signals, the ticks of
  the reaper and the background steps of the manager. The docker client, the database file and the
  reads of the policy file are arguments; the configuration is the one after the command line. Events
  are atomic; logging is left out. The flags and the end of the daemon are in \<open>Daemon\<close>.
\<close>

section \<open>Start-up\<close>

datatype kpd_error =
    RequireNoFile
  | RequireUnreadable string
  | LoadFailed load_error
  | NewRuntimeFailed string
  | OpenStoreFailed string
  | ManagerFailed mgr_error

text \<open>The check of \<open>--require-policy\<close>; \<open>stat\<close> gives the error of \<open>os.Stat\<close>, if any.\<close>

definition check_required :: "(string \<Rightarrow> string option) \<Rightarrow> config \<Rightarrow> kpd_error option" where
  "check_required stat cfg =
     (if cf_policy_required cfg then
        (if cf_policy_file cfg = [] then Some RequireNoFile
         else case stat (cf_policy_file cfg) of None \<Rightarrow> None | Some e \<Rightarrow> Some (RequireUnreadable e))
      else None)"

text \<open>The error that ends \<open>serve\<close> before it listens, if any, and the manager, if one was built.\<close>

definition kpd_setup ::
    "'r runtime_ops \<Rightarrow> (string \<Rightarrow> string option) \<Rightarrow> (string \<Rightarrow> load_error + policy) \<Rightarrow> string + 'r
      \<Rightarrow> (string \<Rightarrow> string + 's) \<Rightarrow> config \<Rightarrow> kpd_error option \<times> ('r, 's) manager option" where
  "kpd_setup rt stat load new_rt open_store cfg =
     (case check_required stat cfg of
        Some e \<Rightarrow> (Some e, None)
      | None \<Rightarrow>
          (case load (cf_policy_file cfg) of
             Inl e \<Rightarrow> (Some (LoadFailed e), None)
           | Inr pol \<Rightarrow>
               (case new_rt of
                  Inl e \<Rightarrow> (Some (NewRuntimeFailed e), None)
                | Inr r \<Rightarrow>
                    (case open_store (cf_db_path cfg) of
                       Inl e \<Rightarrow> (Some (OpenStoreFailed e), None)
                     | Inr s \<Rightarrow>
                         (case new_manager (Some r) (Some s) (Some pol) (cf_buffer_bytes cfg) (Some new_metrics) of
                            Inl e \<Rightarrow> (Some (ManagerFailed e), None)
                          | Inr m \<Rightarrow>
                              (case start rt m of
                                 (Some e, m') \<Rightarrow> (Some (ManagerFailed e), Some m')
                               | (None, m') \<Rightarrow> (None, Some m')))))))"

section \<open>Reload\<close>

text \<open>One turn of \<open>reloadOnHUP\<close>, with the files as they are then.\<close>

definition reload_policy ::
    "'r runtime_ops \<Rightarrow> (string \<Rightarrow> load_error + policy) \<Rightarrow> string \<Rightarrow> ('r, 's) manager \<Rightarrow> ('r, 's) manager" where
  "reload_policy rt load path m =
     (if path = [] then m
      else case load path of
        Inl e \<Rightarrow> m
      | Inr pol \<Rightarrow> snd (replace_policy rt (Some pol) m))"

section \<open>The daemon\<close>

record ('r, 's) daemon =
  dm_rt :: "'r runtime_ops"
  dm_st :: "'s store_ops"
  dm_bi :: binders
  dm_unmarshal :: "string \<Rightarrow> string + policy"
  dm_page :: "recorder \<Rightarrow> string \<times> string"
  dm_cfg :: config

datatype kpd_event =
    ApiCall api_request draws
  | Hup "string \<Rightarrow> file_read"
  | ReaperTick gotime
  | RetireStep
  | RefillStep nat

definition kpd_server :: "('r, 's) daemon \<Rightarrow> api_server" where
  "kpd_server d = \<lparr> sv_token = cf_token (dm_cfg d), sv_metrics = Some (dm_page d) \<rparr>"

fun kpd_step :: "('r, 's) daemon \<Rightarrow> kpd_event \<Rightarrow> ('r, 's) manager \<Rightarrow> ('r, 's) manager" where
  "kpd_step d (ApiCall q dw) m = snd (serve_api (kpd_server d) (dm_bi d) (dm_rt d) (dm_st d) dw q m)"
| "kpd_step d (Hup fs) m =
     reload_policy (dm_rt d) (load_policy fs (dm_unmarshal d)) (cf_policy_file (dm_cfg d)) m"
| "kpd_step d (ReaperTick t) m = reaper_run (dm_rt d) (dm_st d) (cf_reaper_interval (dm_cfg d)) [t] m"
| "kpd_step d RetireStep m = retire (dm_rt d) m"
| "kpd_step d (RefillStep i) m = refill_pool (dm_rt d) i m"

definition kpd_run :: "('r, 's) daemon \<Rightarrow> kpd_event list \<Rightarrow> ('r, 's) manager \<Rightarrow> ('r, 's) manager" where
  "kpd_run d evs m = fold (kpd_step d) evs m"

text \<open>The deferred end of \<open>serve\<close>.\<close>

definition kpd_stop :: "('r, 's) daemon \<Rightarrow> ('r, 's) manager \<Rightarrow> ('r, 's) manager" where
  "kpd_stop d m = snd (shutdown (dm_rt d) m)"

section \<open>Requests are operations of the manager\<close>

definition binders_ok :: "binders \<Rightarrow> bool" where
  "binders_ok bi \<longleftrightarrow> (\<forall>q r. bi_create bi q = Inr r \<longrightarrow> distinct (map fst (cr_env r)))"

definition policy_op :: "mgr_op \<Rightarrow> bool" where
  "policy_op op \<longleftrightarrow> (\<exists>pol. op = OpReplacePolicy pol)"

definition quiet_step ::
    "'r runtime_ops \<Rightarrow> 's store_ops \<Rightarrow> ('r, 's) manager \<Rightarrow> ('r, 's) manager \<Rightarrow> bool" where
  "quiet_step rt st m m' \<longleftrightarrow> m' = m \<or> (\<exists>op. op_ok op \<and> \<not> policy_op op \<and> m' = mgr_step rt st op m)"

lemma quiet_refl [simp]: "quiet_step rt st m m"
  by (simp add: quiet_step_def)

lemma quiet_op: "op_ok op \<Longrightarrow> \<not> policy_op op \<Longrightarrow> mgr_step rt st op m = m' \<Longrightarrow> quiet_step rt st m m'"
  by (auto simp: quiet_step_def)

lemma dispatch_quiet:
  assumes "binders_ok bi"
  shows "quiet_step rt st m (snd (dispatch sv bi rt st dw r q m))"
proof (cases r)
  case RouteCreate
  show ?thesis
  proof (cases "bi_create bi q")
    case (Inr req)
    have "distinct (map fst (cr_env req))" using assms Inr by (auto simp: binders_ok_def)
    then have ok: "op_ok (OpCreate (dw_uuid dw) (dw_now dw) (options_of_request req))"
      by (simp add: options_of_request_def)
    show ?thesis
    proof (cases "cr_image req = [] \<and> cr_profile req = []")
      case False
      then show ?thesis using Inr RouteCreate
        by (intro quiet_op [OF ok])
          (auto simp: policy_op_def dispatch_def handle_create_def split: prod.split option.split)
    qed (use Inr RouteCreate in \<open>simp add: dispatch_def handle_create_def\<close>)
  qed (use RouteCreate in \<open>simp add: dispatch_def handle_create_def\<close>)
next
  case RouteList
  then show ?thesis
    by (intro quiet_op [of OpList])
      (auto simp: policy_op_def dispatch_def handle_list_def split: prod.split sum.split)
next
  case (RouteGet i)
  then show ?thesis
    by (intro quiet_op [of "OpGet i"])
      (auto simp: policy_op_def dispatch_def handle_get_def split: prod.split sum.split)
next
  case (RouteProxy i)
  then show ?thesis
    by (intro quiet_op [of "OpProxyAddr i"])
      (auto simp: policy_op_def dispatch_def handle_proxy_def split: prod.split sum.split)
next
  case (RouteLogs i)
  show ?thesis
  proof (cases "logs_query q")
    case (Some opts)
    with RouteLogs show ?thesis
      by (intro quiet_op [of "OpLogs i opts"])
        (auto simp: policy_op_def dispatch_def handle_logs_def split: prod.split sum.split)
  qed (use RouteLogs in \<open>simp add: dispatch_def handle_logs_def\<close>)
next
  case (RouteDelete i)
  then show ?thesis
    by (intro quiet_op [of "OpDelete i"])
      (auto simp: policy_op_def dispatch_def handle_delete_def split: prod.split option.split)
next
  case (RouteStop i)
  then show ?thesis
    by (intro quiet_op [of "OpStop i"])
      (auto simp: policy_op_def dispatch_def handle_stop_def split: prod.split option.split)
next
  case (RouteExec i)
  show ?thesis
  proof (cases "bi_exec bi q")
    case (Inr req)
    show ?thesis
    proof (cases "er_cmd req = []")
      case False
      with Inr RouteExec show ?thesis
        by (intro quiet_op [of "OpExec i (exec_options_of False req) (dw_now dw)"])
          (auto simp: policy_op_def dispatch_def handle_exec_def split: prod.split sum.split)
    qed (use Inr RouteExec in \<open>simp add: dispatch_def handle_exec_def\<close>)
  qed (use RouteExec in \<open>simp add: dispatch_def handle_exec_def\<close>)
next
  case (RouteExecStream i)
  show ?thesis
  proof (cases "bi_exec bi q")
    case (Inr req)
    show ?thesis
    proof (cases "er_cmd req = []")
      case False
      with Inr RouteExecStream show ?thesis
        by (intro quiet_op [of "OpExec i (exec_options_of True req) (dw_now dw)"])
          (auto simp: policy_op_def dispatch_def handle_exec_stream_def split: prod.split sum.split)
    qed (use Inr RouteExecStream in \<open>simp add: dispatch_def handle_exec_stream_def\<close>)
  qed (use RouteExecStream in \<open>simp add: dispatch_def handle_exec_stream_def\<close>)
qed (simp_all add: dispatch_def split: option.split)

lemma serve_api_quiet:
  assumes "binders_ok bi"
  shows "quiet_step rt st m (snd (serve_api sv bi rt st dw q m))"
proof (cases "authorized (sv_token sv) q")
  case True
  show ?thesis
  proof (cases "route (sv_metrics sv \<noteq> None) q")
    case (Some r)
    with True dispatch_quiet [OF assms, of rt st m sv dw r q] show ?thesis
      by (cases "dispatch sv bi rt st dw r q m") (simp add: serve_api_def)
  qed (use True in \<open>simp add: serve_api_def\<close>)
qed (simp add: serve_api_def)

section \<open>Only a reload changes the policy\<close>

lemma policy_start_pools: "start_pools rt ps m = (e, m') \<Longrightarrow> m_policy m' = m_policy m"
  by (induction rt ps m arbitrary: e m' rule: start_pools.induct) (auto split: prod.splits option.splits)

lemma policy_shutdown_pools: "shutdown_pools rt is m = (e, m') \<Longrightarrow> m_policy m' = m_policy m"
  by (induction rt "is" m arbitrary: e m' rule: shutdown_pools.induct) (auto simp: Let_def split: prod.splits)

lemma frame_op:
  "same_frame m (mgr_step rt st (OpGet i) m)" "same_frame m (mgr_step rt st (OpProxyAddr i) m)"
  "same_frame m (mgr_step rt st OpList m)" "same_frame m (mgr_step rt st (OpExec i xo t) m)"
  "same_frame m (mgr_step rt st (OpLogs i lo) m)" "same_frame m (mgr_step rt st (OpStop i) m)"
  "same_frame m (mgr_step rt st (OpDelete i) m)"
  by (simp_all add: frame_get frame_proxy_addr frame_list frame_exec frame_logs frame_stop frame_delete)

lemma policy_op_kept: "\<not> policy_op op \<Longrightarrow> m_policy (mgr_step rt st op m) = m_policy m"
proof (cases op)
  case OpStart
  then show ?thesis
    by (auto simp: start_def Let_def dest: policy_start_pools split: prod.split option.split)
next
  case OpShutdown
  then show ?thesis by (auto simp: shutdown_def Let_def dest: policy_shutdown_pools split: prod.split)
next
  case OpRetire
  show ?thesis
  proof (cases "m_retiring m")
    case (Cons i rest)
    then show ?thesis using OpRetire policy_shutdown_pools [of rt "[i]" "m\<lparr> m_retiring := rest \<rparr>"]
      by (cases "shutdown_pools rt [i] (m\<lparr> m_retiring := rest \<rparr>)") (auto simp: retire_def)
  qed (simp add: OpRetire retire_def)
next
  case (OpRefill i)
  then show ?thesis by (auto simp: refill_pool_def split: prod.split)
next
  case (OpCreate u t opts)
  then show ?thesis using policy_create [of m rt st u t opts] by (simp add: same_policy_def)
qed (auto simp: policy_op_def frame_op [unfolded same_frame_def] simp del: mgr_step.simps)

lemma policy_sweep_all: "sweep_all rt st sbs m = (n, m') \<Longrightarrow> m_policy m' = m_policy m"
proof (induction sbs arbitrary: m n m')
  case (Cons sb sbs)
  obtain err m1 where de: "delete rt st (sb_id sb) m = (err, m1)" by fastforce
  have "m_policy m1 = m_policy m" using policy_op_kept [of "OpDelete (sb_id sb)" rt st m] de by (simp add: policy_op_def)
  with Cons de show ?case by (auto split: if_splits prod.splits)
qed simp

lemma policy_sweep [simp]: "m_policy (sweep rt st t m) = m_policy m"
  by (auto simp: sweep_def expired_before_def dest!: policy_sweep_all split: prod.split sum.split)

lemma policy_quiet: "quiet_step rt st m m' \<Longrightarrow> m_policy m' = m_policy m"
  by (auto simp: quiet_step_def policy_op_kept)

lemma replace_policy_kept:
  assumes "replace_policy rt (Some pol) m = (err, m')"
  shows "m_policy m' = (if err = None then pol else m_policy m)
    \<and> m_store m' = m_store m \<and> m_logs m' = m_logs m"
proof (cases "validate pol")
  case None
  obtain merged ts heap' where mp: "merge_pools (m_pools m) (build_pools pol) (m_heap m) = (merged, ts, heap')"
    by (cases "merge_pools (m_pools m) (build_pools pol) (m_heap m)")
  obtain e m2 where w: "(if m_started m then warm_pools rt [] ts (m\<lparr> m_heap := heap' \<rparr>)
      else (None, m\<lparr> m_heap := heap' \<rparr>)) = (e, m2)" by fastforce
  have kept: "m_policy m2 = m_policy m" "m_store m2 = m_store m" "m_logs m2 = m_logs m"
    using w warm_only_pools [of rt "[]" ts "m\<lparr> m_heap := heap' \<rparr>" e m2]
    by (auto simp: only_pools_def split: if_splits)
  show ?thesis
  proof (cases e)
    case (Some x)
    obtain img err' where "x = (img, err')" by fastforce
    with assms None mp w Some kept show ?thesis by (auto simp: replace_policy_def)
  qed (use assms None mp w kept in \<open>auto simp: replace_policy_def\<close>)
qed (use assms in \<open>auto simp: replace_policy_def\<close>)

lemma reload_policy_kept:
  "m_policy (reload_policy rt load path m) = m_policy m
   \<or> (path \<noteq> [] \<and> load path = Inr (m_policy (reload_policy rt load path m)))"
proof (cases "load path")
  case (Inr pol)
  obtain err m' where rp: "replace_policy rt (Some pol) m = (err, m')" by fastforce
  with replace_policy_kept [OF rp] Inr show ?thesis by (simp add: reload_policy_def)
qed (simp add: reload_policy_def)

lemma kpd_step_policy:
  assumes "binders_ok (dm_bi d)"
  shows "m_policy (kpd_step d e m) = m_policy m
    \<or> (cf_policy_file (dm_cfg d) \<noteq> [] \<and> (\<exists>fs. e = Hup fs \<and>
        load_policy fs (dm_unmarshal d) (cf_policy_file (dm_cfg d)) = Inr (m_policy (kpd_step d e m))))"
proof (cases e)
  case (ApiCall q dw)
  then show ?thesis using policy_quiet [OF serve_api_quiet [OF assms]] by simp
next
  case (Hup fs)
  then show ?thesis using reload_policy_kept by auto
next
  case RetireStep
  then show ?thesis using policy_op_kept [of OpRetire] by (simp add: policy_op_def)
next
  case (RefillStep i)
  then show ?thesis using policy_op_kept [of "OpRefill i"] by (simp add: policy_op_def)
qed (simp add: reaper_run_def)

lemma kpd_run_policy:
  assumes "binders_ok (dm_bi d)"
  shows "m_policy (kpd_run d evs m) = m_policy m
    \<or> (cf_policy_file (dm_cfg d) \<noteq> [] \<and> (\<exists>fs. Hup fs \<in> set evs \<and>
        load_policy fs (dm_unmarshal d) (cf_policy_file (dm_cfg d)) = Inr (m_policy (kpd_run d evs m))))"
proof (induction evs rule: rev_induct)
  case (snoc e evs)
  have "kpd_run d (evs @ [e]) m = kpd_step d e (kpd_run d evs m)" by (simp add: kpd_run_def)
  with snoc kpd_step_policy [OF assms, of e "kpd_run d evs m"] show ?case by auto
qed (simp add: kpd_run_def)

text \<open>What a started daemon begins with.\<close>

lemma kpd_setup_manager:
  assumes "kpd_setup rt stat load new_rt open_store cfg = (None, Some m)"
  obtains r s pol m1 where "check_required stat cfg = None" "load (cf_policy_file cfg) = Inr pol" "new_rt = Inr r"
    "open_store (cf_db_path cfg) = Inr s"
    "new_manager (Some r) (Some s) (Some pol) (cf_buffer_bytes cfg) (Some new_metrics) = Inr m1"
    "m = mgr_step rt st OpStart m1" "m_policy m = pol"
proof -
  obtain r s pol m1 where *: "check_required stat cfg = None" "load (cf_policy_file cfg) = Inr pol" "new_rt = Inr r"
    "open_store (cf_db_path cfg) = Inr s"
    "new_manager (Some r) (Some s) (Some pol) (cf_buffer_bytes cfg) (Some new_metrics) = Inr m1"
    "start rt m1 = (None, m)"
    using assms by (auto simp: kpd_setup_def split: option.splits sum.splits prod.splits)
  have "m_policy m1 = pol" using *(5) by (auto simp: new_manager_def Let_def)
  moreover have "m_policy m = m_policy m1"
    using policy_op_kept [of OpStart rt st m1] *(6) by (simp add: policy_op_def)
  moreover have "m = mgr_step rt st OpStart m1" using *(6) by simp
  ultimately show ?thesis using *(1-5) that by simp
qed

context manager_env
begin

lemma kpd_step_inv: "binders_ok (dm_bi d) \<Longrightarrow> dm_rt d = rt \<Longrightarrow> dm_st d = st \<Longrightarrow> mgr_inv m \<Longrightarrow> mgr_inv (kpd_step d e m)"
proof (cases e)
  case (ApiCall q dw)
  assume "binders_ok (dm_bi d)" "dm_rt d = rt" "dm_st d = st" and inv: "mgr_inv m"
  then have "quiet_step rt st m (kpd_step d e m)"
    using serve_api_quiet [of "dm_bi d" rt st m "kpd_server d" dw q] ApiCall by simp
  then show ?thesis using inv by (auto simp: quiet_step_def intro: mgr_step_inv)
next
  case (Hup fs)
  assume "dm_rt d = rt" "mgr_inv m"
  then show ?thesis using Hup inv_replace_policy [of m] by (auto simp: reload_policy_def split: sum.split)
next
  case (ReaperTick t)
  assume "dm_rt d = rt" "dm_st d = st" "mgr_inv m"
  then show ?thesis using ReaperTick sweep_facts [of m] by (simp add: reaper_run_def)
qed (simp_all add: inv_retire inv_refill_pool)

lemma kpd_run_inv:
  "binders_ok (dm_bi d) \<Longrightarrow> dm_rt d = rt \<Longrightarrow> dm_st d = st \<Longrightarrow> mgr_inv m \<Longrightarrow> mgr_inv (kpd_run d evs m)"
  unfolding kpd_run_def by (induction evs arbitrary: m) (simp_all add: kpd_step_inv)

end

section \<open>Properties\<close>

text \<open>C13. The policy in force in a running daemon. A daemon that starts with \<open>--require-policy\<close> has a
  policy file that can be read. In any run, whatever requests, signals, sweeps and background steps
  it takes, the policy in force is well formed and is the one loaded at start-up or one that a SIGHUP
  loaded from the configured file; without a file it never changes.\<close>

theorem kpd_policy_in_force:
  assumes "kpd_setup (dm_rt d) stat (load_policy fs0 (dm_unmarshal d)) new_rt open_store (dm_cfg d) = (None, Some m0)"
    and "binders_ok (dm_bi d)" and "path = cf_policy_file (dm_cfg d)" and "m = kpd_run d evs m0"
  shows "(cf_policy_required (dm_cfg d) \<longrightarrow> path \<noteq> [] \<and> stat path = None)
    \<and> load_policy fs0 (dm_unmarshal d) path = Inr (m_policy m0)
    \<and> valid_policy (m_policy m)
    \<and> (m_policy m = m_policy m0
       \<or> path \<noteq> [] \<and> (\<exists>fs. Hup fs \<in> set evs \<and> load_policy fs (dm_unmarshal d) path = Inr (m_policy m)))"
proof -
  obtain pol where start: "check_required stat (dm_cfg d) = None" "load_policy fs0 (dm_unmarshal d) path = Inr pol"
    "m_policy m0 = pol"
    using kpd_setup_manager [OF assms(1)] unfolding assms(3) by metis
  then have "valid_policy (m_policy m0)" using load_policy_valid by blast
  then show ?thesis
    using start kpd_run_policy [OF assms(2), of evs m0] load_policy_valid
    unfolding assms(3,4) check_required_def by (auto split: if_splits option.splits)
qed

definition demo_config :: config where
  "demo_config = \<lparr> cf_addr = '':8080'', cf_token = ''s3cret'', cf_shutdown_timeout = 15000000000,
     cf_log_level = ''info'', cf_db_path = ''./kotakpasir.db'', cf_reaper_interval = 30000000000,
     cf_policy_file = ''kotakpasir.yaml'', cf_policy_required = True, cf_buffer_bytes = 4096 \<rparr>"

definition demo_daemon :: "(fake_runtime, sqlite) daemon" where
  "demo_daemon = \<lparr> dm_rt = fake_ops, dm_st = sqlite_ops,
     dm_bi = \<lparr> bi_create = (\<lambda>_. Inl ''no body''), bi_exec = (\<lambda>_. Inl ''no body'') \<rparr>,
     dm_unmarshal = (\<lambda>s. if s = ''v1'' then Inr default_policy else Inl ''bad yaml''),
     dm_page = (\<lambda>_. ([], [])), dm_cfg = demo_config \<rparr>"

definition demo_files :: "string \<Rightarrow> file_read" where
  "demo_files path = (if path = ''kotakpasir.yaml'' then FileData ''v1'' else FileMissing)"

lemma default_no_pools [simp]: "build_pools default_policy = []"
  by (simp add: build_pools_def default_policy_def)

lemma demo_kpd_setup:
  "\<exists>m0. kpd_setup (dm_rt demo_daemon) (\<lambda>_. None) (load_policy demo_files (dm_unmarshal demo_daemon)) (Inr fake_empty)
      (\<lambda>_. Inr sqlite_open) (dm_cfg demo_daemon) = (None, Some m0) \<and> m_policy m0 = default_policy"
proof -
  have "validate default_policy = None" by (simp add: validate_None_iff default_policy_valid)
  then have load: "load_policy demo_files (dm_unmarshal demo_daemon) ''kotakpasir.yaml'' = Inr default_policy"
    by (simp add: load_policy_def demo_files_def demo_daemon_def)
  have d: "dm_cfg demo_daemon = demo_config" "dm_rt demo_daemon = fake_ops" by (simp_all add: demo_daemon_def)
  have c: "cf_policy_file demo_config = ''kotakpasir.yaml''" "check_required (\<lambda>_. None) demo_config = None"
    by (simp_all add: demo_config_def check_required_def)
  have p: "po_images default_policy = []" by (simp add: default_policy_def)
  show ?thesis
    unfolding kpd_setup_def d c load
    by (simp add: new_manager_def start_def place_def p fake_ops_def clean_orphans_def Let_def)
qed

lemma demo_daemon_binders: "binders_ok (dm_bi demo_daemon)"
  by (simp add: binders_ok_def demo_daemon_def)

theorem kpd_policy_in_force_witness:
  "\<exists>m0. kpd_setup (dm_rt demo_daemon) (\<lambda>_. None) (load_policy demo_files (dm_unmarshal demo_daemon)) (Inr fake_empty)
      (\<lambda>_. Inr sqlite_open) (dm_cfg demo_daemon) = (None, Some m0)
    \<and> valid_policy (m_policy (kpd_run demo_daemon [Hup (\<lambda>_. FileData ''{''), ReaperTick 0, RetireStep] m0))"
  using demo_kpd_setup kpd_policy_in_force [OF _ demo_daemon_binders refl refl] by blast

text \<open>What one SIGHUP does. Without a policy file, or when the file cannot be loaded, nothing
  changes at all; otherwise rows and logs are as before and the policy is either the old one (the
  warm-up of a pool failed) or the loaded one. A file that is gone is not a failure: the permissive
  default takes over and every pool is retired, also under \<open>--require-policy\<close>.\<close>

theorem kpd_reload:
  assumes "path = cf_policy_file (dm_cfg d)" and "m' = kpd_step d (Hup fs) m"
  shows "(path = [] \<longrightarrow> m' = m)
    \<and> (\<forall>e. load_policy fs (dm_unmarshal d) path = Inl e \<longrightarrow> m' = m)
    \<and> m_store m' = m_store m \<and> m_logs m' = m_logs m
    \<and> (m_policy m' = m_policy m \<or> load_policy fs (dm_unmarshal d) path = Inr (m_policy m'))
    \<and> (path \<noteq> [] \<and> fs path = FileMissing \<longrightarrow> m_policy m' = default_policy \<and> m_pools m' = []
         \<and> snd ` set (m_pools m) \<subseteq> set (m_retiring m'))"
proof (cases "path = []")
  case path: False
  show ?thesis
  proof (cases "load_policy fs (dm_unmarshal d) path")
    case (Inr pol)
    obtain err m2 where rp: "replace_policy (dm_rt d) (Some pol) m = (err, m2)" by fastforce
    then have m': "m' = m2" using path Inr by (simp add: assms(1,2) reload_policy_def)
    have "pol = default_policy" if "fs path = FileMissing" using Inr that path by (simp add: load_policy_def)
    moreover have "validate default_policy = None" by (simp add: validate_None_iff default_policy_valid)
    ultimately have missing: "m_policy m' = default_policy \<and> m_pools m' = []
        \<and> snd ` set (m_pools m) \<subseteq> set (m_retiring m')" if "fs path = FileMissing"
      using rp that by (cases "m_started m") (auto simp: m' replace_policy_def, force+)
    show ?thesis using missing replace_policy_kept [OF rp] Inr path by (simp add: m')
  qed (use path in \<open>auto simp: assms(1,2) reload_policy_def load_policy_def\<close>)
qed (simp add: assms(2) reload_policy_def flip: assms(1))

theorem kpd_reload_witness:
  "m_policy (kpd_step demo_daemon (Hup (\<lambda>_. FileMissing)) demo_manager) = default_policy"
  using kpd_reload [OF refl refl, where m = demo_manager and d = demo_daemon and fs = "\<lambda>_. FileMissing"]
  by (simp add: demo_manager_def demo_daemon_def demo_config_def)

text \<open>The whole daemon keeps containers apart: over any backend and store that meet their
  contracts, a daemon started on an empty store keeps, through any interleaving of API requests,
  reloads, sweeps, retirements and refills and after its final shutdown, every stored sandbox running,
  stopped or failed under its own identifier, with a container that no pool and no other sandbox has.\<close>

theorem kpd_no_container_shared:
  assumes "manager_env (dm_rt d) live issued rinv (dm_st d) view sinv due" and "binders_ok (dm_bi d)"
    and "rinv r" and "sinv s" and "view s = Map.empty"
    and "kpd_setup (dm_rt d) stat load (Inr r) (\<lambda>_. Inr s) (dm_cfg d) = (None, Some m0)"
    and "m = kpd_run d evs m0 \<or> m = kpd_stop d (kpd_run d evs m0)"
  shows "\<forall>k sb. view (m_store m) k = Some sb \<longrightarrow>
        sb_id sb = k \<and> sb_state sb \<in> {state_running, state_stopped, state_error}
      \<and> (sb_runtime_id sb \<noteq> [] \<longrightarrow>
           (\<forall>p \<in> set (m_heap m). sb_runtime_id sb \<notin> set (p_avail p))
         \<and> (\<forall>k' sb'. view (m_store m) k' = Some sb' \<and> sb_runtime_id sb' = sb_runtime_id sb \<longrightarrow> k' = k))"
proof -
  let ?inv = "manager_env.mgr_inv issued rinv view sinv"
  obtain pol m1 where m1: "new_manager (Some r) (Some s) (Some pol) (cf_buffer_bytes (dm_cfg d)) (Some new_metrics) = Inr m1"
    "m0 = mgr_step (dm_rt d) (dm_st d) OpStart m1"
    by (rule kpd_setup_manager [OF assms(6), where st = "dm_st d"]) auto
  have "?inv m1" by (rule manager_env.new_manager_inv [OF assms(1) m1(1) assms(3,4,5)])
  then have "?inv m0" unfolding m1(2) by (rule manager_env.mgr_step_inv [OF assms(1)]) simp
  then have run: "?inv (kpd_run d evs m0)"
    by (rule manager_env.kpd_run_inv [OF assms(1,2) refl refl])
  then have "?inv (kpd_stop d (kpd_run d evs m0))"
    using manager_env.mgr_step_inv [OF assms(1) run, of OpShutdown] by (simp add: kpd_stop_def)
  with run assms(7) have "?inv m" by blast
  from manager_env.inv_parts [OF assms(1) this] show ?thesis by blast
qed

theorem kpd_no_container_shared_witness:
  "\<exists>m0. kpd_setup (dm_rt demo_daemon) (\<lambda>_. None) (load_policy demo_files (dm_unmarshal demo_daemon)) (Inr fake_empty)
      (\<lambda>_. Inr sqlite_open) (dm_cfg demo_daemon) = (None, Some m0)
    \<and> (\<forall>k sb. sqlite_view (m_store (kpd_run demo_daemon [ReaperTick 0, RetireStep] m0)) k = Some sb \<longrightarrow> sb_id sb = k)"
proof -
  have d: "dm_rt demo_daemon = fake_ops" "dm_st demo_daemon = sqlite_ops" by (simp_all add: demo_daemon_def)
  have env: "manager_env (dm_rt demo_daemon) fake_live fake_issued fake_invar (dm_st demo_daemon) sqlite_view sqlite_ok sqlite_due"
    unfolding d by (rule fake_mgr.manager_env_axioms)
  obtain m0 where m0: "kpd_setup (dm_rt demo_daemon) (\<lambda>_. None) (load_policy demo_files (dm_unmarshal demo_daemon)) (Inr fake_empty)
      (\<lambda>_. Inr sqlite_open) (dm_cfg demo_daemon) = (None, Some m0)" using demo_kpd_setup by blast
  show ?thesis
    using kpd_no_container_shared [OF env demo_daemon_binders _ _ _ m0 disjI1 [OF refl], of "[ReaperTick 0, RetireStep]"] m0
    by simp
qed

end
