(* ===== verification/Daemon.thy ===== *)
theory Daemon
  imports Kpd
begin

text \<open>
  The whole run of \<open>cmd/kpd\<close>: the flags over the configuration of the environment, the start-up, the
  events of the running daemon, and its end, when the listener fails or a signal arrives, with the
  deferred shutdown of the manager. The flags are given as \<open>cobra\<close> has parsed them. What happens to
  requests in flight while the listener shuts down is among the events; a reload that a signal cuts
  short is not modelled.
\<close>

section \<open>Flags\<close>

text \<open>A flag that is not on the command line has the value of the configuration.\<close>

record kpd_flags =
  fl_addr :: "string option"
  fl_token :: "string option"
  fl_db :: "string option"
  fl_policy :: "string option"
  fl_require_policy :: "bool option"
  fl_shutdown_timeout :: "duration option"

definition flag_or :: "'a \<Rightarrow> 'a option \<Rightarrow> 'a" where
  "flag_or def fl = (case fl of None \<Rightarrow> def | Some v \<Rightarrow> v)"

definition apply_flags :: "kpd_flags \<Rightarrow> config \<Rightarrow> config" where
  "apply_flags fl cfg = cfg\<lparr>
     cf_addr := flag_or (cf_addr cfg) (fl_addr fl),
     cf_token := flag_or (cf_token cfg) (fl_token fl),
     cf_db_path := flag_or (cf_db_path cfg) (fl_db fl),
     cf_policy_file := flag_or (cf_policy_file cfg) (fl_policy fl),
     cf_policy_required := flag_or (cf_policy_required cfg) (fl_require_policy fl),
     cf_shutdown_timeout := flag_or (cf_shutdown_timeout cfg) (fl_shutdown_timeout fl) \<rparr>"

section \<open>From start to end\<close>

text \<open>The two ends of the \<open>select\<close>: the result of \<open>Listen\<close>, or a signal and the result of
  \<open>ShutdownWithContext\<close>.\<close>

datatype kpd_end = ListenEnded "string option" | Signalled "string option"

datatype kpd_failure = SetupFailed kpd_error | ListenFailed string | ListenerShutdownFailed string

definition end_error :: "kpd_end \<Rightarrow> kpd_failure option" where
  "end_error fin =
     (case fin of ListenEnded e \<Rightarrow> map_option ListenFailed e | Signalled e \<Rightarrow> map_option ListenerShutdownFailed e)"

text \<open>\<open>serve\<close>: its error, and the manager it built, if it got that far. The configuration in \<open>d\<close> is
  the one of the environment.\<close>

definition kpd_serve ::
    "('r, 's) daemon \<Rightarrow> (string \<Rightarrow> string option) \<Rightarrow> (string \<Rightarrow> file_read) \<Rightarrow> string + 'r \<Rightarrow> (string \<Rightarrow> string + 's)
      \<Rightarrow> kpd_flags \<Rightarrow> kpd_event list \<Rightarrow> kpd_end \<Rightarrow> kpd_failure option \<times> ('r, 's) manager option" where
  "kpd_serve d stat fs new_rt open_store fl evs fin =
     (let d' = d\<lparr> dm_cfg := apply_flags fl (dm_cfg d) \<rparr> in
      case kpd_setup (dm_rt d') stat (load_policy fs (dm_unmarshal d')) new_rt open_store (dm_cfg d') of
        (Some e, m) \<Rightarrow> (Some (SetupFailed e), m)
      | (None, m) \<Rightarrow> (end_error fin, map_option (\<lambda>m. kpd_stop d' (kpd_run d' evs m)) m))"

definition kpd_exit :: "kpd_failure option \<Rightarrow> int" where
  "kpd_exit e = (if e = None then 0 else 1)"

section \<open>What a shutdown leaves\<close>

definition drained :: "pool \<Rightarrow> bool" where
  "drained p \<longleftrightarrow> p_closed p \<and> p_avail p = []"

lemma drained_get [simp]: "drained p \<Longrightarrow> pool_get p = (None, p)"
  by (simp add: drained_def pool_get_def)

context manager_env
begin

lemma shutdown_pools_drained:
  "mgr_inv m \<Longrightarrow> \<forall>i \<in> set is. i < length (m_heap m) \<Longrightarrow> shutdown_pools rt is m = (res, m') \<Longrightarrow>
   (\<forall>i < length (m_heap m). i \<in> set is \<or> drained (m_heap m ! i) \<longrightarrow> drained (m_heap m' ! i))
   \<and> length (m_heap m') = length (m_heap m)"
proof (induction "is" arbitrary: m res m')
  case (Cons i "is")
  have i: "i < length (m_heap m)" using Cons.prems(2) by simp
  obtain e p' r' where st: "pool_shutdown rt (m_heap m ! i) (m_rt m) = (e, p', r')"
    by (cases "pool_shutdown rt (m_heap m ! i) (m_rt m)")
  note moves = shutdown_moves [OF inv_ready [OF Cons.prems(1) i] st]
  let ?m = "put_pool i p' r' m"
  have inv: "mgr_inv ?m" using inv_put_pool [OF Cons.prems(1) i] moves by blast
  obtain rest m1 where m1: "shutdown_pools rt is ?m = (rest, m1)" by fastforce
  have m': "m' = m1" using st m1 Cons.prems(3) by simp
  have p': "drained (m_heap ?m ! j)" if "j < length (m_heap m)" "j = i \<or> drained (m_heap m ! j)" for j
    using that moves by (cases "j = i") (simp_all add: drained_def put_pool_def)
  have len: "length (m_heap ?m) = length (m_heap m)" by (simp add: put_pool_def)
  have "\<forall>j \<in> set is. j < length (m_heap ?m)" using Cons.prems(2) by (simp add: len)
  from Cons.IH [OF inv this m1] show ?case unfolding m' len using p' by auto
qed simp

lemma shutdown_drains:
  assumes "mgr_inv m" and "m' = snd (shutdown rt m)"
  shows "(\<forall>(img, i) \<in> set (m_pools m'). i < length (m_heap m') \<and> drained (m_heap m' ! i))
    \<and> m_store m' = m_store m \<and> m_pools m' = m_pools m"
proof -
  obtain es m1 where sd: "shutdown_pools rt (map snd (m_pools m)) m = (es, m1)" by fastforce
  have m': "m' = m1" using assms(2) sd by (simp add: shutdown_def Let_def)
  have refs: "\<forall>i \<in> set (map snd (m_pools m)). i < length (m_heap m)"
    using assms(1) by (auto simp: mgr_inv_def refs_ok_def)
  have "m_pools m1 = m_pools m" "m_store m1 = m_store m"
    using inv_shutdown_pools [OF assms(1) refs sd] by (auto simp: pools_only_def)
  with shutdown_pools_drained [OF assms(1) refs sd] refs show ?thesis by (auto simp: m')
qed

lemma kpd_setup_inv:
  assumes "kpd_setup rt stat load (Inr r) (\<lambda>_. Inr s) cfg = (None, Some m0)" and "rinv r" and "sinv s"
    and "view s = Map.empty"
  shows "mgr_inv m0"
proof -
  obtain pol m1 where m1: "new_manager (Some r) (Some s) (Some pol) (cf_buffer_bytes cfg) (Some new_metrics) = Inr m1"
    "m0 = mgr_step rt st OpStart m1"
    by (rule kpd_setup_manager [OF assms(1), where st = st]) auto
  have "mgr_inv m1" by (rule new_manager_inv [OF m1(1) assms(2-4)])
  then show ?thesis unfolding m1(2) by (rule mgr_step_inv) simp
qed

end

lemma kpd_setup_cases:
  assumes "kpd_setup rt stat load new_rt open_store cfg = (err, m)"
  shows "if err = None then m \<noteq> None else m = None \<or> (\<exists>e. err = Some (ManagerFailed e))"
proof (cases "check_required stat cfg")
  case None
  then show ?thesis using assms by (auto simp: kpd_setup_def split: option.splits sum.splits prod.splits)
next
  case (Some e)
  then have "err = Some e" "m = None" using assms by (simp_all add: kpd_setup_def)
  then show ?thesis by simp
qed

section \<open>Properties\<close>


definition no_flags :: kpd_flags where
  "no_flags = \<lparr> fl_addr = None, fl_token = None, fl_db = None, fl_policy = None, fl_require_policy = None,
     fl_shutdown_timeout = None \<rparr>"

lemma apply_no_flags [simp]: "apply_flags no_flags cfg = cfg"
  by (simp add: apply_flags_def no_flags_def flag_or_def)


end
