(* ===== verification/Mcp.thy ===== *)
theory Mcp
  imports Api Sandboxes Frames Config
begin

text \<open>
  The MCP front end: the tools of \<open>internal/mcp\<close> over the manager and the start-up of \<open>cmd/kpmcp\<close>. The
  MCP library decodes the arguments of a call into the input structs and encodes the outputs; a tool
  is modelled from its input struct to its text, its output struct or its error, and the manager it
  leaves.
\<close>

section \<open>Inputs and outputs\<close>

record mcp_create_input =
  mi_image :: string
  mi_profile :: string
  mi_name :: string
  mi_cmd :: "string list"
  mi_env :: smap
  mi_cpus :: f64
  mi_memory_mb :: int64
  mi_ttl_sec :: int64

record mcp_exec_input =
  mx_id :: string
  mx_cmd :: "string list"
  mx_env :: smap
  mx_work_dir :: string
  mx_stdin :: string

record mcp_exec_output =
  mo_exit_code :: int
  mo_stdout :: string
  mo_stderr :: string
  mo_duration_ms :: int

datatype mcp_call =
    SandboxCreate mcp_create_input
  | SandboxList
  | SandboxGet string
  | SandboxExec mcp_exec_input
  | SandboxStop string
  | SandboxDelete string

datatype mcp_output =
    OutSandbox api_sandbox
  | OutList "api_sandbox list"
  | OutExec mcp_exec_output
  | OutStatus bool

text \<open>A tool fails with a text, or gives an output and the text of its result, if it sets one.\<close>

type_synonym mcp_result = "string + (string option \<times> mcp_output)"

definition to_mcp :: "sandbox \<Rightarrow> api_sandbox" where
  "to_mcp sb = \<lparr> as_id = sb_id sb, as_name = sb_name sb, as_image = sb_image sb, as_state = sb_state sb \<rparr>"

section \<open>The tools\<close>

definition options_of_input :: "mcp_create_input \<Rightarrow> create_options" where
  "options_of_input inp =
     \<lparr> co_name = mi_name inp, co_profile = mi_profile inp, co_image = mi_image inp, co_cmd = mi_cmd inp,
       co_env = mi_env inp, co_cpus = mi_cpus inp, co_memory_mb = mi_memory_mb inp,
       co_ttl = ttl_of_seconds (mi_ttl_sec inp), co_labels = [] \<rparr>"

definition mcp_create ::
    "'r runtime_ops \<Rightarrow> 's store_ops \<Rightarrow> draws \<Rightarrow> mcp_create_input \<Rightarrow> ('r, 's) manager \<Rightarrow> mcp_result \<times> ('r, 's) manager" where
  "mcp_create rt st dw inp m =
     (case create rt st (dw_uuid dw) (dw_now dw) (options_of_input inp) m of
        ((_, Some e), m') \<Rightarrow> (Inl (mgr_message e), m')
      | ((sb, None), m') \<Rightarrow> (Inr (Some (''created sandbox '' @ sb_id sb), OutSandbox (to_mcp sb)), m'))"

definition mcp_list :: "'s store_ops \<Rightarrow> ('r, 's) manager \<Rightarrow> mcp_result \<times> ('r, 's) manager" where
  "mcp_list st m =
     (case list_sandboxes st m of
        (Inl e, m') \<Rightarrow> (Inl (mgr_message e), m')
      | (Inr items, m') \<Rightarrow>
          (Inr (Some (itoa (int (length items)) @ '' sandbox(es)''), OutList (map to_mcp items)), m'))"

definition mcp_get :: "'s store_ops \<Rightarrow> string \<Rightarrow> ('r, 's) manager \<Rightarrow> mcp_result \<times> ('r, 's) manager" where
  "mcp_get st i m =
     (case get_sandbox st i m of
        (Inl e, m') \<Rightarrow> (Inl (if says_not_found e then ''sandbox '' @ i @ '' not found'' else mgr_message e), m')
      | (Inr sb, m') \<Rightarrow> (Inr (None, OutSandbox (to_mcp sb)), m'))"

definition exec_options_of_input :: "mcp_exec_input \<Rightarrow> exec_options" where
  "exec_options_of_input inp =
     \<lparr> eo_cmd = mx_cmd inp, eo_env = mx_env inp, eo_work_dir = mx_work_dir inp, eo_stdin = mx_stdin inp,
       eo_stdout = False, eo_stderr = False \<rparr>"

definition mcp_exec_output_of :: "exec_result \<Rightarrow> mcp_exec_output" where
  "mcp_exec_output_of res =
     \<lparr> mo_exit_code = xr_exit_code res, mo_stdout = xr_stdout res, mo_stderr = xr_stderr res,
       mo_duration_ms = milliseconds (xr_duration res) \<rparr>"

definition mcp_exec ::
    "'r runtime_ops \<Rightarrow> 's store_ops \<Rightarrow> gotime \<Rightarrow> mcp_exec_input \<Rightarrow> ('r, 's) manager \<Rightarrow> mcp_result \<times> ('r, 's) manager" where
  "mcp_exec rt st now inp m =
     (case exec rt st (mx_id inp) (exec_options_of_input inp) now m of
        ((_, Inl e), m') \<Rightarrow> (Inl (mgr_message e), m')
      | ((_, Inr res), m') \<Rightarrow> (Inr (Some (xr_stdout res), OutExec (mcp_exec_output_of res)), m'))"

definition mcp_stop ::
    "'r runtime_ops \<Rightarrow> 's store_ops \<Rightarrow> string \<Rightarrow> ('r, 's) manager \<Rightarrow> mcp_result \<times> ('r, 's) manager" where
  "mcp_stop rt st i m =
     (case stop rt st i m of
        (Some e, m') \<Rightarrow> (Inl (mgr_message e), m')
      | (None, m') \<Rightarrow> (Inr (Some (''stopped '' @ i), OutStatus True), m'))"

definition mcp_delete ::
    "'r runtime_ops \<Rightarrow> 's store_ops \<Rightarrow> string \<Rightarrow> ('r, 's) manager \<Rightarrow> mcp_result \<times> ('r, 's) manager" where
  "mcp_delete rt st i m =
     (case delete rt st i m of
        (Some e, m') \<Rightarrow> (Inl (mgr_message e), m')
      | (None, m') \<Rightarrow> (Inr (Some (''deleted '' @ i), OutStatus True), m'))"

definition mcp_tool ::
    "'r runtime_ops \<Rightarrow> 's store_ops \<Rightarrow> draws \<Rightarrow> mcp_call \<Rightarrow> ('r, 's) manager \<Rightarrow> mcp_result \<times> ('r, 's) manager" where
  "mcp_tool rt st dw call m =
     (case call of
        SandboxCreate inp \<Rightarrow> mcp_create rt st dw inp m
      | SandboxList \<Rightarrow> mcp_list st m
      | SandboxGet i \<Rightarrow> mcp_get st i m
      | SandboxExec inp \<Rightarrow> mcp_exec rt st (dw_now dw) inp m
      | SandboxStop i \<Rightarrow> mcp_stop rt st i m
      | SandboxDelete i \<Rightarrow> mcp_delete rt st i m)"

section \<open>kpmcp\<close>

datatype kpmcp_error =
    McpLoadFailed load_error
  | McpRuntimeFailed string
  | McpStoreFailed string
  | McpManagerFailed mgr_error

text \<open>\<open>run\<close>, up to serving: no metrics, the default log buffer, and no \<open>Start\<close>.\<close>

definition kpmcp_setup ::
    "(string \<Rightarrow> load_error + policy) \<Rightarrow> string + 'r \<Rightarrow> (string \<Rightarrow> string + 's) \<Rightarrow> string \<Rightarrow> string
      \<Rightarrow> kpmcp_error + ('r, 's) manager" where
  "kpmcp_setup load new_rt open_store policy_file db_path =
     (case load policy_file of
        Inl e \<Rightarrow> Inl (McpLoadFailed e)
      | Inr pol \<Rightarrow>
          (case new_rt of
             Inl e \<Rightarrow> Inl (McpRuntimeFailed e)
           | Inr r \<Rightarrow>
               (case open_store db_path of
                  Inl e \<Rightarrow> Inl (McpStoreFailed e)
                | Inr s \<Rightarrow>
                    (case new_manager (Some r) (Some s) (Some pol) 0 noop of
                       Inl e \<Rightarrow> Inl (McpManagerFailed e)
                     | Inr m \<Rightarrow> Inr m))))"

definition kpmcp_run ::
    "'r runtime_ops \<Rightarrow> 's store_ops \<Rightarrow> (draws \<times> mcp_call) list \<Rightarrow> ('r, 's) manager \<Rightarrow> ('r, 's) manager" where
  "kpmcp_run rt st calls m = fold (\<lambda>(dw, call) m. snd (mcp_tool rt st dw call m)) calls m"

text \<open>\<open>main\<close> and \<open>run\<close>: the two flags over the configuration, the calls served until \<open>Run\<close> of the
  library returns, and the exit status. Nothing is deferred but the closing of the store and the client.\<close>

record kpmcp_flags =
  fm_db :: "string option"
  fm_policy :: "string option"

datatype kpmcp_failure = McpSetupFailed kpmcp_error | McpServeFailed string

definition kpmcp_flagged :: "kpmcp_flags \<Rightarrow> config \<Rightarrow> config" where
  "kpmcp_flagged fl cfg = cfg\<lparr>
     cf_db_path := (case fm_db fl of None \<Rightarrow> cf_db_path cfg | Some v \<Rightarrow> v),
     cf_policy_file := (case fm_policy fl of None \<Rightarrow> cf_policy_file cfg | Some v \<Rightarrow> v) \<rparr>"

definition kpmcp_main ::
    "'r runtime_ops \<Rightarrow> 's store_ops \<Rightarrow> (string \<Rightarrow> load_error + policy) \<Rightarrow> string + 'r \<Rightarrow> (string \<Rightarrow> string + 's)
      \<Rightarrow> kpmcp_flags \<Rightarrow> config \<Rightarrow> (draws \<times> mcp_call) list \<Rightarrow> string option
      \<Rightarrow> kpmcp_failure option \<times> ('r, 's) manager option" where
  "kpmcp_main rt st load new_rt open_store fl cfg calls served =
     (let cfg' = kpmcp_flagged fl cfg in
      case kpmcp_setup load new_rt open_store (cf_policy_file cfg') (cf_db_path cfg') of
        Inl e \<Rightarrow> (Some (McpSetupFailed e), None)
      | Inr m \<Rightarrow> (map_option McpServeFailed served, Some (kpmcp_run rt st calls m)))"

definition kpmcp_exit :: "kpmcp_failure option \<Rightarrow> int" where
  "kpmcp_exit e = (if e = None then 0 else 1)"

section \<open>The two front ends agree\<close>

text \<open>The HTTP request with the same fields.\<close>

definition request_of_input :: "mcp_create_input \<Rightarrow> create_request" where
  "request_of_input inp = \<lparr> cr_name = mi_name inp, cr_profile = mi_profile inp, cr_image = mi_image inp,
     cr_cmd = mi_cmd inp, cr_env = mi_env inp, cr_cpus = mi_cpus inp, cr_memory_mb = mi_memory_mb inp,
     cr_ttl_sec = mi_ttl_sec inp \<rparr>"

definition exec_request_of_input :: "mcp_exec_input \<Rightarrow> exec_request" where
  "exec_request_of_input inp = \<lparr> er_cmd = mx_cmd inp, er_env = mx_env inp, er_work_dir = mx_work_dir inp,
     er_stdin = mx_stdin inp \<rparr>"

text \<open>The HTTP reply that says what the result of a tool says: the body of a success, the message of
  an error unless it is "not found".\<close>

definition reply_says :: "api_reply \<Rightarrow> mcp_result \<Rightarrow> bool" where
  "reply_says rep res \<longleftrightarrow>
     (case res of
        Inl msg \<Rightarrow> rep = error_reply 400 msg \<or> rep = error_reply 500 msg \<or> rep = error_reply 404 ''not found''
      | Inr (_, OutSandbox sb) \<Rightarrow> rep = json_reply 200 (sandbox_json sb) \<or> rep = json_reply 201 (sandbox_json sb)
      | Inr (_, OutList sbs) \<Rightarrow> rep = json_reply 200 (JArr (map sandbox_json sbs))
      | Inr (_, OutExec x) \<Rightarrow> rep = json_reply 200 (JObj [(''exit_code'', JNum (itoa (mo_exit_code x))),
          (''stdout'', JStr (mo_stdout x)), (''stderr'', JStr (mo_stderr x)),
          (''duration_ms'', JNum (itoa (mo_duration_ms x)))])
      | Inr (_, OutStatus ok) \<Rightarrow> ok \<and> rep = no_content)"

definition same_outcome :: "api_reply \<times> ('r, 's) manager \<Rightarrow> mcp_result \<times> ('r, 's) manager \<Rightarrow> bool" where
  "same_outcome a b \<longleftrightarrow> snd a = snd b \<and> reply_says (fst a) (fst b)"

lemma to_mcp_api: "to_mcp = to_api"
  by (simp add: fun_eq_iff to_mcp_def to_api_def)

lemmas outcome_defs = same_outcome_def reply_says_def failure_reply_def

lemma create_same:
  "mi_image inp \<noteq> [] \<or> mi_profile inp \<noteq> [] \<Longrightarrow>
     same_outcome (handle_create (\<lambda>_. Inr (request_of_input inp)) rt st (dw_uuid dw) (dw_now dw) q m)
       (mcp_create rt st dw inp m)"
  by (auto simp: outcome_defs handle_create_def mcp_create_def options_of_request_def options_of_input_def
      request_of_input_def to_mcp_api split: prod.split option.split)

lemma list_same: "same_outcome (handle_list st m) (mcp_list st m)"
  by (auto simp: outcome_defs handle_list_def mcp_list_def to_mcp_api split: prod.split sum.split)

lemma get_same: "same_outcome (handle_get st i m) (mcp_get st i m)"
  by (auto simp: outcome_defs handle_get_def mcp_get_def to_mcp_api split: prod.split sum.split)

lemma exec_same:
  "mx_cmd inp \<noteq> [] \<Longrightarrow>
     same_outcome (handle_exec (\<lambda>_. Inr (exec_request_of_input inp)) rt st now (mx_id inp) q m) (mcp_exec rt st now inp m)"
  by (auto simp: outcome_defs handle_exec_def mcp_exec_def exec_options_of_def exec_options_of_input_def
      exec_request_of_input_def mcp_exec_output_of_def exec_json_def split: prod.split sum.split)

lemma stop_same: "same_outcome (handle_stop rt st i m) (mcp_stop rt st i m)"
  by (auto simp: outcome_defs handle_stop_def mcp_stop_def split: prod.split option.split)

lemma delete_same: "same_outcome (handle_delete rt st i m) (mcp_delete rt st i m)"
  by (auto simp: outcome_defs handle_delete_def mcp_delete_def split: prod.split option.split)

section \<open>Properties\<close>

text \<open>C26. The MCP tools and the HTTP handlers are the same front end: on the same fields each pair
  leaves the manager in the same state and says the same (the same sandbox, list or result, the
  manager's message of an error; HTTP alone shortens "not found"). The HTTP front end only refuses
  two inputs earlier: a create without image and profile, which the policy then denies with nothing
  changed but the counter of denials, and an empty command.\<close>

theorem frontends_agree:
  "(if mi_image inp = [] \<and> mi_profile inp = []
    then handle_create (\<lambda>_. Inr (request_of_input inp)) rt st (dw_uuid dw) (dw_now dw) q m
           = (error_reply 400 ''image or profile is required'', m)
         \<and> mcp_create rt st dw inp m
           = (Inl (policy_message ImageRequired), record_created [] [] ''policy_denied'' m)
    else same_outcome (handle_create (\<lambda>_. Inr (request_of_input inp)) rt st (dw_uuid dw) (dw_now dw) q m)
           (mcp_create rt st dw inp m))
    \<and> (if mx_cmd xin = []
       then handle_exec (\<lambda>_. Inr (exec_request_of_input xin)) rt st now (mx_id xin) q m = (error_reply 400 ''cmd is required'', m)
       else same_outcome (handle_exec (\<lambda>_. Inr (exec_request_of_input xin)) rt st now (mx_id xin) q m) (mcp_exec rt st now xin m))
    \<and> same_outcome (handle_list st m) (mcp_list st m)
    \<and> same_outcome (handle_get st i m) (mcp_get st i m)
    \<and> same_outcome (handle_stop rt st i m) (mcp_stop rt st i m)
    \<and> same_outcome (handle_delete rt st i m) (mcp_delete rt st i m)"
proof -
  have "resolve (m_policy m) (request_of (options_of_input inp)) = Inl ImageRequired"
    if "mi_image inp = []" "mi_profile inp = []"
    using that by (simp add: resolve_def resolve_base_def request_of_def options_of_input_def apply_profile_def Let_def)
  then have "mcp_create rt st dw inp m = (Inl (policy_message ImageRequired), record_created [] [] ''policy_denied'' m)"
    if "mi_image inp = []" "mi_profile inp = []"
    using that by (simp add: mcp_create_def create_def options_of_input_def mgr_message_def)
  moreover have "mi_image inp = [] \<Longrightarrow> mi_profile inp = [] \<Longrightarrow>
      handle_create (\<lambda>_. Inr (request_of_input inp)) rt st (dw_uuid dw) (dw_now dw) q m
        = (error_reply 400 ''image or profile is required'', m)"
    by (simp add: handle_create_def request_of_input_def)
  moreover have "mx_cmd xin = [] \<Longrightarrow>
      handle_exec (\<lambda>_. Inr (exec_request_of_input xin)) rt st now (mx_id xin) q m = (error_reply 400 ''cmd is required'', m)"
    by (simp add: handle_exec_def exec_request_of_input_def)
  ultimately show ?thesis
    by (auto simp: create_same exec_same list_same get_same stop_same delete_same)
qed

lemma warm_nothing: "\<forall>p \<in> set (m_heap m). p_avail p = [] \<Longrightarrow> \<forall>i \<in> snd ` set (m_pools m). i < length (m_heap m) \<Longrightarrow>
    try_claim res m = (None, m)"
proof -
  assume cold: "\<forall>p \<in> set (m_heap m). p_avail p = []" and refs: "\<forall>i \<in> snd ` set (m_pools m). i < length (m_heap m)"
  have "pool_get (m_heap m ! i) = (None, m_heap m ! i)" if "map_of (m_pools m) img = Some i" for img i
  proof -
    have "i < length (m_heap m)" using refs map_of_SomeD [OF that] by force
    then have "p_avail (m_heap m ! i) = []" using cold nth_mem by blast
    then show ?thesis by (simp add: pool_get_def)
  qed
  then show ?thesis by (auto simp: try_claim_def split: option.split)
qed

lemma mcp_tool_frame:
  assumes "\<And>res. try_claim res m = (None, m)"
  shows "same_frame m (snd (mcp_tool rt st dw call m))"
proof -
  have *: "mcp_create rt st dw inp m = (res, m') \<Longrightarrow> m' = snd (create rt st (dw_uuid dw) (dw_now dw) (options_of_input inp) m)"
    "mcp_list st m = (res, m') \<Longrightarrow> m' = snd (list_sandboxes st m)"
    "mcp_get st i m = (res, m') \<Longrightarrow> m' = snd (get_sandbox st i m)"
    "mcp_exec rt st now xin m = (res, m') \<Longrightarrow> m' = snd (exec rt st (mx_id xin) (exec_options_of_input xin) now m)"
    "mcp_stop rt st i m = (res, m') \<Longrightarrow> m' = snd (stop rt st i m)"
    "mcp_delete rt st i m = (res, m') \<Longrightarrow> m' = snd (delete rt st i m)" for inp xin i now res m'
    by (auto simp: mcp_create_def mcp_list_def mcp_get_def mcp_exec_def mcp_stop_def mcp_delete_def
        split: prod.splits sum.splits option.splits)
  obtain res m' where "mcp_tool rt st dw call m = (res, m')" by fastforce
  then show ?thesis
    using frame_create [OF assms] frame_list [of m] frame_get [of m] frame_exec [of m] frame_stop [of m] frame_delete [of m]
    by (cases call) (auto simp: mcp_tool_def dest!: *)
qed

text \<open>\<open>kpmcp\<close> on its own never uses a warm container: it does not start its manager, so through
  any sequence of tool calls the pools its policy asks for stay empty and every create is a cold one;
  the policy never changes.\<close>

theorem kpmcp_always_cold:
  assumes "kpmcp_setup load new_rt open_store policy_file db_path = Inr m0"
    and "m = kpmcp_run rt st calls m0"
  shows "m_heap m = m_heap m0 \<and> m_policy m = m_policy m0 \<and> load policy_file = Inr (m_policy m)
    \<and> (\<forall>p \<in> set (m_heap m). p_avail p = []) \<and> (\<forall>res. try_claim res m = (None, m))"
proof -
  obtain pol r s where new: "new_manager (Some r) (Some s) (Some pol) 0 noop = Inr m0" "load policy_file = Inr pol"
    using assms(1) by (auto simp: kpmcp_setup_def split: sum.splits)
  then have m0: "m_heap m0 = map snd (build_pools pol)" "m_pools m0 = place 0 (build_pools pol)" "m_policy m0 = pol"
    by (auto simp: new_manager_def Let_def)
  have cold: "\<forall>p \<in> set (m_heap m0). p_avail p = []" using pool_build_avail by (auto simp: m0)
  have refs: "\<forall>i \<in> snd ` set (m_pools m0). i < length (m_heap m0)"
    by (auto simp: m0 place_def dest: set_zip_rightD)
  have "same_frame m0 (kpmcp_run rt st calls m0)" for calls
  proof (induction calls rule: rev_induct)
    case (snoc c calls)
    let ?m = "kpmcp_run rt st calls m0"
    have f: "m_heap ?m = m_heap m0" "m_pools ?m = m_pools m0" using snoc by (simp_all add: same_frame_def)
    obtain dw call where c: "c = (dw, call)" by fastforce
    have "try_claim res ?m = (None, ?m)" for res by (rule warm_nothing) (simp_all add: f cold refs)
    then have "same_frame ?m (snd (mcp_tool rt st dw call ?m))" by (rule mcp_tool_frame)
    then have "same_frame m0 (snd (mcp_tool rt st dw call ?m))" by (rule frame_trans [OF snoc])
    then show ?case by (simp add: kpmcp_run_def c)
  qed (simp add: kpmcp_run_def)
  then have f: "m_heap m = m_heap m0" "m_pools m = m_pools m0" "m_policy m = m_policy m0"
    using assms(2) by (simp_all add: same_frame_def)
  have "try_claim res m = (None, m)" for res by (rule warm_nothing) (simp_all add: f cold refs)
  with f cold m0(3) new(2) show ?thesis by simp
qed

theorem kpmcp_always_cold_witness:
  "\<exists>m0. kpmcp_setup (\<lambda>_. Inr demo_pool_policy) (Inr fake_empty) (\<lambda>_. Inr sqlite_open) [] [] = Inr m0
     \<and> m_heap m0 \<noteq> []
     \<and> (\<forall>res. try_claim res (kpmcp_run fake_ops sqlite_ops [(\<lparr> dw_uuid = ''u1'', dw_now = 0 \<rparr>, SandboxList)] m0)
          = (None, kpmcp_run fake_ops sqlite_ops [(\<lparr> dw_uuid = ''u1'', dw_now = 0 \<rparr>, SandboxList)] m0))"
proof -
  obtain m0 where m0: "kpmcp_setup (\<lambda>_. Inr demo_pool_policy) (Inr fake_empty) (\<lambda>_. Inr sqlite_open) [] [] = Inr m0"
    "m_heap m0 \<noteq> []"
    by (simp add: kpmcp_setup_def new_manager_def build_pools_def demo_pool_policy_def pooled_def Let_def)
  with kpmcp_always_cold [OF m0(1) refl] show ?thesis by blast
qed

end
