(* ===== verification/Registry.thy ===== *)
theory Registry
  imports Prelude
begin

text \<open>
  The generic registry \<open>internal/registry\<close>: a map from identifiers to values, its methods atomic under
  the lock. \<open>All\<close> yields the entries in the order of the map until the consumer says stop. Refinement:
  every method is the map operation it stands for.
\<close>

type_synonym 'v registry = "(string \<times> 'v) list"

definition reg_new :: "'v registry" where
  "reg_new = []"

definition reg_put :: "string \<Rightarrow> 'v \<Rightarrow> 'v registry \<Rightarrow> 'v registry" where
  "reg_put i v r = AList.update i v r"

definition reg_get :: "string \<Rightarrow> 'v registry \<Rightarrow> 'v option" where
  "reg_get i r = map_of r i"

definition reg_delete :: "string \<Rightarrow> 'v registry \<Rightarrow> 'v option \<times> 'v registry" where
  "reg_delete i r =
     (case map_of r i of None \<Rightarrow> (None, r) | Some v \<Rightarrow> (Some v, AList.delete i r))"

definition reg_len :: "'v registry \<Rightarrow> nat" where
  "reg_len r = length r"

text \<open>The consumer threads a state and says whether to go on.\<close>

fun reg_all :: "(string \<Rightarrow> 'v \<Rightarrow> 'a \<Rightarrow> bool \<times> 'a) \<Rightarrow> 'v registry \<Rightarrow> 'a \<Rightarrow> 'a" where
  "reg_all yield [] a = a"
| "reg_all yield ((i, v) # r) a =
     (case yield i v a of (go, a') \<Rightarrow> if \<not> go then a' else reg_all yield r a')"

text \<open>The interface of a registry as a map, and the model as an implementation of it.\<close>

locale id_map =
  fixes view :: "'m \<Rightarrow> string \<rightharpoonup> 'v"
    and empty_map :: 'm
    and put :: "string \<Rightarrow> 'v \<Rightarrow> 'm \<Rightarrow> 'm"
    and remove :: "string \<Rightarrow> 'm \<Rightarrow> 'v option \<times> 'm"
    and count :: "'m \<Rightarrow> nat"
    and ok :: "'m \<Rightarrow> bool"
  assumes empty_view: "view empty_map = Map.empty" and empty_ok: "ok empty_map"
    and put_view: "ok m \<Longrightarrow> view (put i v m) = (view m)(i \<mapsto> v)" and put_ok: "ok m \<Longrightarrow> ok (put i v m)"
    and remove_view: "ok m \<Longrightarrow> view (snd (remove i m)) = (view m)(i := None)"
    and remove_value: "ok m \<Longrightarrow> fst (remove i m) = view m i"
    and remove_ok: "ok m \<Longrightarrow> ok (snd (remove i m))"
    and count_card: "ok m \<Longrightarrow> count m = card (dom (view m))"
begin

lemma put_remove: "ok m \<Longrightarrow> view m i = None \<Longrightarrow> view (snd (remove i (put i v m))) = view m"
  using put_view [of m i v] remove_view [OF put_ok [of m i v], of i] by (auto simp: fun_eq_iff)

lemma remove_twice: "ok m \<Longrightarrow> fst (remove i (snd (remove i m))) = None"
  using remove_value [OF remove_ok [of m i]] remove_view [of m i] by simp

lemma count_put: "ok m \<Longrightarrow> finite (dom (view m)) \<Longrightarrow> count (put i v m) = (if view m i = None then Suc (count m) else count m)"
  using put_view [of m i v] count_card [of m] count_card [OF put_ok [of m i v]]
  by (auto simp: insert_absorb domI domIff)

end

definition reg_ok :: "'v registry \<Rightarrow> bool" where
  "reg_ok r \<longleftrightarrow> distinct (map fst r)"

interpretation reg: id_map map_of reg_new reg_put reg_delete reg_len reg_ok
proof
  fix m :: "'v registry" and i v
  assume ok: "reg_ok m"
  show "reg_ok (snd (reg_delete i m))" using ok
    by (auto simp: reg_delete_def reg_ok_def distinct_delete split: option.split)
  show "reg_len m = card (dom (map_of m))" using ok
    by (simp add: reg_len_def reg_ok_def dom_map_of_conv_image_fst distinct_card [of "map fst m", simplified])
qed (auto simp: reg_new_def reg_put_def reg_delete_def reg_ok_def split: option.split)

text \<open>\<open>All\<close> with a consumer that never stops visits every entry once, in order.\<close>

lemma reg_all_visits: "reg_all (\<lambda>i v acc. (True, acc @ [(i, v)])) r acc = acc @ r"
  by (induction r arbitrary: acc) auto

end
