(* ===== verification/Cli.thy ===== *)
theory Cli
  imports Client
begin

text \<open>
  The command line client, \<open>cmd/kp\<close>: each command over the SDK, with what it prints and its exit code,
  and the loop of \<open>watch\<close>. \<open>cobra\<close> parses the arguments and flags; \<open>text/tabwriter\<close> aligns the cells of
  a table, so a table is its rows of cells; the text of errors that come from libraries
  (\<open>encoding/json\<close>, the transport) is the argument \<open>detail\<close>.
\<close>

definition short :: "string \<Rightarrow> string" where
  "short i = (if length i > 12 then take 12 i else i)"

section \<open>Errors\<close>

text \<open>\<open>Error()\<close> of what a command returns.\<close>

fun error_text :: "(client_error \<Rightarrow> string) \<Rightarrow> client_error \<Rightarrow> string" where
  "error_text detail (RequestFailed e) = e"
| "error_text detail (ApiError status msg kd) = api_error_message msg kd"
| "error_text detail (ReadLogs e) = ''read logs: '' @ e"
| "error_text detail (StreamFailed (WriteError e)) = e"
| "error_text detail (StreamFailed (ServerStream msg)) = ''server stream error: '' @ msg"
| "error_text detail (StreamFailed (ReadError e)) = e"
| "error_text detail (StreamFailed UnexpectedEof) = ''unexpected EOF''"
| "error_text detail (WaitNotFound target e) = ''WaitFor '' @ go_quote target @ '': '' @ error_text detail e"
| "error_text detail (WaitTerminal i state target) =
     ''sandbox '' @ i @ '' reached terminal state '' @ go_quote state @ '' while waiting for '' @ go_quote target"
| "error_text detail (WaitCancelled e) = e"
| "error_text detail e = detail e"

definition arrow :: string where
  "arrow = [CHR 0xE2, CHR 0x86, CHR 0x92]"

definition print_err :: "(client_error \<Rightarrow> string) \<Rightarrow> client_error \<Rightarrow> string" where
  "print_err detail e =
     ''kp: '' @ error_text detail e @ [newline] @
     (if is_kind KindUnauthorized e then ''  '' @ arrow @ '' set KPD_TOKEN or pass --token'' @ [newline]
      else if is_kind KindPolicyDenied e then
        ''  '' @ arrow @ '' check kotakpasir.yaml allowlist or use a defined profile'' @ [newline]
      else if is_kind KindNotFound e then
        ''  '' @ arrow @ '' run `kp ls` to see available sandboxes'' @ [newline]
      else [])"

section \<open>Commands\<close>

text \<open>What a command leaves: its error, what it wrote to the two streams and the global \<open>exitCode\<close>.\<close>

datatype kp_error = Flags string | Sdk client_error

record kp_result =
  kr_err :: "kp_error option"
  kr_stdout :: string
  kr_stderr :: string
  kr_code :: int

definition kp_ok :: "string \<Rightarrow> string \<Rightarrow> int \<Rightarrow> kp_result" where
  "kp_ok out err code = \<lparr> kr_err = None, kr_stdout = out, kr_stderr = err, kr_code = code \<rparr>"

definition kp_fail :: "kp_error \<Rightarrow> kp_result" where
  "kp_fail e = \<lparr> kr_err = Some e, kr_stdout = [], kr_stderr = [], kr_code = 0 \<rparr>"

text \<open>The end of \<open>main\<close>: what is written to the error stream last, and the exit status.\<close>

definition kp_exit :: "(client_error \<Rightarrow> string) \<Rightarrow> kp_result \<Rightarrow> string \<times> int" where
  "kp_exit detail r =
     (case kr_err r of
        Some (Flags msg) \<Rightarrow> (''kp: '' @ msg @ [newline], 1)
      | Some (Sdk e) \<Rightarrow> (print_err detail e, 1)
      | None \<Rightarrow> ([], kr_code r))"

datatype listing = NoSandboxes | Table "string list list"

definition ls_cmd :: "client \<Rightarrow> 'w transport \<Rightarrow> 'w \<Rightarrow> (client_error + listing) \<times> 'w" where
  "ls_cmd cl tr w =
     (case client_list cl tr w of
        (Inl e, w') \<Rightarrow> (Inl e, w')
      | (Inr sbs, w') \<Rightarrow>
          (Inr (if sbs = [] then NoSandboxes
                else Table ([''ID'', ''IMAGE'', ''STATE'', ''NAME'']
                  # map (\<lambda>sb. [short (as_id sb), as_image sb, as_state sb, as_name sb]) sbs)), w'))"

text \<open>\<open>kp run\<close>: \<open>script\<close> is what happens between the polls of the wait; \<open>None\<close>: still waiting.\<close>

definition run_cmd ::
    "(f64 \<Rightarrow> string option) \<Rightarrow> client \<Rightarrow> 'w transport \<Rightarrow> sdk_create_options \<Rightarrow> bool \<Rightarrow> 'w pause list \<Rightarrow> 'w
      \<Rightarrow> kp_result option \<times> 'w" where
  "run_cmd ff cl tr opts waiting script w =
     (if so_image opts = [] \<and> so_profile opts = [] then
        (Some (kp_fail (Flags ''either --image or --profile is required'')), w)
      else case client_create ff cl tr (opts\<lparr> so_cmd := [], so_env := [] \<rparr>) w of
        (Inl e, w') \<Rightarrow> (Some (kp_fail (Sdk e)), w')
      | (Inr sb, w') \<Rightarrow>
          (if waiting then
             (case wait_for cl tr (as_id sb) state_running script w' of
                (None, w'') \<Rightarrow> (None, w'')
              | (Some (_, Some e), w'') \<Rightarrow> (Some (kp_fail (Sdk e)), w'')
              | (Some (Some sb', None), w'') \<Rightarrow> (Some (kp_ok (as_id sb' @ [newline]) [] 0), w'')
              | (Some (None, None), w'') \<Rightarrow> (None, w''))
           else (Some (kp_ok (as_id sb @ [newline]) [] 0), w')))"

text \<open>The two streams of a streamed call, as the terminal shows them.\<close>

definition stream_output :: "stream \<Rightarrow> (stream \<times> string) list \<Rightarrow> string" where
  "stream_output s out = concat (map snd (filter (\<lambda>(s', _). s' = s) out))"

definition terminal :: writers where
  "terminal = \<lparr> w_has = (\<lambda>_. True), w_fail = (\<lambda>_ _ _. None) \<rparr>"

definition exec_cmd ::
    "client \<Rightarrow> 'w transport \<Rightarrow> bool \<Rightarrow> string \<Rightarrow> string list \<Rightarrow> 'w \<Rightarrow> kp_result \<times> 'w" where
  "exec_cmd cl tr streamed i args w =
     (let opts = \<lparr> se_cmd = args, se_env = [], se_work_dir = [], se_stdin = [] \<rparr>
      in if streamed then
           (case client_exec_stream cl tr i opts terminal w of
              ((res, err), out, w') \<Rightarrow>
                (\<lparr> kr_err = map_option Sdk err, kr_stdout = stream_output Stdout out, kr_stderr = stream_output Stderr out,
                   kr_code = (case (err, res) of (None, Some x) \<Rightarrow> xr_exit_code x | _ \<Rightarrow> 0) \<rparr>, w'))
         else
           (case client_exec cl tr i opts w of
              (Inl e, w') \<Rightarrow> (kp_fail (Sdk e), w')
            | (Inr res, w') \<Rightarrow> (kp_ok (xr_stdout res) (xr_stderr res) (xr_exit_code res), w')))"

definition quiet_result :: "(client_error + unit) \<times> 'w \<Rightarrow> kp_result \<times> 'w" where
  "quiet_result r = (case r of (Inl e, w') \<Rightarrow> (kp_fail (Sdk e), w') | (Inr _, w') \<Rightarrow> (kp_ok [] [] 0, w'))"

definition stop_cmd :: "client \<Rightarrow> 'w transport \<Rightarrow> string \<Rightarrow> 'w \<Rightarrow> kp_result \<times> 'w" where
  "stop_cmd cl tr i w = quiet_result (client_stop cl tr i w)"

definition rm_cmd :: "client \<Rightarrow> 'w transport \<Rightarrow> string \<Rightarrow> 'w \<Rightarrow> kp_result \<times> 'w" where
  "rm_cmd cl tr i w = quiet_result (client_delete cl tr i w)"

text \<open>\<open>kp inspect\<close> prints the sandbox as indented JSON; an empty name is left out.\<close>

definition indented :: "(string \<times> string) list \<Rightarrow> string" where
  "indented fs = ''{'' @ [newline]
     @ join_with ('','' @ [newline]) (map (\<lambda>(k, v). ''  '' @ json_string k @ '': '' @ json_string v) fs) @ [newline] @ ''}'' @ [newline]"

definition inspect_cmd :: "client \<Rightarrow> 'w transport \<Rightarrow> string \<Rightarrow> 'w \<Rightarrow> kp_result \<times> 'w" where
  "inspect_cmd cl tr i w =
     (case client_get cl tr i w of
        (Inl e, w') \<Rightarrow> (kp_fail (Sdk e), w')
      | (Inr sb, w') \<Rightarrow>
          (kp_ok (indented ([(''id'', as_id sb)] @ (if as_name sb = [] then [] else [(''name'', as_name sb)])
             @ [(''image'', as_image sb), (''state'', as_state sb)])) [] 0, w'))"

definition logs_cmd :: "client \<Rightarrow> 'w transport \<Rightarrow> bool \<Rightarrow> string \<Rightarrow> int \<Rightarrow> 'w \<Rightarrow> kp_result \<times> 'w" where
  "logs_cmd cl tr follow i n w =
     (if follow then
        (case client_logs_stream cl tr i n terminal w of
           (err, out, w') \<Rightarrow>
             (\<lparr> kr_err = map_option Sdk err, kr_stdout = stream_output Stdout out, kr_stderr = stream_output Stderr out,
                kr_code = 0 \<rparr>, w'))
      else
        (case client_logs cl tr i n w of
           (Inl e, w') \<Rightarrow> (kp_fail (Sdk e), w')
         | (Inr s, w') \<Rightarrow> (kp_ok s [] 0, w')))"

section \<open>watch\<close>

text \<open>The lines of a watch, without their time of day. Both loops end with the error of a poll, or
  quietly when the context ends; \<open>None\<close>: still watching when the script ends.\<close>

datatype watch_line = NowIn string string string | GoneFrom string string

fun watch_one ::
    "client \<Rightarrow> 'w transport \<Rightarrow> string \<Rightarrow> string \<Rightarrow> 'w pause list \<Rightarrow> 'w
      \<Rightarrow> client_error option option \<times> (string \<times> string) list \<times> 'w" where
  "watch_one cl tr i prev script w =
     (case client_get cl tr i w of
        (Inl e, w') \<Rightarrow> (Some (Some e), [], w')
      | (Inr sb, w') \<Rightarrow>
          (let ls = (if as_state sb \<noteq> prev then [(short (as_id sb), as_state sb)] else []);
               prev' = (if as_state sb \<noteq> prev then as_state sb else prev)
           in case script of
                [] \<Rightarrow> (None, ls, w')
              | Done _ # _ \<Rightarrow> (Some None, ls, w')
              | Tick f # rest \<Rightarrow>
                  (case watch_one cl tr i prev' rest (f w') of (r, ls', w'') \<Rightarrow> (r, ls @ ls', w''))))"

declare watch_one.simps [simp del]

text \<open>Reading a missing key of a Go map gives the empty string.\<close>

definition prev_state :: "smap \<Rightarrow> string \<Rightarrow> string" where
  "prev_state prev i = (case map_of prev i of None \<Rightarrow> [] | Some s \<Rightarrow> s)"

fun watch_changes :: "api_sandbox list \<Rightarrow> smap \<Rightarrow> watch_line list \<times> smap" where
  "watch_changes [] prev = ([], prev)"
| "watch_changes (sb # sbs) prev =
     (if prev_state prev (as_id sb) \<noteq> as_state sb then
        (case watch_changes sbs (AList.update (as_id sb) (as_state sb) prev) of
           (ls, p) \<Rightarrow> (NowIn (short (as_id sb)) (as_state sb) (as_image sb) # ls, p))
      else watch_changes sbs prev)"

definition watch_gone :: "string set \<Rightarrow> smap \<Rightarrow> watch_line list \<times> smap" where
  "watch_gone seen prev =
     (map (\<lambda>(i, s). GoneFrom (short i) s) (filter (\<lambda>(i, _). i \<notin> seen) prev), filter (\<lambda>(i, _). i \<in> seen) prev)"

definition watch_poll :: "smap \<Rightarrow> api_sandbox list \<Rightarrow> watch_line list \<times> smap" where
  "watch_poll prev sbs =
     (case watch_changes (sort_key as_id sbs) prev of (ls, prev1) \<Rightarrow>
      case watch_gone (set (map as_id sbs)) prev1 of (gone, prev2) \<Rightarrow> (ls @ gone, prev2))"

fun watch_all ::
    "client \<Rightarrow> 'w transport \<Rightarrow> smap \<Rightarrow> 'w pause list \<Rightarrow> 'w
      \<Rightarrow> client_error option option \<times> watch_line list list \<times> 'w" where
  "watch_all cl tr prev script w =
     (case client_list cl tr w of
        (Inl e, w') \<Rightarrow> (Some (Some e), [], w')
      | (Inr sbs, w') \<Rightarrow>
          (case watch_poll prev sbs of (ls, prev') \<Rightarrow>
           case script of
             [] \<Rightarrow> (None, [ls], w')
           | Done _ # _ \<Rightarrow> (Some None, [ls], w')
           | Tick f # rest \<Rightarrow>
               (case watch_all cl tr prev' rest (f w') of (r, lss, w'') \<Rightarrow> (r, ls # lss, w''))))"

declare watch_all.simps [simp del]

section \<open>What a watch prints\<close>

text \<open>The polls that a watch makes, and what changed between two of them.\<close>

fun list_polls :: "client \<Rightarrow> 'w transport \<Rightarrow> 'w pause list \<Rightarrow> 'w \<Rightarrow> api_sandbox list list" where
  "list_polls cl tr script w =
     (case client_list cl tr w of
        (Inl e, w') \<Rightarrow> []
      | (Inr sbs, w') \<Rightarrow> sbs # (case script of Tick f # rest \<Rightarrow> list_polls cl tr rest (f w') | _ \<Rightarrow> []))"

declare list_polls.simps [simp del]

definition state_in :: "api_sandbox list \<Rightarrow> string \<rightharpoonup> string" where
  "state_in sbs = map_of (map (\<lambda>sb. (as_id sb, as_state sb)) sbs)"

definition reported :: "(string \<rightharpoonup> string) \<Rightarrow> api_sandbox list \<Rightarrow> watch_line list \<Rightarrow> bool" where
  "reported old sbs ls \<longleftrightarrow> (\<exists>gone.
     ls = map (\<lambda>sb. NowIn (short (as_id sb)) (as_state sb) (as_image sb))
            (filter (\<lambda>sb. old (as_id sb) \<noteq> Some (as_state sb)) (sort_key as_id sbs))
          @ map (\<lambda>(i, s). GoneFrom (short i) s) gone
     \<and> distinct (map fst gone)
     \<and> set gone = {(i, s). old i = Some s \<and> state_in sbs i = None})"

definition plain_poll :: "api_sandbox list \<Rightarrow> bool" where
  "plain_poll sbs \<longleftrightarrow> distinct (map as_id sbs) \<and> (\<forall>sb \<in> set sbs. as_state sb \<noteq> [])"

definition tracks :: "smap \<Rightarrow> (string \<rightharpoonup> string) \<Rightarrow> bool" where
  "tracks prev old \<longleftrightarrow> distinct (map fst prev) \<and> map_of prev = old \<and> (\<forall>s \<in> ran old. s \<noteq> [])"

lemma watch_changes_facts:
  assumes "distinct (map as_id sbs)" and "\<forall>sb \<in> set sbs. as_state sb \<noteq> []" and "watch_changes sbs prev = (ls, prev')"
    and "distinct (map fst prev)"
  shows "ls = map (\<lambda>sb. NowIn (short (as_id sb)) (as_state sb) (as_image sb))
        (filter (\<lambda>sb. map_of prev (as_id sb) \<noteq> Some (as_state sb)) sbs)
    \<and> map_of prev' = map_of prev ++ state_in sbs \<and> distinct (map fst prev')"
  using assms
proof (induction sbs arbitrary: prev ls)
  case Nil
  then show ?case by (simp add: state_in_def)
next
  case (Cons sb sbs)
  have fresh: "\<forall>x \<in> set sbs. as_id x \<noteq> as_id sb"
    using Cons.prems(1) by (simp add: image_iff) metis
  have st: "state_in (sb # sbs) = (state_in sbs)(as_id sb \<mapsto> as_state sb)" by (simp add: state_in_def)
  have none: "state_in sbs (as_id sb) = None"
    using fresh by (force simp: state_in_def map_of_eq_None_iff)
  show ?case
  proof (cases "prev_state prev (as_id sb) \<noteq> as_state sb")
    case True
    let ?prev = "AList.update (as_id sb) (as_state sb) prev"
    obtain ls1 where rec: "watch_changes sbs ?prev = (ls1, prev')"
      "ls = NowIn (short (as_id sb)) (as_state sb) (as_image sb) # ls1"
      using Cons.prems(3) True by (auto split: prod.splits)
    have "map_of prev (as_id sb) \<noteq> Some (as_state sb)" using True by (auto simp: prev_state_def)
    moreover have "filter (\<lambda>x. map_of ?prev (as_id x) \<noteq> Some (as_state x)) sbs
        = filter (\<lambda>x. map_of prev (as_id x) \<noteq> Some (as_state x)) sbs"
      using fresh by (intro filter_cong) auto
    moreover have add: "map_of ?prev ++ state_in sbs = map_of prev ++ state_in (sb # sbs)"
      using none by (auto simp: st map_add_def fun_eq_iff split: option.split)
    moreover have "ls1 = map (\<lambda>sb. NowIn (short (as_id sb)) (as_state sb) (as_image sb))
        (filter (\<lambda>x. map_of ?prev (as_id x) \<noteq> Some (as_state x)) sbs)
      \<and> map_of prev' = map_of ?prev ++ state_in sbs \<and> distinct (map fst prev')"
      using Cons.IH [OF _ _ rec(1)] Cons.prems by (simp add: fun_upd_def)
    ultimately show ?thesis using rec(2) by (simp only: filter.simps not_False_eq_True if_True list.map simp_thms)
  next
    case False
    then have old: "map_of prev (as_id sb) = Some (as_state sb)"
      using Cons.prems(2) by (auto simp: prev_state_def split: option.splits)
    have "map_of prev ++ state_in sbs = map_of prev ++ state_in (sb # sbs)"
      using none old by (auto simp: st map_add_def fun_eq_iff split: option.split)
    then show ?thesis using Cons False old by simp
  qed
qed

lemma state_in_sort: "distinct (map as_id sbs) \<Longrightarrow> state_in (sort_key as_id sbs) = state_in sbs"
  unfolding state_in_def
  by (rule map_of_inject_set [THEN iffD2]) (simp_all add: comp_def distinct_map)

lemma watch_poll_reports:
  assumes "plain_poll sbs" and "tracks prev old" and "watch_poll prev sbs = (ls, prev')"
  shows "reported old sbs ls \<and> tracks prev' (state_in sbs)"
proof -
  have sorted: "distinct (map as_id (sort_key as_id sbs))" "\<forall>sb \<in> set (sort_key as_id sbs). as_state sb \<noteq> []"
    using assms(1) by (simp_all add: plain_poll_def distinct_map)
  have old: "distinct (map fst prev)" "map_of prev = old" using assms(2) by (simp_all add: tracks_def)
  obtain ls1 prev1 where ch: "watch_changes (sort_key as_id sbs) prev = (ls1, prev1)" by fastforce
  note f = watch_changes_facts [OF sorted ch old(1), unfolded old(2)]
  have dist: "distinct (map as_id sbs)" using assms(1) by (simp add: plain_poll_def)
  have p1: "map_of prev1 = old ++ state_in sbs" "distinct (map fst prev1)"
    using f by (simp_all add: state_in_sort [OF dist])
  let ?seen = "set (map as_id sbs)" and ?gone = "filter (\<lambda>(i, _). i \<notin> set (map as_id sbs)) prev1"
  have out: "ls = ls1 @ map (\<lambda>(i, s). GoneFrom (short i) s) ?gone" "prev' = filter (\<lambda>(i, _). i \<in> ?seen) prev1"
    using assms(3) ch by (auto simp: watch_poll_def watch_gone_def)
  have dom: "i \<in> ?seen \<longleftrightarrow> state_in sbs i \<noteq> None" for i
    by (auto simp: state_in_def map_of_eq_None_iff image_image)
  have mem: "(i, s) \<in> set prev1 \<longleftrightarrow> (old ++ state_in sbs) i = Some s" for i s
    using p1 by (metis map_of_eq_Some_iff)
  have "set ?gone = {(i, s). old i = Some s \<and> state_in sbs i = None}"
    unfolding dom by (auto simp: mem map_add_def split: option.splits)
  moreover have "distinct (map fst ?gone)" "distinct (map fst prev')"
    using p1(2) by (simp_all add: out distinct_map_filter)
  moreover have "map_of prev' = state_in sbs"
  proof
    fix i
    have "map_of prev' i = (if i \<in> ?seen then map_of prev1 i else None)"
      unfolding out by (induction prev1) auto
    then show "map_of prev' i = state_in sbs i"
      using dom [of i] by (auto simp: p1 map_add_def split: option.splits)
  qed
  moreover have "\<forall>s \<in> ran (state_in sbs). s \<noteq> []"
    using assms(1) by (fastforce simp: plain_poll_def state_in_def ran_def dest: map_of_SomeD)
  ultimately show ?thesis using f out(1) unfolding reported_def tracks_def by blast
qed

text \<open>\<open>kp watch\<close> prints exactly the changes. As long as the polls list each sandbox once and with a
  state, the first one prints every sandbox, and each later one prints, in the order of the
  identifiers, the sandboxes whose state is not the one of the poll before (new ones included), then
  one removal with the last state for every sandbox that is gone, and nothing else; there is one report
  per successful poll.\<close>

theorem watch_reports_changes:
  assumes "\<forall>sbs \<in> set (list_polls cl tr script w). plain_poll sbs"
    and "watch_all cl tr [] script w = (r, reports, w')"
  shows "list_all2 (\<lambda>(old, sbs) ls. reported old sbs ls)
    (zip (Map.empty # map state_in (list_polls cl tr script w)) (list_polls cl tr script w)) reports"
proof -
  have gen: "\<forall>sbs \<in> set (list_polls cl tr script w). plain_poll sbs \<Longrightarrow> tracks prev old \<Longrightarrow>
      watch_all cl tr prev script w = (r, reports, w') \<Longrightarrow>
      list_all2 (\<lambda>(old, sbs) ls. reported old sbs ls)
        (zip (old # map state_in (list_polls cl tr script w)) (list_polls cl tr script w)) reports"
    for prev old r reports w'
  proof (induction cl tr script w arbitrary: prev old r reports w' rule: list_polls.induct)
    case (1 cl tr script w)
    obtain res w1 where l: "client_list cl tr w = (res, w1)" by fastforce
    note polls = list_polls.simps [of cl tr script w] and all = watch_all.simps [of cl tr prev script w]
    show ?case
    proof (cases res)
      case (Inl e)
      then show ?thesis using 1(4) l by (simp add: polls all)
    next
      case (Inr sbs)
      obtain ls prev' where p: "watch_poll prev sbs = (ls, prev')" by fastforce
      have "plain_poll sbs" using 1(2) l Inr by (simp add: polls)
      note rep = watch_poll_reports [OF this 1(3) p]
      show ?thesis
      proof (cases script)
        case Nil
        have "list_polls cl tr script w = [sbs]" "reports = [ls]"
          using 1(4) l Inr p unfolding polls all by (simp_all add: Nil)
        then show ?thesis using rep by simp
      next
        case (Cons x rest)
        show ?thesis
        proof (cases x)
          case (Tick f)
          obtain r1 lss w2 where rec: "watch_all cl tr prev' rest (f w1) = (r1, lss, w2)"
            by (cases "watch_all cl tr prev' rest (f w1)")
          have now: "list_polls cl tr script w = sbs # list_polls cl tr rest (f w1)" "reports = ls # lss"
            using 1(4) l Inr p rec unfolding polls all by (simp_all add: Cons Tick)
          have "\<forall>sbs \<in> set (list_polls cl tr rest (f w1)). plain_poll sbs" using 1(2) now(1) by simp
          from 1(1) [OF l [symmetric] Inr Cons Tick this conjunct2 [OF rep] rec] rep show ?thesis
            by (simp add: now)
        next
          case (Done e)
          have "list_polls cl tr script w = [sbs]" "reports = [ls]"
            using 1(4) l Inr p unfolding polls all by (simp_all add: Cons Done)
          then show ?thesis using rep by simp
        qed
      qed
    qed
  qed
  have "tracks [] Map.empty" by (simp add: tracks_def)
  from gen [OF assms(1) this assms(2)] show ?thesis .
qed

text \<open>A server with one sandbox that has run, then is stopped, then is gone.\<close>

definition demo_tr :: "nat transport" where
  "demo_tr hq n =
     (Inr \<lparr> hs_status = 200,
        hs_body = json_text (JArr (if n < 2
          then [sandbox_json \<lparr> as_id = ''u1'', as_name = [], as_image = ''alpine'',
                  as_state = (if n = 0 then ''running'' else ''stopped'') \<rparr>]
          else [])),
        hs_read_err = None \<rparr>, n)"

lemma demo_tr_list:
  "client_list (new_client ''http://kpd'' []) demo_tr n =
    (Inr (if n < 2 then [\<lparr> as_id = ''u1'', as_name = [], as_image = ''alpine'',
       as_state = (if n = 0 then ''running'' else ''stopped'') \<rparr>] else []), n)"
proof -
  have ok: "json_ok (sandbox_json a)" for a by (auto simp: sandbox_json_def omit_empty_def)
  have read: "sandbox_of_json (sandbox_json a) = Some a" for a
    by (simp add: sandbox_json_def omit_empty_def to_lower_def lower_char_def)
  have "json_decode (json_text (JArr (map sandbox_json l))) = Decoded (JArr (map sandbox_json l))" for l
    by (rule json_text_decode) (simp add: ok)
  from this [of "[\<lparr> as_id = ''u1'', as_name = [], as_image = ''alpine'',
       as_state = (if n = 0 then ''running'' else ''stopped'') \<rparr>]"] this [of "[]"] show ?thesis
    by (simp add: client_list_def client_do_def demo_tr_def read del: json_text.simps sandbox_of_json.simps)
qed

theorem watch_reports_changes_witness:
  "fst (snd (watch_all (new_client ''http://kpd'' []) demo_tr [] [Tick Suc, Tick Suc] 0))
    = [[NowIn ''u1'' ''running'' ''alpine''], [NowIn ''u1'' ''stopped'' ''alpine''], [GoneFrom ''u1'' ''stopped'']]"
proof -
  let ?c = "new_client ''http://kpd'' []"
  obtain r reports w' where run: "watch_all ?c demo_tr [] [Tick Suc, Tick Suc] 0 = (r, reports, w')"
    by (cases "watch_all ?c demo_tr [] [Tick Suc, Tick Suc] 0")
  have polls: "list_polls ?c demo_tr [Tick Suc, Tick Suc] 0 =
      [[\<lparr> as_id = ''u1'', as_name = [], as_image = ''alpine'', as_state = ''running'' \<rparr>],
       [\<lparr> as_id = ''u1'', as_name = [], as_image = ''alpine'', as_state = ''stopped'' \<rparr>], []]"
    by (simp add: list_polls.simps demo_tr_list)
  have sets: "{(i, s). (if i = ''u1'' then Some ''stopped'' else None) = Some s} = {(''u1'', ''stopped'')}"
    "{(i, s). (if i = ''u1'' then Some ''running'' else None) = Some s \<and>
        (if i = ''u1'' then Some ''stopped'' else None) = (None :: string option)} = {}"
    by (auto split: if_splits)
  have one: "gone = [x]" if "set gone = {x}" "distinct (map fst gone)" for gone :: "(string \<times> string) list" and x
    using that by (cases gone; cases "tl gone") auto
  have "list_all2 (\<lambda>(old, sbs) ls. reported old sbs ls)
      (zip (Map.empty # map state_in (list_polls ?c demo_tr [Tick Suc, Tick Suc] 0))
         (list_polls ?c demo_tr [Tick Suc, Tick Suc] 0)) reports"
    by (rule watch_reports_changes [OF _ run]) (simp add: polls plain_poll_def)
  then have "reports = [[NowIn ''u1'' ''running'' ''alpine''], [NowIn ''u1'' ''stopped'' ''alpine''], [GoneFrom ''u1'' ''stopped'']]"
    unfolding polls
    by (auto simp: list_all2_Cons1 reported_def state_in_def short_def sets dest!: one)
  then show ?thesis using run by simp
qed

end
