(* ===== verification/Terminal.thy ===== *)
theory Terminal
  imports Proxy Cli Remote
begin

text \<open>
  The \<open>main\<close> of \<open>cmd/kp\<close>: the global flags over the environment, the command, what the process writes
  and its exit status, and the commands against a running \<open>kpd\<close>. \<open>cobra\<close> has parsed the arguments and
  checked their number; the completion scripts it writes are the argument \<open>gen\<close>.
\<close>

section \<open>Commands\<close>

record kp_flags =
  kf_addr :: "string option"
  kf_token :: "string option"

definition kp_client :: "environ \<Rightarrow> kp_flags \<Rightarrow> client" where
  "kp_client env fl = new_client
     (case kf_addr fl of None \<Rightarrow> env_or env ''KPD_ADDR'' ''http://127.0.0.1:8080'' | Some a \<Rightarrow> a)
     (case kf_token fl of None \<Rightarrow> getenv env ''KPD_TOKEN'' | Some t \<Rightarrow> t)"

datatype kp_command =
    KpLs
  | KpRun sdk_create_options bool
  | KpExec bool string "string list"
  | KpStop string
  | KpRm string
  | KpInspect string
  | KpLogs bool string int
  | KpWatch "string option" duration
  | KpCompletion string

text \<open>Tables are shown as their cells, a watch as its lines without the time of day.\<close>

datatype kp_shown =
    Shown string
  | ShownTable listing
  | ShownStates "(string \<times> string) list"
  | ShownChanges "watch_line list list"

datatype kp_outcome = Exited kp_shown string int | Panicked string

definition kp_ended :: "(client_error \<Rightarrow> string) \<Rightarrow> kp_shown \<Rightarrow> kp_result \<Rightarrow> kp_outcome" where
  "kp_ended detail shown r = (case kp_exit detail r of (msg, code) \<Rightarrow> Exited shown (kr_stderr r @ msg) code)"

definition kp_text :: "(client_error \<Rightarrow> string) \<Rightarrow> kp_result \<Rightarrow> kp_outcome" where
  "kp_text detail r = kp_ended detail (Shown (kr_stdout r)) r"

definition kp_result_of :: "client_error option \<Rightarrow> kp_result" where
  "kp_result_of e = (case e of None \<Rightarrow> kp_ok [] [] 0 | Some x \<Rightarrow> kp_fail (Sdk x))"

definition ticker_panic :: string where
  "ticker_panic = ''panic: non-positive interval for NewTicker''"

text \<open>\<open>kp watch\<close>: \<open>time.NewTicker\<close> panics on an interval that is not positive.\<close>

definition watch_cmd ::
    "(client_error \<Rightarrow> string) \<Rightarrow> client \<Rightarrow> 'w transport \<Rightarrow> string option \<Rightarrow> duration \<Rightarrow> 'w pause list \<Rightarrow> 'w
      \<Rightarrow> kp_outcome option \<times> 'w" where
  "watch_cmd detail cl tr target interval script w =
     (if interval \<le>s 0 then (Some (Panicked ticker_panic), w)
      else case target of
        Some i \<Rightarrow>
          (case watch_one cl tr i [] script w of
             (res, ls, w') \<Rightarrow> (map_option (\<lambda>e. kp_ended detail (ShownStates ls) (kp_result_of e)) res, w'))
      | None \<Rightarrow>
          (case watch_all cl tr [] script w of
             (res, lss, w') \<Rightarrow> (map_option (\<lambda>e. kp_ended detail (ShownChanges lss) (kp_result_of e)) res, w')))"

definition completion_cmd ::
    "(client_error \<Rightarrow> string) \<Rightarrow> (string \<Rightarrow> string \<times> string option) \<Rightarrow> string \<Rightarrow> kp_outcome" where
  "completion_cmd detail gen shell =
     (if shell \<in> {''bash'', ''zsh'', ''fish'', ''powershell''} then
        (case gen shell of
           (out, err) \<Rightarrow> kp_ended detail (Shown out) (case err of None \<Rightarrow> kp_ok [] [] 0 | Some e \<Rightarrow> kp_fail (Flags e)))
      else kp_ended detail (Shown []) (kp_fail (Flags (''unsupported shell '' @ go_quote shell))))"

text \<open>\<open>script\<close> is what happens between the polls of a command that waits; \<open>None\<close>: it is still running.\<close>

definition kp_main ::
    "(f64 \<Rightarrow> string option) \<Rightarrow> (client_error \<Rightarrow> string) \<Rightarrow> (string \<Rightarrow> string \<times> string option) \<Rightarrow> environ \<Rightarrow> kp_flags
      \<Rightarrow> kp_command \<Rightarrow> 'w transport \<Rightarrow> 'w pause list \<Rightarrow> 'w \<Rightarrow> kp_outcome option \<times> 'w" where
  "kp_main ff detail gen env fl cmd tr script w =
     (let cl = kp_client env fl; text = map_prod (Some \<circ> kp_text detail) id in
      case cmd of
        KpLs \<Rightarrow>
          (case ls_cmd cl tr w of
             (Inl e, w') \<Rightarrow> (Some (kp_text detail (kp_fail (Sdk e))), w')
           | (Inr l, w') \<Rightarrow> (Some (kp_ended detail (ShownTable l) (kp_ok [] [] 0)), w'))
      | KpRun opts waiting \<Rightarrow> map_prod (map_option (kp_text detail)) id (run_cmd ff cl tr opts waiting script w)
      | KpExec streamed i args \<Rightarrow> text (exec_cmd cl tr streamed i args w)
      | KpStop i \<Rightarrow> text (stop_cmd cl tr i w)
      | KpRm i \<Rightarrow> text (rm_cmd cl tr i w)
      | KpInspect i \<Rightarrow> text (inspect_cmd cl tr i w)
      | KpLogs follow i n \<Rightarrow> text (logs_cmd cl tr follow i n w)
      | KpWatch target interval \<Rightarrow> watch_cmd detail cl tr target interval script w
      | KpCompletion shell \<Rightarrow> (Some (completion_cmd detail gen shell), w))"

section \<open>Ends of commands\<close>

lemma kp_text_simps [simp]:
  "kp_text detail (kp_fail (Sdk e)) = Exited (Shown []) (print_err detail e) 1"
  "kp_text detail (kp_ok out err code) = Exited (Shown out) err code"
  "kp_ended detail shown (kp_ok out err code) = Exited shown err code"
  by (simp_all add: kp_text_def kp_ended_def kp_exit_def kp_fail_def kp_ok_def)

lemma quiet_text [simp]:
  "map_prod (Some \<circ> kp_text detail) id (quiet_result r) =
    (case r of (Inl e, w) \<Rightarrow> (Some (Exited (Shown []) (print_err detail e) 1), w)
     | (Inr _, w) \<Rightarrow> (Some (Exited (Shown []) [] 0), w))"
  by (auto simp: quiet_result_def split: prod.split sum.split)

lemma cut_duration_simps [simp]:
  "xr_exit_code (cut_duration x) = xr_exit_code x" "xr_stdout (cut_duration x) = xr_stdout x"
  "xr_stderr (cut_duration x) = xr_stderr x"
  by (simp_all add: cut_duration_def)

definition cmd_options :: "string list \<Rightarrow> sdk_exec_options" where
  "cmd_options args = \<lparr> se_cmd = args, se_env = [], se_work_dir = [], se_stdin = [] \<rparr>"

text \<open>What the first poll of \<open>kp run\<close> finds: the row of the sandbox, running, unless the store fails.\<close>

context manager_env
begin

lemma created_get:
  assumes "mgr_inv m" and "distinct (map fst (co_env opts))" and "distinct (map fst (co_labels opts))"
    and cr: "create rt st uuid now opts m = ((sb, None), m')" and gs: "get_sandbox st uuid m' = (res, m'')"
  shows "sb_id sb = uuid \<and> (case res of
      Inr sb' \<Rightarrow> sb_id sb' = uuid \<and> sb_state sb' = state_running
    | Inl e \<Rightarrow> \<not> says_not_found e)"
proof -
  note facts = create_facts [OF assms(1-3) cr]
  then have inv: "mgr_inv m'" by blast
  obtain rs where made: "created_running rt rs uuid now m sb m'" "put_at m sb m'" "sb_id sb = uuid"
    using facts by (auto split: sum.splits)
  then obtain stored where stored: "same_sandbox stored sb" "view (m_store m') uuid = Some stored"
    unfolding put_at_def by auto
  obtain c where "sb = (new_sandbox rs uuid now)\<lparr> sb_runtime_id := c, sb_state := state_running \<rparr>"
    using made(1) unfolding created_running_def by blast
  then have running: "sb_state sb = state_running" by simp
  have row: "sb_id stored = uuid" "sb_state stored = state_running"
    using made(3) running stored(1) by (simp_all add: same_sandbox_def)
  obtain gres s' where g: "st_get st uuid (m_store m') = (gres, s')" by fastforce
  have "case gres of Inr x \<Rightarrow> view (m_store m') uuid = Some x | Inl e \<Rightarrow> e = ErrNotFound \<longrightarrow> view (m_store m') uuid = None"
    using get [OF inv_sinv(1) [OF inv] g] by simp
  then show ?thesis
    using gs g stored(2) row made(3) by (auto simp: get_sandbox_def says_not_found_def split: sum.splits)
qed

end

section \<open>Properties\<close>



definition demo_env :: environ where
  "demo_env = [(''KPD_TOKEN'', ''s3cret'')]"

definition demo_kp_flags :: kp_flags where
  "demo_kp_flags = \<lparr> kf_addr = Some ''http://127.0.0.1:8080/'', kf_token = None \<rparr>"

lemma demo_kp_client: "demo_client = kp_client demo_env demo_kp_flags"
  by (simp add: demo_client_def kp_client_def demo_env_def demo_kp_flags_def getenv_def)


text \<open>A sandbox that is created, and found running by the poll.\<close>

definition demo_run_options :: sdk_create_options where
  "demo_run_options = \<lparr> so_name = ''box'', so_profile = [], so_image = ''alpine:latest'', so_cmd = [], so_env = [],
     so_cpus = Fin 0, so_memory_mb = 0, so_ttl = 0 \<rparr>"


end
