(* ===== verification/Streaming.thy ===== *)
theory Streaming
  imports Terminal Streams Backend
begin

text \<open>
  A streamed exec against a buffered one, from the command line through the SDK, the event stream, the
  HTTP handlers and the manager to the Docker backend: \<open>kp exec --stream\<close> and \<open>kp exec\<close> of the same
  command in the same state of a daemon.
\<close>

section \<open>The backend and the manager\<close>

text \<open>What a buffered exec collects of the chunks that a streamed one writes.\<close>

definition collected :: "entry list \<Rightarrow> exec_result \<Rightarrow> exec_result" where
  "collected chunks x = x\<lparr> xr_stdout := stream_text Stdout chunks, xr_stderr := stream_text Stderr chunks \<rparr>"

lemma filter_writers [simp]:
  "filter (\<lambda>e. has_writer (exec_spec_of (exec_options_of True req)) (e_stream e)) out = out"
  "filter (\<lambda>e. has_writer (exec_spec_of (exec_options_of False req)) (e_stream e)) out = []"
  by (auto simp: has_writer_def exec_spec_of_def exec_options_of_def filter_id_conv filter_empty_conv split: stream.split)

lemma docker_exec_buffered:
  assumes "docker_exec dk i (exec_spec_of (exec_options_of True req)) d = (chunks, res, d')"
  shows "docker_exec dk i (exec_spec_of (exec_options_of False req)) d = ([], map_sum id (collected chunks) res, d')"
proof -
  have "exec_config_of (exec_spec_of (exec_options_of False req)) = exec_config_of (exec_spec_of (exec_options_of True req))"
    "xs_stdin (exec_spec_of (exec_options_of b req)) = (if er_stdin req = [] then None else Some (er_stdin req))"
    "xs_stdout (exec_spec_of (exec_options_of b req)) = b" "xs_stderr (exec_spec_of (exec_options_of b req)) = b" for b
    by (simp_all add: exec_spec_of_def exec_options_of_def exec_config_of_def)
  then show ?thesis
    using assms unfolding docker_exec_def
    by (auto simp: collected_def Let_def split: sum.splits prod.splits option.splits)
qed

text \<open>The managers after the two differ at most in the log buffers.\<close>

lemma exec_buffered:
  assumes "exec (docker_ops env dk) st i (exec_options_of True req) now m = ((chunks, outcome), m')"
  shows "\<exists>ls. exec (docker_ops env dk) st i (exec_options_of False req) now m
    = (([], map_sum id (collected chunks) outcome), m'\<lparr> m_logs := ls \<rparr>)"
proof -
  obtain g m1 where g: "get_sandbox st i m = (g, m1)" by fastforce
  have keep: "\<exists>ls. m = m\<lparr> m_logs := ls \<rparr>" for m :: "('a, 'b) manager"
    by (rule exI [of _ "m_logs m"]) simp
  show ?thesis
  proof (cases "\<exists>sb. g = Inr sb \<and> sb_state sb = state_running")
    case False
    with assms g keep show ?thesis by (auto simp: exec_def split: sum.splits)
  next
    case True
    then obtain sb where sb: "g = Inr sb" "sb_state sb = state_running" by blast
    obtain lb m2 where lb: "log_buffer_for i m1 = (lb, m2)" by fastforce
    obtain cs res d where x: "docker_exec dk (sb_runtime_id sb) (exec_spec_of (exec_options_of True req)) (m_rt m2)
        = (cs, res, d)" by (metis prod_cases3)
    note both = x docker_exec_buffered [OF x]
    have "\<exists>b. fst (exec (docker_ops env dk) st i (exec_options_of False req) now m) = ([], map_sum id (collected chunks) outcome)
        \<and> snd (exec (docker_ops env dk) st i (exec_options_of False req) now m)
          = (case lb of None \<Rightarrow> m2\<lparr> m_rt := d \<rparr> | Some _ \<Rightarrow> set_log_buffer i b (m2\<lparr> m_rt := d \<rparr>))
        \<and> (\<exists>b. m' = (case lb of None \<Rightarrow> m2\<lparr> m_rt := d \<rparr> | Some _ \<Rightarrow> set_log_buffer i b (m2\<lparr> m_rt := d \<rparr>)))"
      using assms unfolding exec_def g sb prod.case sum.case lb docker_ops_def runtime_ops.select_convs both
      by (cases lb; cases res; clarsimp simp: Let_def; blast?)
    then show ?thesis by (cases lb) (auto simp: set_log_buffer_def prod_eq_iff intro: exI [of _ "m_logs m2"])
  qed
qed

section \<open>The terminal\<close>

text \<open>The bytes of a stream as the event stream hands them over.\<close>

definition streamed_text :: "stream \<Rightarrow> entry list \<Rightarrow> string" where
  "streamed_text s es = concat (map (\<lambda>e. sse_text (e_data e)) (filter (\<lambda>e. e_stream e = s) es))"

lemma sse_text_Nil [simp]: "sse_text [] = []"
  by (rule sse_text_plain) (simp add: sse_plain_def)

lemma received_text:
  "stream_output s (received terminal (filter (\<lambda>c. e_data c \<noteq> []) chunks)) = streamed_text s chunks"
  by (induction chunks) (auto simp: received_def stream_output_def streamed_text_def terminal_def)

lemma streamed_text_plain:
  "\<forall>c \<in> set chunks. sse_plain (e_data c) \<Longrightarrow> streamed_text s chunks = stream_text s chunks"
  by (induction chunks) (auto simp: streamed_text_def stream_text_def sse_text_plain)

section \<open>Properties\<close>


text \<open>A daemon whose commands print a line, warn on the error stream and exit with 3.\<close>

definition chatty_docker :: "memo_daemon docker" where
  "chatty_docker = memo_docker\<lparr>
     dk_exec_attach := (\<lambda>i s d. (Inr ([\<lparr> e_stream = Stdout, e_data = ''hello'', e_when = 0 \<rparr>,
       \<lparr> e_stream = Stderr, e_data = ''warning'', e_when = 0 \<rparr>], None), d)),
     dk_exec_inspect := (\<lambda>i d. Inr 3) \<rparr>"


end
