(* ===== verification/Examples.thy ===== *)
theory Examples
  imports Proxy Cli
begin

text \<open>
  The programs under \<open>examples\<close>, over the SDK and any transport. A program prints, may end early with
  \<open>log.Fatalf\<close> (which exits with status 1 and runs no deferred function), may panic (status 2, the
  deferred functions run), or returns from \<open>main\<close>. The line that \<open>log\<close> writes is given without its
  date. \<open>detail\<close> is the text of errors that come from libraries.
\<close>

section \<open>Durations\<close>

text \<open>\<open>Duration.String\<close>. \<open>frac_text\<close> writes the last \<open>prec\<close> decimal digits as a fraction, without
  trailing zeros, and nothing for a fraction of zero.\<close>

definition digit_at :: "nat \<Rightarrow> nat \<Rightarrow> char" where
  "digit_at n k = char_of (48 + n div 10 ^ k mod 10)"

definition frac_text :: "nat \<Rightarrow> nat \<Rightarrow> string" where
  "frac_text prec n =
     (let ds = trim_right (map (digit_at n) (rev [0..<prec])) {CHR ''0''}
      in if ds = [] then [] else CHR ''.'' # ds)"

definition unsigned_text :: "nat \<Rightarrow> string" where
  "unsigned_text u =
     (if u = 0 then ''0s''
      else if u < 1000 then itoa (int u) @ ''ns''
      else if u < 1000000 then itoa (int (u div 1000)) @ frac_text 3 u @ [CHR 0xC2, CHR 0xB5, CHR ''s'']
      else if u < 1000000000 then itoa (int (u div 1000000)) @ frac_text 6 u @ ''ms''
      else
        (let s = u div 1000000000; secs = itoa (int (s mod 60)) @ frac_text 9 u @ ''s''; m = s div 60
         in if m = 0 then secs
            else (let mins = itoa (int (m mod 60)) @ ''m'' @ secs; h = m div 60
                  in if h = 0 then mins else itoa (int h) @ ''h'' @ mins)))"

definition duration_text :: "duration \<Rightarrow> string" where
  "duration_text d =
     (if d <s 0 then ''-'' @ unsigned_text (nat (- sint d)) else unsigned_text (nat (sint d)))"

section \<open>Programs\<close>

record example_result =
  er_out :: string
  er_fatal :: "string option"
  er_code :: int

definition fatalf :: "string \<Rightarrow> string \<Rightarrow> example_result" where
  "fatalf out msg = \<lparr> er_out = out, er_fatal = Some msg, er_code = 1 \<rparr>"

definition returned :: "string \<Rightarrow> example_result" where
  "returned out = \<lparr> er_out = out, er_fatal = None, er_code = 0 \<rparr>"

definition panicked :: "string \<Rightarrow> example_result" where
  "panicked out = \<lparr> er_out = out, er_fatal = None, er_code = 2 \<rparr>"

text \<open>The deferred function of both programs deletes the sandbox, ignoring the result.\<close>

definition deferred_delete :: "client \<Rightarrow> 'w transport \<Rightarrow> string \<Rightarrow> 'w \<Rightarrow> 'w" where
  "deferred_delete cl tr i w = snd (client_delete cl tr i w)"

definition ln :: "string \<Rightarrow> string" where
  "ln s = s @ [newline]"

definition example_client :: "environ \<Rightarrow> client" where
  "example_client env = new_client (env_or env ''KPD_ADDR'' ''http://127.0.0.1:8080'') (env_or env ''KPD_TOKEN'' [])"

definition example_create :: "string \<Rightarrow> sdk_create_options" where
  "example_create img = \<lparr> so_name = [], so_profile = [], so_image = img, so_cmd = [], so_env = [], so_cpus = Fin 0,
     so_memory_mb = 0, so_ttl = 0 \<rparr>"

definition example_exec :: "string list \<Rightarrow> sdk_exec_options" where
  "example_exec cmd = \<lparr> se_cmd = cmd, se_env = [], se_work_dir = [], se_stdin = [] \<rparr>"

text \<open>What writers that put a prefix before every chunk print.\<close>

definition prefixed_out :: "(stream \<Rightarrow> string) \<Rightarrow> (stream \<times> string) list \<Rightarrow> string" where
  "prefixed_out pre chunks = concat (map (\<lambda>(s, c). pre s @ c) chunks)"

section \<open>quickstart\<close>

definition prefix_writer :: "stream \<Rightarrow> string" where
  "prefix_writer s = (case s of Stdout \<Rightarrow> ''  out| '' | Stderr \<Rightarrow> ''  err| '')"

definition quickstart_stream ::
    "(client_error \<Rightarrow> string) \<Rightarrow> client \<Rightarrow> 'w transport \<Rightarrow> string \<Rightarrow> string \<Rightarrow> 'w \<Rightarrow> example_result \<times> 'w" where
  "quickstart_stream detail cl tr i out w =
     (case client_exec_stream cl tr i
             (example_exec [''sh'', ''-c'', ''for i in 1 2 3; do echo step $i; sleep 1; done'']) terminal w of
        ((res, err), chunks, w1) \<Rightarrow>
          (let out1 = out @ prefixed_out prefix_writer chunks; deleted = ln (''--- deleted '' @ i @ '' ---'')
           in case err of
                Some e \<Rightarrow> (fatalf out1 (''exec stream: '' @ error_text detail e), w1)
              | None \<Rightarrow>
                  (case res of
                     None \<Rightarrow> (panicked (out1 @ deleted), deferred_delete cl tr i w1)
                   | Some x \<Rightarrow>
                       (returned (out1 @ ln (''exit='' @ itoa (xr_exit_code x) @ '' duration='' @ duration_text (xr_duration x)) @ deleted),
                        deferred_delete cl tr i w1))))"

definition quickstart ::
    "(f64 \<Rightarrow> string option) \<Rightarrow> (client_error \<Rightarrow> string) \<Rightarrow> environ \<Rightarrow> 'w transport \<Rightarrow> 'w \<Rightarrow> example_result \<times> 'w" where
  "quickstart ff detail env tr w =
     (let addr = env_or env ''KPD_ADDR'' ''http://127.0.0.1:8080''; cl = example_client env in
      case client_health cl tr w of
        (Some e, w1) \<Rightarrow> (fatalf [] (''kpd unreachable at '' @ addr @ '': '' @ e), w1)
      | (None, w1) \<Rightarrow>
          (let out1 = ln ''--- create ---'' in
           case client_create ff cl tr (example_create ''alpine:latest'') w1 of
             (Inl e, w2) \<Rightarrow> (fatalf out1 (''create: '' @ error_text detail e), w2)
           | (Inr sb, w2) \<Rightarrow>
               (let out2 = out1 @ ln (''sandbox '' @ as_id sb @ '' state='' @ as_state sb)
                      @ ln ([newline] @ ''--- buffered exec ---'') in
                case client_exec cl tr (as_id sb)
                       (example_exec [''sh'', ''-c'', ''echo hello; echo problem >&2; exit 0'']) w2 of
                  (Inl e, w3) \<Rightarrow> (fatalf out2 (''exec: '' @ error_text detail e), w3)
                | (Inr res, w3) \<Rightarrow>
                    quickstart_stream detail cl tr (as_id sb)
                      (out2 @ ln (''exit='' @ itoa (xr_exit_code res) @ '' duration='' @ duration_text (xr_duration res))
                         @ ln (''stdout: '' @ go_quote (xr_stdout res)) @ ln (''stderr: '' @ go_quote (xr_stderr res))
                         @ ln ([newline] @ ''--- streaming exec (3-second loop) ---'')) w3)))"

section \<open>streaming-pipeline\<close>

definition short8 :: "string \<Rightarrow> string" where
  "short8 i = (if length i > 8 then take 8 i else i)"

definition echo_line :: "string \<Rightarrow> string" where
  "echo_line s = ''echo '' @ [quote] @ s @ [quote]"

definition pipeline_script :: string where
  "pipeline_script = [newline] @ concat (map ln
     [echo_line ''[fetch]    starting'', ''sleep 1'', echo_line ''[fetch]    25%'', ''sleep 1'',
      echo_line ''[fetch]    50%'', ''sleep 1'', echo_line ''[fetch]    75%'',
      echo_line ''[transform] this should appear on stderr'' @ '' >&2'', ''sleep 1'',
      echo_line ''[fetch]    complete'', echo_line ''[report]   writing output'',
      echo_line ''result: 42 records processed''])"

definition tagged_writer :: "stream \<Rightarrow> string" where
  "tagged_writer s = ''    ['' @ (case s of Stdout \<Rightarrow> ''OUT'' | Stderr \<Rightarrow> ''ERR'') @ ''] ''"

definition pipeline_denied :: "(client_error \<Rightarrow> string) \<Rightarrow> string \<Rightarrow> client_error \<Rightarrow> string" where
  "pipeline_denied detail img e =
     (if is_kind KindPolicyDenied e then
        ''policy denied: '' @ error_text detail e @ [newline] @ ''  '' @ arrow @ '' add '' @ go_quote img
          @ '' to images: in kotakpasir.yaml, or use the allowlisted default''
      else if is_kind KindUnauthorized e then
        ''unauthorized: '' @ error_text detail e @ [newline] @ ''  '' @ arrow @ '' set KPD_TOKEN to match the server''
      else ''create: '' @ error_text detail e)"

definition pipeline_stream ::
    "(client_error \<Rightarrow> string) \<Rightarrow> client \<Rightarrow> 'w transport \<Rightarrow> string \<Rightarrow> string \<Rightarrow> 'w \<Rightarrow> example_result \<times> 'w" where
  "pipeline_stream detail cl tr i out w =
     (case client_exec_stream cl tr i (example_exec [''sh'', ''-c'', pipeline_script]) terminal w of
        ((res, err), chunks, w1) \<Rightarrow>
          (let out1 = out @ prefixed_out tagged_writer chunks; cleanup = ln (''>>> cleanup: deleting '' @ short8 i)
           in case err of
                Some e \<Rightarrow> (fatalf out1 (''exec stream: '' @ error_text detail e), w1)
              | None \<Rightarrow>
                  (case res of
                     None \<Rightarrow> (panicked (out1 @ cleanup), deferred_delete cl tr i w1)
                   | Some x \<Rightarrow>
                       (returned (out1 @ ln (''>>> 4/4 finished: exit='' @ itoa (xr_exit_code x)
                          @ '' duration='' @ duration_text (xr_duration x)) @ cleanup),
                        deferred_delete cl tr i w1))))"

text \<open>\<open>script\<close> is what happens between the polls of the wait; \<open>None\<close>: still waiting.\<close>

definition streaming_pipeline ::
    "(f64 \<Rightarrow> string option) \<Rightarrow> (client_error \<Rightarrow> string) \<Rightarrow> environ \<Rightarrow> 'w transport \<Rightarrow> 'w pause list \<Rightarrow> 'w
      \<Rightarrow> example_result option \<times> 'w" where
  "streaming_pipeline ff detail env tr script w =
     (let addr = env_or env ''KPD_ADDR'' ''http://127.0.0.1:8080''; img = env_or env ''IMAGE'' ''alpine:latest'';
          cl = example_client env in
      case client_health cl tr w of
        (Some e, w1) \<Rightarrow> (Some (fatalf [] (''kpd not reachable at '' @ addr @ '': '' @ e)), w1)
      | (None, w1) \<Rightarrow>
          (let out1 = ln (''>>> 1/4 creating sandbox (image='' @ img @ '')'') in
           case client_create ff cl tr (example_create img) w1 of
             (Inl e, w2) \<Rightarrow> (Some (fatalf out1 (pipeline_denied detail img e)), w2)
           | (Inr sb, w2) \<Rightarrow>
               (let out2 = out1 @ ln (''>>> 2/4 waiting for sandbox '' @ short8 (as_id sb) @ '' to be running'') in
                case wait_for cl tr (as_id sb) state_running script w2 of
                  (None, w3) \<Rightarrow> (None, w3)
                | (Some (_, Some e), w3) \<Rightarrow> (Some (fatalf out2 (''waitfor: '' @ error_text detail e)), w3)
                | (Some (None, None), w3) \<Rightarrow> (Some (panicked out2), w3)
                | (Some (Some sb', None), w3) \<Rightarrow>
                    map_prod Some id
                      (pipeline_stream detail cl tr (as_id sb')
                         (out2 @ ln (''    ready: state='' @ as_state sb') @ ln ''>>> 3/4 streaming pipeline'') w3))))"

section \<open>The requests of the programs\<close>

text \<open>A transport that also keeps the requests made through it.\<close>

definition recording :: "'w transport \<Rightarrow> ('w \<times> http_request list) transport" where
  "recording tr q wl = (case tr q (fst wl) of (r, w') \<Rightarrow> (r, (w', snd wl @ [q])))"

text \<open>A streamed exec returns a result or an error: the parser never ends with neither.\<close>

lemma parse_result: "fst (parse_sse wr content e) \<noteq> (None, None)"
proof -
  have check: "sse_check x = Inl r \<Longrightarrow> fst r \<noteq> (None, None)" for x r
    by (auto simp: sse_check_def split: option.splits if_splits prod.splits)
  then have line: "sse_line wr l st = Inl r \<Longrightarrow> fst r \<noteq> (None, None)" for l st r
    by (auto simp: sse_line_def Let_def split: if_splits)
  have lines: "sse_lines wr ls st = Inl r \<Longrightarrow> fst r \<noteq> (None, None)" for ls st r
    by (induction ls arbitrary: st) (auto split: sum.splits dest: line)
  show ?thesis
    unfolding parse_sse_def Let_def
    by (auto split: sum.splits option.splits dest!: lines check)
qed

lemma exec_stream_result: "fst (client_exec_stream cl tr i opts wr w) \<noteq> (None, None)"
proof -
  have none: "parse_sse wr content e = ((res, None), st) \<Longrightarrow> res \<noteq> None" for content e res st
    using parse_result [of wr content e] by auto
  show ?thesis
    by (auto simp: client_exec_stream_def split: sum.splits prod.splits dest: none)
qed

text \<open>The method and the path of the requests of each call, when it makes one.\<close>

definition request_is :: "client \<Rightarrow> string \<Rightarrow> string \<Rightarrow> http_request \<Rightarrow> bool" where
  "request_is cl meth p q \<longleftrightarrow> hq_method q = meth \<and> hq_url q = cl_addr cl @ p"

lemma client_do_recorded:
  "client_do cl (recording tr) dec zero meth p body (w, qs) = (res, wl) \<Longrightarrow>
   \<exists>q. request_is cl meth p q \<and> snd wl = qs @ [q] \<and> client_do cl tr dec zero meth p body w = (res, fst wl)"
  by (auto simp: client_do_def recording_def request_is_def split: prod.splits sum.splits)

lemma health_recorded:
  "client_health cl (recording tr) (w, qs) = (res, wl) \<Longrightarrow> \<exists>q. request_is cl ''GET'' ''/healthz'' q \<and> snd wl = qs @ [q]"
  by (auto simp: client_health_def recording_def request_is_def split: prod.splits sum.splits)

lemma create_recorded:
  "client_create ff cl (recording tr) opts (w, qs) = (res, wl) \<Longrightarrow>
     (\<exists>q. request_is cl ''POST'' ''/v1/sandboxes'' q \<and> snd wl = qs @ [q] \<and> client_create ff cl tr opts w = (res, fst wl))
   \<or> res = Inl MarshalFailed \<and> snd wl = qs"
  unfolding client_create_def
  by (cases "create_body ff opts") (auto dest: client_do_recorded)

lemma exec_recorded:
  "client_exec cl (recording tr) i opts (w, qs) = (res, wl) \<Longrightarrow>
     \<exists>q. request_is cl ''POST'' (''/v1/sandboxes/'' @ i @ ''/exec'') q \<and> snd wl = qs @ [q]"
  unfolding client_exec_def
  by (auto simp: map_prod_def split: prod.splits dest!: client_do_recorded)

lemma exec_stream_recorded:
  "client_exec_stream cl (recording tr) i opts wr (w, qs) = (res, out, wl) \<Longrightarrow>
     \<exists>q. request_is cl ''POST'' (''/v1/sandboxes/'' @ i @ ''/exec/stream'') q \<and> snd wl = qs @ [q]"
  by (auto simp: client_exec_stream_def recording_def request_is_def split: prod.splits sum.splits if_splits)

lemma delete_recorded:
  "\<exists>q. request_is cl ''DELETE'' (''/v1/sandboxes/'' @ i) q \<and> snd (deferred_delete cl (recording tr) i (w, qs)) = qs @ [q]"
proof -
  obtain res wl where d: "client_delete cl (recording tr) i (w, qs) = (res, wl)"
    by (cases "client_delete cl (recording tr) i (w, qs)")
  then show ?thesis unfolding client_delete_def deferred_delete_def by (auto dest: client_do_recorded)
qed

lemma example_end_simps [simp]:
  "er_fatal (fatalf out msg) = Some msg" "er_code (fatalf out msg) = 1" "er_fatal (returned out) = None"
  "er_code (returned out) = 0"
  by (simp_all add: fatalf_def returned_def)

lemma quickstart_stream_requests:
  "case quickstart_stream detail cl (recording tr) i out (w, qs) of (res, (w', qs')) \<Rightarrow>
     if er_fatal res = None
     then er_code res = 0 \<and> (\<exists>x q. hq_method x = ''POST'' \<and> request_is cl ''DELETE'' (''/v1/sandboxes/'' @ i) q \<and> qs' = qs @ [x, q])
     else er_code res = 1 \<and> (\<exists>x. hq_method x = ''POST'' \<and> qs' = qs @ [x])"
proof -
  obtain res err chunks w4 l4 where c4: "client_exec_stream cl (recording tr) i
      (example_exec [''sh'', ''-c'', ''for i in 1 2 3; do echo step $i; sleep 1; done'']) terminal (w, qs)
      = ((res, err), chunks, (w4, l4))" by (metis prod.exhaust)
  obtain x where x: "hq_method x = ''POST''" "l4 = qs @ [x]" using exec_stream_recorded [OF c4] by (auto simp: request_is_def)
  obtain q where q: "request_is cl ''DELETE'' (''/v1/sandboxes/'' @ i) q"
    "snd (deferred_delete cl (recording tr) i (w4, l4)) = l4 @ [q]"
    using delete_recorded [of cl i tr w4 l4] by blast
  obtain w5 l5 where d: "deferred_delete cl (recording tr) i (w4, l4) = (w5, l5)" by fastforce
  show ?thesis
  proof (cases err)
    case (Some e)
    then show ?thesis using c4 x by (simp add: quickstart_stream_def Let_def)
  next
    case None
    then obtain y where "res = Some y"
      using exec_stream_result [of cl "recording tr" i _ terminal "(w, qs)"] c4 by (metis fst_conv not_Some_eq)
    with None c4 d obtain out' where run: "quickstart_stream detail cl (recording tr) i out (w, qs) = (returned out', (w5, l5))"
      by (simp add: quickstart_stream_def Let_def)
    have "\<exists>x q. hq_method x = ''POST'' \<and> request_is cl ''DELETE'' (''/v1/sandboxes/'' @ i) q \<and> l5 = qs @ [x, q]"
      using x q d by auto
    then show ?thesis unfolding run by simp
  qed
qed

section \<open>Properties\<close>

text \<open>C40. What \<open>quickstart\<close> does to the server. Over any transport, a run that ends well has made exactly
  five requests, the last of which deletes the sandbox that its create returned. A run that ends
  with \<open>log.Fatalf\<close> has made a beginning of the first four and no DELETE: when an exec fails, the
  sandbox that was created before is left behind, although its deletion is deferred.\<close>

theorem quickstart_requests:
  "case quickstart ff detail env (recording tr) (w, []) of (res, (w', qs)) \<Rightarrow>
     if er_fatal res = None
     then er_code res = 0 \<and> map hq_method qs = [''GET'', ''POST'', ''POST'', ''POST'', ''DELETE'']
       \<and> (\<exists>w1 sb w2. client_create ff (example_client env) tr (example_create ''alpine:latest'') w1 = (Inr sb, w2)
            \<and> request_is (example_client env) ''DELETE'' (''/v1/sandboxes/'' @ as_id sb) (last qs))
     else er_code res = 1 \<and> prefix (map hq_method qs) [''GET'', ''POST'', ''POST'', ''POST'']"
proof -
  let ?cl = "example_client env"
  obtain h w1 l1 where c1: "client_health ?cl (recording tr) (w, []) = (h, (w1, l1))" by (metis prod.exhaust)
  have l1: "map hq_method l1 = [''GET'']" using health_recorded [OF c1] by (auto simp: request_is_def)
  obtain sbr w2 l2 where c2: "client_create ff ?cl (recording tr) (example_create ''alpine:latest'') (w1, l1) = (sbr, (w2, l2))"
    by (metis prod.exhaust)
  note l2 = create_recorded [OF c2]
  obtain xr w3 l3 where c3: "client_exec ?cl (recording tr) (case sbr of Inr sb \<Rightarrow> as_id sb | Inl e \<Rightarrow> [])
      (example_exec [''sh'', ''-c'', ''echo hello; echo problem >&2; exit 0'']) (w2, l2) = (xr, (w3, l3))"
    by (metis prod.exhaust)
  note l3 = exec_recorded [OF c3]
  show ?thesis
  proof (cases h)
    case (Some e)
    then show ?thesis using c1 l1 by (simp add: quickstart_def Let_def)
  next
    case h: None
    show ?thesis
    proof (cases sbr)
      case (Inl e)
      then show ?thesis using c1 c2 h l1 l2 by (auto simp: quickstart_def Let_def request_is_def)
    next
      case sb: (Inr sb)
      with l1 l2 obtain w1' where m2: "map hq_method l2 = [''GET'', ''POST'']"
        and made: "client_create ff ?cl tr (example_create ''alpine:latest'') w1 = (Inr sb, w2)"
        by (auto simp: request_is_def)
      with l3 sb have m3: "map hq_method l3 = [''GET'', ''POST'', ''POST'']" by (auto simp: request_is_def)
      show ?thesis
      proof (cases xr)
        case (Inl e)
        then show ?thesis using c1 c2 c3 h sb m3 by (simp add: quickstart_def Let_def)
      next
        case (Inr x)
        then obtain out where run: "quickstart ff detail env (recording tr) (w, [])
            = quickstart_stream detail ?cl (recording tr) (as_id sb) out (w3, l3)"
          using c1 c2 c3 h sb by (simp add: quickstart_def Let_def)
        obtain res w4 l4 where r: "quickstart_stream detail ?cl (recording tr) (as_id sb) out (w3, l3) = (res, (w4, l4))"
          by (metis prod.exhaust)
        have ex: "request_is ?cl ''DELETE'' (''/v1/sandboxes/'' @ as_id sb) q \<Longrightarrow>
            \<exists>w1 sb w2. client_create ff ?cl tr (example_create ''alpine:latest'') w1 = (Inr sb, w2)
              \<and> request_is ?cl ''DELETE'' (''/v1/sandboxes/'' @ as_id sb) q" for q
          using made by blast
        show ?thesis
          using quickstart_stream_requests [where detail = detail and cl = ?cl and tr = tr and i = "as_id sb" and out = out and w = w3 and qs = l3] m3 ex unfolding run r
          by (auto simp: request_is_def split: if_splits)
      qed
    qed
  qed
qed

end
