(* ===== verification/Spec2Isabelle.thy ===== *)
theory Spec2Isabelle
  imports Observability Reload Reaper Interleaving Conformance Wire Streams Daemon Mcp Registry Streaming Examples
begin

text \<open>
  A verification library for \<open>kotakpasir\<close>, a daemon that runs sandboxed containers for agents.

  The program. \<open>kpd\<close> (\<open>src/cmd/kpd\<close>) loads a policy (\<open>internal/policy\<close>), opens the SQLite store
  (\<open>internal/sandbox/store/sqlite\<close>) and a container backend (\<open>internal/runtime\<close>, in production
  \<open>internal/runtime/docker\<close>), builds the manager (\<open>internal/sandbox/manager.go\<close>) with its warm
  pools (\<open>internal/pool\<close>), log buffers (\<open>internal/sandbox/logbuf\<close>) and metrics, and serves it.
  The reaper deletes expired sandboxes. Each sandbox with an egress allowlist gets a proxy
  container (\<open>cmd/kpproxy\<close>, \<open>internal/proxy\<close>) that decides which hosts it may reach. The front ends are the HTTP
  API (\<open>internal/api\<close>) with its Go SDK (\<open>pkg/kotakpasir\<close>) and command line client (\<open>cmd/kp\<close>),
  and the MCP server \<open>cmd/kpmcp\<close>. A suite (\<open>internal/runtime/runtimetest\<close>) tests backends.

  The theories, in the order in which they import each other:

  \<^item> \<open>Prelude\<close>: Go's integers, durations, floats, strings and maps, and the hints the others share.
  \<^item> \<open>Policy\<close>: \<open>policy.go\<close>; validation, loading, and \<open>resolve\<close>, which is shown equal to the
    documented order of precedence.
  \<^item> \<open>Logbuf\<close>: \<open>logbuf.go\<close>; the buffer refines "the longest recent suffix that fits the cap".
    Its contract is the locale \<open>recent_log\<close>.
  \<^item> \<open>Runtime\<close>: the \<open>Runtime\<close> interface as a record of operations, its contract as the locales
    \<open>container_runtime\<close> and \<open>managed_runtime\<close>, and the fake of the manager's tests as an instance.
  \<^item> \<open>Pool\<close>: \<open>pool.go\<close>; the methods, then every interleaving of the initial fill, the refill
    goroutine, claims and shutdown as the step relation \<open>pool_step\<close>.
  \<^item> \<open>Json\<close>, \<open>Strconv\<close>: what the program uses of \<open>encoding/json\<close> and \<open>strconv\<close>.
  \<^item> \<open>Store\<close>: the \<open>Store\<close> interface with its contract, the locale \<open>sandbox_store\<close>; the SQLite
    store and the in-memory store of the tests are its two instances.
  \<^item> \<open>Metrics\<close>, \<open>Manager\<close>: \<open>metrics.go\<close> and every method of \<open>manager.go\<close>.
  \<^item> \<open>Lifecycle\<close>: the invariant of the manager over any backend and store that meet their
    contracts (locale \<open>manager_env\<close>): no container is shared. \<open>Sandboxes\<close>: what each operation
    on sandboxes does on every branch. \<open>Reload\<close>: \<open>ReplacePolicy\<close>. \<open>Reaper\<close>: \<open>reaper.go\<close>.
    \<open>Observability\<close>: captured logs, tails, the health report.
  \<^item> \<open>Concurrent\<close>: a request under way as a task, whose steps are the single calls that the methods
    make; run alone, a task is its method. \<open>Interleaving\<close>: any number of tasks and the background in any
    order; still no container is shared, and the races that the code allows as runs.
  \<^item> \<open>Proxy\<close>: \<open>proxy.go\<close> and \<open>kpproxy\<close>. \<open>Docker\<close>: \<open>docker.go\<close> over a record for the client.
    \<open>Backend\<close>: over a daemon that behaves as documented, the Docker backend meets the contract of
    containers, so what holds of the manager over any backend holds over Docker.
  \<^item> \<open>Jsonv\<close>: JSON values, what \<open>json.Marshal\<close> writes and a reader for it, with the round trip.
    \<open>Messages\<close>: the texts of the errors. \<open>Sse\<close>: the event stream, written by \<open>handlers.go\<close> and
    parsed by the SDK; reading gives back what was written.
  \<^item> \<open>Api\<close>: \<open>internal/api\<close>; wire types, bearer check, route table, handlers. \<open>Client\<close>: the SDK
    \<open>pkg/kotakpasir\<close> over an arbitrary transport. \<open>Remote\<close>: one over the other; the locale
    \<open>kpd_link\<close> states what the SDK needs of a transport to a server, and the in-process connection of a
    client to the model of the daemon is its interpretation. \<open>Streams\<close>: the same for the logs, the
    followed log (read to the end of its snapshot) and the streamed exec, through the event stream, over
    the locale \<open>kpd_query_link\<close>. \<open>Wire\<close>: the types of the replies of each route, in terms of the
    decoders of the SDK.
  \<^item> \<open>Config\<close>: \<open>internal/config\<close>, with \<open>time.ParseDuration\<close> written out. \<open>Frames\<close>: what the
    manager's operations leave alone. \<open>Kpd\<close>: \<open>cmd/kpd\<close>; start-up, the reload on SIGHUP, and the daemon
    as a machine over requests, signals, reaper ticks and background steps. \<open>Daemon\<close>: its flags, its end
    and what the shutdown of the manager leaves. \<open>Mcp\<close>: the tools of
    \<open>internal/mcp\<close> and \<open>cmd/kpmcp\<close>, shown to agree with the HTTP handlers.
  \<^item> \<open>Registry\<close>: \<open>internal/registry\<close>, by the contract \<open>id_map\<close>. \<open>Cli\<close>: the commands of \<open>cmd/kp\<close>
    over the SDK, what they print and how they exit. \<open>Terminal\<close>: its \<open>main\<close>, and the commands against a
    running \<open>kpd\<close>. \<open>Streaming\<close>: a streamed exec against a buffered one, from the command line down to
    the Docker backend. \<open>Examples\<close>: the programs under \<open>examples\<close>, over any transport.
  \<^item> \<open>Conformance\<close>: the suite \<open>internal/runtime/runtimetest\<close> that a backend has to pass, with the part of the
    package \<open>testing\<close> it uses; what its lifecycle test certifies, and what the suite leaves on Docker.
  \<^item> this theory: the egress of a sandbox from the policy to the decision of its proxy.

  State and effects. A Go struct is a record; a pointer shared between structures is an index
  into an explicit heap (\<open>m_heap\<close> for pools) or an entry of an association list (\<open>m_logs\<close>).
  Stateful code takes and returns its state; an error is \<open>Some e\<close>, or the left side of a sum.
  The backend \<open>'r\<close> and the store \<open>'s\<close> are arbitrary states with operations that may fail at any
  call. In \<open>Manager\<close> a method runs from its start to its end; the retirement of pools and the
  refill, which the code runs in goroutines, are operations of their own. The manager holds no lock
  across a method, so in \<open>Concurrent\<close> each call that a method makes to the store, the backend or a pool is
  one atomic step, and \<open>Interleaving\<close> lets the steps of all requests come in any order. The theorems
  about single methods are about a method that runs without interference.

  Bounds and termination. \<open>int64\<close> and \<open>time.Duration\<close> are 64-bit words; sizes of buffers and
  pools are unbounded integers, since they are far below \<open>2 ^ 63\<close>. The eviction loop and the loops
  over lists are structural, and the refill loop of a pool is shown to end by the measure of the
  missing containers. Three functions take fuel. The JSON reader starts with twice the length of its
  input, which is enough because every call consumes a character or is the one call that a value makes
  on the same text (\<open>json_shrinks\<close>, \<open>json_fuel\<close>). \<open>parse_duration\<close> takes the length of its
  input, and each round consumes a unit. The normalisation of a float in \<open>Config\<close> takes 2100 halvings
  or doublings, more than the exponents of a float64 span. The waits of the SDK and of \<open>kp watch\<close> run
  over a script of ticks that ends, or not, with the cancellation of the context; a wait that the
  script does not end is the value \<open>None\<close>.

  Parameters. The YAML decoder, the Docker client and the identifiers and times that a call
  draws are arguments of the definitions that use them. What is needed of the Docker daemon is
  \<open>daemon_ok\<close> and \<open>removals_succeed\<close> in \<open>Docker\<close>, which hold of the daemon \<open>demo_docker\<close>, and
  \<open>daemon_documented\<close> in \<open>Backend\<close>, which holds of \<open>memo_docker\<close> and includes that removals of existing
  containers succeed: \<open>docker.go\<close> reports no failure of a removal.
  The binding of request bodies by \<open>fiber\<close> is the record \<open>binders\<close>, with \<open>json_binders\<close> as the
  hypothesis that it reads JSON as \<open>encoding/json\<close> does; the text of a float64 and its reader, the
  transport of the SDK, the environment and the file system are functions.

  Not modelled: logging; cancellation of a context in the middle of an operation; the HTTP
  listener, \<open>goproxy\<close>'s tunnels and Prometheus's text format, which are libraries; \<open>fiber\<close>'s
  reuse of the buffers behind path parameters, and its HEAD and case-insensitive matching of routes;
  the flag parsing of \<open>cobra\<close> (the flags are given as parsed) and the alignment of \<open>tabwriter\<close>; the schemas
  and the transport of the MCP library; what the shell commands of \<open>runtimetest\<close> do inside a container, and
  the deadlines of contexts in it and in the example programs.
\<close>

section \<open>Egress, end to end\<close>

text \<open>The environment of a container, from the \<open>NAME=value\<close> strings of its configuration.\<close>

definition split_env :: "string \<Rightarrow> string \<times> string" where
  "split_env e = (takeWhile (\<lambda>c. c \<noteq> CHR ''='') e, drop 1 (dropWhile (\<lambda>c. c \<noteq> CHR ''='') e))"

definition container_environ :: "string list \<Rightarrow> environ" where
  "container_environ es = rev (map split_env es)"

text \<open>The configuration the proxy container of a resolved request reads at its start.\<close>

definition sandbox_proxy_config :: "string \<Rightarrow> resolved \<Rightarrow> string \<Rightarrow> proxy_config" where
  "sandbox_proxy_config img res uuid =
     config_of_env (container_environ (cc_env (fst (proxy_config_for img uuid (runtime_spec res uuid)))))"

lemma split_env_pair: "CHR ''='' \<notin> set k \<Longrightarrow> split_env (k @ CHR ''='' # v) = (k, v)"
  by (induction k) (auto simp: split_env_def)

text \<open>A host of a policy that survives the comma-separated environment variable.\<close>

definition plain_host :: "string \<Rightarrow> bool" where
  "plain_host h \<longleftrightarrow> h \<noteq> [] \<and> CHR '','' \<notin> set h \<and> (\<forall>c \<in> set h. \<not> is_space c)"

lemma split_csv_join:
  assumes "\<forall>h \<in> set hs. plain_host h"
  shows "split_csv (join_with '','' hs) = hs"
proof (cases "hs = []")
  case False
  have "join_with '','' hs \<noteq> []"
    using False assms by (cases hs; cases "tl hs") (auto simp: plain_host_def)
  moreover have "split_on (CHR '','') (join_with '','' hs) = hs"
    by (rule split_on_join) (use False assms in \<open>auto simp: plain_host_def\<close>)
  moreover have "map trim_space hs = hs"
    using assms by (induction hs) (auto simp: plain_host_def trim_space_no_space)
  moreover have "filter (\<lambda>p. p \<noteq> []) hs = hs"
    using assms by (induction hs) (auto simp: plain_host_def)
  ultimately show ?thesis by (simp add: split_csv_def)
qed (simp add: split_csv_def)

lemma getenv_proxy:
  "getenv (container_environ (proxy_env hs)) ''KP_ALLOWED_HOSTS'' = join_with '','' hs"
  "getenv (container_environ (proxy_env hs)) ''KP_DENY_HOSTS'' = join_with '','' default_deny_hosts"
proof -
  have "split_env (''KP_ALLOWED_HOSTS='' @ v) = (''KP_ALLOWED_HOSTS'', v)"
    "split_env (''KP_DENY_HOSTS='' @ v) = (''KP_DENY_HOSTS'', v)"
    "split_env ''KP_PROXY_PORT=8080'' = (''KP_PROXY_PORT'', ''8080'')" for v
    by (simp_all add: split_env_def)
  then show "getenv (container_environ (proxy_env hs)) ''KP_ALLOWED_HOSTS'' = join_with '','' hs"
    "getenv (container_environ (proxy_env hs)) ''KP_DENY_HOSTS'' = join_with '','' default_deny_hosts"
    unfolding getenv_def container_environ_def proxy_env_def by (simp_all del: append.simps)
qed

lemma default_deny_plain: "\<forall>h \<in> set default_deny_hosts. plain_host h"
  by (simp add: default_deny_hosts_def plain_host_def is_space_def)

lemma default_deny_lower: "h \<in> set default_deny_hosts \<Longrightarrow> to_lower (trim_space h) = h"
proof -
  have "to_lower ''169.254.169.254'' = ''169.254.169.254''"
    "to_lower ''metadata.google.internal'' = ''metadata.google.internal''"
    "to_lower ''metadata.aws.internal'' = ''metadata.aws.internal''" by code_simp+
  then show "h \<in> set default_deny_hosts \<Longrightarrow> to_lower (trim_space h) = h"
    using default_deny_plain by (auto simp: default_deny_hosts_def plain_host_def trim_space_no_space)
qed

lemma sandbox_proxy_lists:
  assumes "\<forall>h \<in> set (eg_hosts (rs_egress res)). plain_host h"
  shows "px_allowed (sandbox_proxy_config img res uuid) = eg_hosts (rs_egress res)"
    and "px_deny (sandbox_proxy_config img res uuid) = default_deny_hosts"
  by (simp_all add: sandbox_proxy_config_def config_of_env_def proxy_config_for_def runtime_spec_def
      getenv_proxy split_csv_join [OF assms] split_csv_join [OF default_deny_plain] Let_def)

lemma to_lower_Nil [simp]: "to_lower s = [] \<longleftrightarrow> s = []"
  by (simp add: to_lower_def)

lemma connect_decision_plain:
  assumes hosts: "\<forall>h \<in> set (eg_hosts (rs_egress res)). plain_host h"
    and host: "host \<noteq> []" "set host \<inter> {CHR '':'', CHR ''['', CHR '']''} = {}"
    and port: "set port \<inter> {CHR '':'', CHR ''['', CHR '']''} = {}"
  shows "fst (fst (handle_connect (sandbox_proxy_config img res uuid) (host @ '':'' @ port) k)) = OkConnect
    \<longleftrightarrow> to_lower host \<in> to_lower ` set (eg_hosts (rs_egress res)) \<and> to_lower host \<notin> set default_deny_hosts"
proof -
  let ?cfg = "sandbox_proxy_config img res uuid" and ?t = "host @ '':'' @ port"
  have trim: "(\<lambda>h. to_lower (trim_space h)) ` set (px_allowed ?cfg) = to_lower ` set (eg_hosts (rs_egress res))"
    using hosts by (auto simp: sandbox_proxy_lists [OF hosts] plain_host_def trim_space_no_space image_iff)
  have deny: "(\<lambda>h. to_lower (trim_space h)) ` set (px_deny ?cfg) = set default_deny_hosts"
    using default_deny_lower by (force simp: sandbox_proxy_lists [OF hosts])
  have "fst (fst (handle_connect ?cfg ?t k)) = OkConnect \<longleftrightarrow> fst (handle_connect ?cfg ?t k) = (OkConnect, ?t)"
    using handle_connect_decision [of ?cfg ?t k] by (metis fst_conv prod.collapse)
  then show ?thesis
    using handle_connect_decision [of ?cfg ?t k] split_plain [OF host(2) port] host(1)
    by (simp add: trim deny)
qed


definition egress_sample :: resolved where
  "egress_sample = resolve_spec sample_policy (plain_request [] ''python:3.12-slim'')"

lemma egress_sample_hosts: "eg_hosts (rs_egress egress_sample) = [''api.openai.com'']"
  by (simp add: egress_sample_def resolve_spec_def chosen_egress_def image_layer_def chosen_image_def
      profile_layer_def sample_defs)

lemma connect_not_ok: "a \<noteq> OkConnect \<longleftrightarrow> a = RejectConnect"
  by (cases a) simp_all

lemma egress_sample_resolved:
  "resolve sample_policy (plain_request [] ''python:3.12-slim'') = Inr egress_sample"
  by (simp add: resolve_Inr resolve_denied_def chosen_image_def profile_layer_def sample_defs egress_sample_def)


text \<open>A policy that denies a host globally and lists it, in another case, for an image.\<close>

definition bypass_policy :: policy where
  "bypass_policy = sample_policy\<lparr>
     po_images := [\<lparr> im_name = ''alpine'', im_description = [], im_cpus = Fin 0, im_memory_mb = 0,
       im_ttl = 0, im_egress = Some \<lparr> eg_mode = egress_allowlist, eg_hosts = [''Evil.com''] \<rparr>,
       im_pool = 0 \<rparr>],
     po_profiles := [],
     po_egress := \<lparr> ge_default = \<lparr> eg_mode = egress_none, eg_hosts = [] \<rparr>,
       ge_global_deny = [''evil.com''] \<rparr> \<rparr>"

text \<open>The global deny list is compared byte for byte when the policy is resolved, while the
  proxy ignores case: there is a valid policy that denies \<open>evil.com\<close> globally and under which a
  sandbox's proxy nevertheless admits \<open>evil.com:443\<close>, because the image lists \<open>Evil.com\<close>.\<close>

theorem global_deny_is_case_sensitive:
  "valid_policy bypass_policy \<and> ''evil.com'' \<in> set (ge_global_deny (po_egress bypass_policy))
   \<and> (\<exists>res. resolve bypass_policy (plain_request [] ''alpine'') = Inr res
        \<and> fst (fst (handle_connect (sandbox_proxy_config img res uuid) ''evil.com:443'' k)) = OkConnect)"
proof -
  let ?res = "resolve_spec bypass_policy (plain_request [] ''alpine'')"
  have hosts: "eg_hosts (rs_egress ?res) = [''Evil.com'']"
    by (simp add: resolve_spec_def chosen_egress_def image_layer_def chosen_image_def profile_layer_def
        sample_defs bypass_policy_def)
  have lower: "to_lower ''Evil.com'' = ''evil.com''" "to_lower ''evil.com'' = ''evil.com''" by code_simp+
  have "fst (fst (handle_connect (sandbox_proxy_config img ?res uuid) (''evil.com'' @ '':'' @ ''443'') k)) = OkConnect"
    by (subst connect_decision_plain)
      (simp_all add: hosts lower plain_host_def is_space_def default_deny_hosts_def)
  moreover have "resolve bypass_policy (plain_request [] ''alpine'') = Inr ?res"
    by (simp add: resolve_Inr resolve_denied_def chosen_image_def profile_layer_def sample_defs bypass_policy_def)
  moreover have "valid_policy bypass_policy"
    by (simp add: valid_policy_def image_ok_def profile_ok_def egress_ok_def egress_mode_none_def
        sample_defs bypass_policy_def)
  ultimately show ?thesis by (simp add: bypass_policy_def)
qed

end
